(* ===== verification/Prelude.thy ===== *)
theory Prelude
  imports Main "HOL-Library.List_Lexorder" "HOL-Library.Char_ord"
begin

text \<open>
  What every component shares: the result of an operation that may throw (a state with an
  error or a value), the transaction wrapper, the few JavaScript string functions the program
  uses, and generic lemmas on lists.

  A character is one UTF-16 code unit below 256, so a string here is a JavaScript string over
  the first 256 code units.  On those the lower-casing and the white space of ECMAScript are
  written out below.
\<close>

section \<open>Operations that may throw\<close>

named_theorems io_simps \<open>equations that run an operation\<close>
named_theorems keeps_intro \<open>introduction rules: an operation stays within a relation\<close>

type_synonym ('s, 'e, 'a) io = "'s \<Rightarrow> ('e + 'a) \<times> 's"

definition ret :: "'a \<Rightarrow> ('s, 'e, 'a) io" where
  "ret x = (\<lambda>s. (Inr x, s))"

definition throw :: "'e \<Rightarrow> ('s, 'e, 'a) io" where
  "throw e = (\<lambda>s. (Inl e, s))"

definition bindE :: "('s, 'e, 'a) io \<Rightarrow> ('a \<Rightarrow> ('s, 'e, 'b) io) \<Rightarrow> ('s, 'e, 'b) io" where
  "bindE m f = (\<lambda>s. case m s of (Inl e, s') \<Rightarrow> (Inl e, s') | (Inr x, s') \<Rightarrow> f x s')"

definition readE :: "('s \<Rightarrow> 'a) \<Rightarrow> ('s, 'e, 'a) io" where
  "readE f = (\<lambda>s. (Inr (f s), s))"

definition writeE :: "('s \<Rightarrow> 's) \<Rightarrow> ('s, 'e, unit) io" where
  "writeE f = (\<lambda>s. (Inr (), f s))"

definition catchE :: "('s, 'e, 'a) io \<Rightarrow> ('e \<Rightarrow> ('s, 'e, 'a) io) \<Rightarrow> ('s, 'e, 'a) io" where
  "catchE m h = (\<lambda>s. case m s of (Inl e, s') \<Rightarrow> h e s' | (Inr x, s') \<Rightarrow> (Inr x, s'))"

text \<open>An exception inside a transaction rolls the state back and is rethrown.\<close>

definition atomically :: "('s, 'e, 'a) io \<Rightarrow> ('s, 'e, 'a) io" where
  "atomically m = (\<lambda>s. case m s of (Inl e, _) \<Rightarrow> (Inl e, s) | (Inr x, s') \<Rightarrow> (Inr x, s'))"

text \<open>A \<open>finally\<close> block: the update runs whatever happened.\<close>

definition finallyE :: "('s, 'e, 'a) io \<Rightarrow> ('s \<Rightarrow> 's) \<Rightarrow> ('s, 'e, 'a) io" where
  "finallyE m f = (\<lambda>s. case m s of (r, s') \<Rightarrow> (r, f s'))"

fun forE :: "'a list \<Rightarrow> ('a \<Rightarrow> ('s, 'e, 'b) io) \<Rightarrow> ('s, 'e, 'b list) io" where
  "forE [] f = ret []"
| "forE (x # xs) f = bindE (f x) (\<lambda>y. bindE (forE xs f) (\<lambda>ys. ret (y # ys)))"

definition out_of :: "('e + 'a) \<times> 's \<Rightarrow> 'e + 'a" where
  "out_of r = fst r"

definition after :: "('s, 'e, 'a) io \<Rightarrow> 's \<Rightarrow> 's" where
  "after m s = snd (m s)"

lemma run_ret [io_simps, simp]: "ret x s = (Inr x, s)"
  by (simp add: ret_def)

lemma run_throw [io_simps, simp]: "throw e s = (Inl e, s)"
  by (simp add: throw_def)

lemma run_read [io_simps, simp]: "readE f s = (Inr (f s), s)"
  by (simp add: readE_def)

lemma run_write [io_simps, simp]: "writeE f s = (Inr (), f s)"
  by (simp add: writeE_def)

lemma run_bind [io_simps]:
  "bindE m f s = (case m s of (Inl e, s') \<Rightarrow> (Inl e, s') | (Inr x, s') \<Rightarrow> f x s')"
  by (simp add: bindE_def)

lemma run_catch [io_simps]:
  "catchE m h s = (case m s of (Inl e, s') \<Rightarrow> h e s' | (Inr x, s') \<Rightarrow> (Inr x, s'))"
  by (simp add: catchE_def)

lemma run_atomically [io_simps]:
  "atomically m s = (case m s of (Inl e, _) \<Rightarrow> (Inl e, s) | (Inr x, s') \<Rightarrow> (Inr x, s'))"
  by (simp add: atomically_def)

lemma run_finally [io_simps]: "finallyE m f s = (fst (m s), f (after m s))"
  by (simp add: finallyE_def after_def split: prod.split)

lemma run_bind_InrD:
  "bindE m f s = (Inr y, s') \<Longrightarrow> \<exists>x t. m s = (Inr x, t) \<and> f x t = (Inr y, s')"
  by (auto simp: run_bind split: prod.splits sum.splits)

lemma run_bind_read [io_simps, simp]: "bindE (readE f) g s = g (f s) s"
  by (simp add: run_bind)

lemma run_bind_ret [io_simps, simp]: "bindE (ret x) g s = g x s"
  by (simp add: run_bind)

lemma run_bind_write [io_simps, simp]: "bindE (writeE f) g s = g () (f s)"
  by (simp add: run_bind)

lemma run_bind_throw [io_simps, simp]: "bindE (throw e) g s = (Inl e, s)"
  by (simp add: run_bind)

text \<open>A loop whose body never throws.\<close>

lemma forE_fold:
  assumes "\<And>x s. f x s = (Inr (), after (f x) s)"
  shows "forE xs f s = (Inr (replicate (length xs) ()), fold (\<lambda>x. after (f x)) xs s)"
proof (induction xs arbitrary: s)
  case (Cons x xs)
  show ?case using assms [of x s] by (simp add: run_bind Cons.IH)
qed simp

text \<open>A loop whose body never throws, whatever it returns.\<close>

lemma forE_runs:
  assumes "\<And>x s. \<exists>r. f x s = (Inr r, after (f x) s)"
  shows "\<exists>ys. length ys = length xs \<and> forE xs f s = (Inr ys, fold (\<lambda>x. after (f x)) xs s)"
proof (induction xs arbitrary: s)
  case (Cons x xs)
  obtain r where "f x s = (Inr r, after (f x) s)" using assms by blast
  moreover obtain ys where "length ys = length xs"
    "forE xs f (after (f x) s) = (Inr ys, fold (\<lambda>x. after (f x)) xs (after (f x) s))"
    using Cons.IH by blast
  ultimately show ?case by (intro exI [of _ "r # ys"]) (simp add: run_bind)
qed simp

lemma atomically_error: "out_of (atomically m s) = Inl e \<Longrightarrow> after (atomically m) s = s"
  by (auto simp: run_atomically out_of_def after_def split: prod.splits sum.splits)

section \<open>Operations that stay within a relation on states\<close>

text \<open>
  \<open>keeps R m\<close>: whatever \<open>m\<close> returns or throws, the state after it is related by \<open>R\<close> to the
  state before.  For a reflexive and transitive \<open>R\<close> this is closed under the combinators; the
  locale states that once, and it is interpreted below for the relation "the invariant is kept"
  and in the component theories for the evolution of the job table.
\<close>

definition keeps :: "('s \<Rightarrow> 's \<Rightarrow> bool) \<Rightarrow> ('s, 'e, 'a) io \<Rightarrow> bool" where
  "keeps R m \<longleftrightarrow> (\<forall>s. R s (after m s))"

lemma keepsI: "(\<And>s. R s (after m s)) \<Longrightarrow> keeps R m"
  by (simp add: keeps_def)

lemma keepsD: "keeps R m \<Longrightarrow> R s (after m s)"
  by (simp add: keeps_def)

locale state_preorder =
  fixes R :: "'s \<Rightarrow> 's \<Rightarrow> bool"
  assumes refl: "R s s"
    and trans: "R s t \<Longrightarrow> R t u \<Longrightarrow> R s u"
begin

lemma keeps_ret: "keeps R (ret x)"
  by (simp add: keeps_def after_def refl)

lemma keeps_throw: "keeps R (throw e)"
  by (simp add: keeps_def after_def refl)

lemma keeps_read: "keeps R (readE f)"
  by (simp add: keeps_def after_def refl)

lemma keeps_write: "(\<And>s. R s (f s)) \<Longrightarrow> keeps R (writeE f)"
  by (simp add: keeps_def after_def)

lemma at_bind:
  assumes m: "R s (after m s)" and f: "\<And>x t. m s = (Inr x, t) \<Longrightarrow> R t (after (f x) t)"
  shows "R s (after (bindE m f) s)"
proof (cases "m s")
  case (Pair r t)
  then show ?thesis
  proof (cases r)
    case (Inl e)
    with Pair m show ?thesis by (simp add: after_def run_bind)
  next
    case (Inr x)
    with Pair have "R t (after (f x) t)" by (intro f) simp
    moreover have "R s t" using m Pair by (simp add: after_def)
    ultimately have "R s (after (f x) t)" by (rule trans [rotated])
    with Pair Inr show ?thesis by (simp add: after_def run_bind)
  qed
qed

lemma at_catch:
  assumes m: "R s (after m s)" and h: "\<And>e t. m s = (Inl e, t) \<Longrightarrow> R t (after (h e) t)"
  shows "R s (after (catchE m h) s)"
proof (cases "m s")
  case (Pair r t)
  then show ?thesis
  proof (cases r)
    case (Inr x)
    with Pair m show ?thesis by (simp add: after_def run_catch)
  next
    case (Inl e)
    with Pair have "R t (after (h e) t)" by (intro h) simp
    moreover have "R s t" using m Pair by (simp add: after_def)
    ultimately have "R s (after (h e) t)" by (rule trans [rotated])
    with Pair Inl show ?thesis by (simp add: after_def run_catch)
  qed
qed

lemma at_atomically: "R s (after m s) \<Longrightarrow> R s (after (atomically m) s)"
  by (cases "m s"; cases "fst (m s)") (auto simp: after_def run_atomically refl)

lemma keeps_bind: "keeps R m \<Longrightarrow> (\<And>x. keeps R (f x)) \<Longrightarrow> keeps R (bindE m f)"
  by (auto simp: keeps_def intro: at_bind)

lemma keeps_catch: "keeps R m \<Longrightarrow> (\<And>e. keeps R (h e)) \<Longrightarrow> keeps R (catchE m h)"
  by (auto simp: keeps_def intro: at_catch)

lemma keeps_atomically: "keeps R m \<Longrightarrow> keeps R (atomically m)"
  by (auto simp: keeps_def intro: at_atomically)

lemma keeps_bind_read: "(\<And>s. R s (after (g (f s)) s)) \<Longrightarrow> keeps R (bindE (readE f) g)"
  by (auto simp: keeps_def after_def)

lemma keeps_finally: "keeps R m \<Longrightarrow> (\<And>s. R s (f s)) \<Longrightarrow> keeps R (finallyE m f)"
  by (auto simp: keeps_def after_def run_finally intro: trans)

lemma keeps_for: "(\<And>x. x \<in> set xs \<Longrightarrow> keeps R (f x)) \<Longrightarrow> keeps R (forE xs f)"
  by (induction xs) (auto intro!: keeps_ret keeps_bind)

lemma keeps_option:
  "keeps R m \<Longrightarrow> (\<And>x. keeps R (f x)) \<Longrightarrow> keeps R (case q of None \<Rightarrow> m | Some x \<Rightarrow> f x)"
  by (cases q) auto

lemma keeps_if:
  "(b \<Longrightarrow> keeps R m) \<Longrightarrow> (\<not> b \<Longrightarrow> keeps R n) \<Longrightarrow> keeps R (if b then m else n)"
  by auto

lemmas keeps_rules =
  keeps_ret keeps_throw keeps_read keeps_bind keeps_catch keeps_atomically keeps_for
  keeps_option keeps_if

end

text \<open>Keeping an invariant is such a relation.\<close>

definition inv_rel :: "('s \<Rightarrow> bool) \<Rightarrow> 's \<Rightarrow> 's \<Rightarrow> bool" where
  "inv_rel I s t \<longleftrightarrow> (I s \<longrightarrow> I t)"

interpretation inv_keep: state_preorder "inv_rel I" for I
  by unfold_locales (auto simp: inv_rel_def)

text \<open>Never touching a part of the state is another.\<close>

definition same_part :: "('s \<Rightarrow> 'p) \<Rightarrow> 's \<Rightarrow> 's \<Rightarrow> bool" where
  "same_part p s t \<longleftrightarrow> p t = p s"

interpretation part_keep: state_preorder "same_part p" for p
  by unfold_locales (auto simp: same_part_def)

section \<open>Operations on one part of a larger state\<close>

definition on_fst :: "('s, 'e, 'a) io \<Rightarrow> ('s \<times> 't, 'e, 'a) io" where
  "on_fst m = (\<lambda>(s, t). case m s of (r, s') \<Rightarrow> (r, (s', t)))"

definition on_snd :: "('t, 'e, 'a) io \<Rightarrow> ('s \<times> 't, 'e, 'a) io" where
  "on_snd m = (\<lambda>(s, t). case m t of (r, t') \<Rightarrow> (r, (s, t')))"

lemma run_on_fst [io_simps]: "on_fst m (s, t) = (fst (m s), (after m s, t))"
  by (simp add: on_fst_def after_def split: prod.split)

lemma run_on_snd [io_simps]: "on_snd m (s, t) = (fst (m t), (s, after m t))"
  by (simp add: on_snd_def after_def split: prod.split)

text \<open>A relation that only looks at the first part.\<close>

definition on_first :: "('s \<Rightarrow> 's \<Rightarrow> bool) \<Rightarrow> 's \<times> 't \<Rightarrow> 's \<times> 't \<Rightarrow> bool" where
  "on_first R x y \<longleftrightarrow> R (fst x) (fst y)"

lemma keeps_on_fst: "keeps R m \<Longrightarrow> keeps (on_first R) (on_fst m)"
  by (auto simp: keeps_def after_def on_first_def on_fst_def split: prod.split) (metis snd_conv)

lemma keeps_on_snd: "(\<And>s. R s s) \<Longrightarrow> keeps (on_first R) (on_snd m)"
  by (auto simp: keeps_def after_def on_first_def on_snd_def split: prod.split)

section \<open>JavaScript strings\<close>

text \<open>The white space of \<open>String.prototype.trim\<close> and of \<open>\s\<close> below code unit 256.\<close>

definition js_space :: "char \<Rightarrow> bool" where
  "js_space c \<longleftrightarrow> (of_char c :: nat) \<in> {9, 10, 11, 12, 13, 32, 160}"

text \<open>\<open>Array.prototype.join\<close>.\<close>

fun join_with :: "string \<Rightarrow> string list \<Rightarrow> string" where
  "join_with sep [] = []"
| "join_with sep [x] = x"
| "join_with sep (x # y # ys) = x @ sep @ join_with sep (y # ys)"

definition newline :: string where
  "newline = [CHR 0x0A]"

definition js_trim :: "string \<Rightarrow> string" where
  "js_trim s = rev (dropWhile js_space (rev (dropWhile js_space s)))"

definition js_lower_char :: "char \<Rightarrow> char" where
  "js_lower_char c =
     (let n = (of_char c :: nat)
      in if 65 \<le> n \<and> n \<le> 90 \<or> 192 \<le> n \<and> n \<le> 222 \<and> n \<noteq> 215 then char_of (n + 32) else c)"

definition js_lower :: "string \<Rightarrow> string" where
  "js_lower s = map js_lower_char s"

text \<open>SQLite's \<open>NOCASE\<close> collation folds the 26 ASCII letters only.\<close>

definition nocase_char :: "char \<Rightarrow> char" where
  "nocase_char c =
     (let n = (of_char c :: nat) in if 65 \<le> n \<and> n \<le> 90 then char_of (n + 32) else c)"

definition nocase :: "string \<Rightarrow> string" where
  "nocase s = map nocase_char s"

fun js_split :: "char \<Rightarrow> string \<Rightarrow> string list" where
  "js_split c [] = [[]]"
| "js_split c (x # xs) =
     (if x = c then [] # js_split c xs
      else case js_split c xs of [] \<Rightarrow> [[x]] | y # ys \<Rightarrow> (x # y) # ys)"

fun js_includes :: "string \<Rightarrow> string \<Rightarrow> bool" where
  "js_includes s p \<longleftrightarrow>
     take (length p) s = p \<or> (case s of [] \<Rightarrow> False | _ # t \<Rightarrow> js_includes t p)"

declare js_includes.simps [simp del]

definition js_starts_with :: "string \<Rightarrow> string \<Rightarrow> bool" where
  "js_starts_with s p \<longleftrightarrow> take (length p) s = p"

definition is_digit :: "char \<Rightarrow> bool" where
  "is_digit c \<longleftrightarrow> 48 \<le> (of_char c :: nat) \<and> (of_char c :: nat) \<le> 57"

definition is_lower_letter :: "char \<Rightarrow> bool" where
  "is_lower_letter c \<longleftrightarrow> 97 \<le> (of_char c :: nat) \<and> (of_char c :: nat) \<le> 122"

definition is_upper_letter :: "char \<Rightarrow> bool" where
  "is_upper_letter c \<longleftrightarrow> 65 \<le> (of_char c :: nat) \<and> (of_char c :: nat) \<le> 90"

definition digit_char :: "nat \<Rightarrow> char" where
  "digit_char n = char_of (48 + n)"

text \<open>Decimal printing: \<open>String(n)\<close> and SQLite's \<open>CAST(n AS TEXT)\<close>.\<close>

fun show_nat :: "nat \<Rightarrow> string" where
  "show_nat n = (if n < 10 then [digit_char n] else show_nat (n div 10) @ [digit_char (n mod 10)])"

declare show_nat.simps [simp del]

definition show_int :: "int \<Rightarrow> string" where
  "show_int i = (if i < 0 then CHR ''-'' # show_nat (nat (- i)) else show_nat (nat i))"

fun find_first :: "('a \<Rightarrow> bool) \<Rightarrow> 'a list \<Rightarrow> 'a option" where
  "find_first P [] = None"
| "find_first P (x # xs) = (if P x then Some x else find_first P xs)"

subsection \<open>Lemmas on strings\<close>

lemma dropWhile_idem: "dropWhile P (dropWhile P xs) = dropWhile P xs"
  by (induction xs) auto

lemma dropWhile_rev_dropWhile:
  "dropWhile P xs = xs \<Longrightarrow> dropWhile P (rev (dropWhile P (rev xs))) = rev (dropWhile P (rev xs))"
proof (cases "rev (dropWhile P (rev xs))")
  case (Cons y ys)
  assume a: "dropWhile P xs = xs"
  have "xs = rev (dropWhile P (rev xs)) @ rev (takeWhile P (rev xs))"
    by (metis rev_append rev_rev_ident takeWhile_dropWhile_id)
  with Cons obtain zs where "xs = y # zs" by auto
  with a have "\<not> P y" by (metis hd_dropWhile list.distinct(1) list.sel(1))
  with Cons show ?thesis by simp
next
  case Nil
  then show ?thesis by (simp del: rev_is_Nil_conv)
qed

lemma js_trim_idem [simp]: "js_trim (js_trim s) = js_trim s"
proof -
  let ?t = "dropWhile js_space s"
  have "dropWhile js_space (js_trim s) = js_trim s"
    unfolding js_trim_def by (rule dropWhile_rev_dropWhile) (rule dropWhile_idem)
  then show ?thesis
    by (simp add: js_trim_def [of "js_trim s"]) (simp add: js_trim_def dropWhile_idem)
qed

lemma js_lower_char_idem [simp]: "js_lower_char (js_lower_char c) = js_lower_char c"
  by (auto simp: js_lower_char_def Let_def of_char_mod_256)

lemma js_lower_idem [simp]: "js_lower (js_lower s) = js_lower s"
  by (simp add: js_lower_def)

lemma of_char_digit_char: "n < 10 \<Longrightarrow> of_char (digit_char n) = 48 + n"
  by (simp add: digit_char_def take_bit_eq_mod)

lemma digit_char_inj: "a < 10 \<Longrightarrow> b < 10 \<Longrightarrow> digit_char a = digit_char b \<longleftrightarrow> a = b"
  by (metis add_left_cancel of_char_digit_char)

lemma show_nat_nonempty [simp]: "show_nat n \<noteq> []" "[] \<noteq> show_nat n"
  by (subst show_nat.simps; simp)+

lemma show_nat_digits: "c \<in> set (show_nat n) \<Longrightarrow> is_digit c"
proof (induction n rule: show_nat.induct)
  case (1 n)
  then show ?case
    by (auto simp: show_nat.simps [of n] is_digit_def of_char_digit_char split: if_splits)
qed

lemma show_nat_inj: "show_nat m = show_nat n \<longleftrightarrow> m = n"
proof (induction m arbitrary: n rule: show_nat.induct)
  case (1 m)
  show ?case
  proof (cases "m < 10 \<or> n < 10")
    case True
    then show ?thesis
      by (auto simp: show_nat.simps [of m] show_nat.simps [of n] digit_char_inj)
  next
    case False
    with "1.IH" have "show_nat m = show_nat n \<longleftrightarrow> m div 10 = n div 10 \<and> m mod 10 = n mod 10"
      by (simp add: show_nat.simps [of m] show_nat.simps [of n] digit_char_inj)
    then show ?thesis by (metis div_mult_mod_eq)
  qed
qed

section \<open>Generic lemmas on lists\<close>

lemma find_first_SomeD: "find_first P xs = Some x \<Longrightarrow> x \<in> set xs \<and> P x"
  by (induction xs) (auto split: if_splits)

lemma find_first_None_iff: "find_first P xs = None \<longleftrightarrow> (\<forall>x \<in> set xs. \<not> P x)"
  by (induction xs) auto

lemma find_first_cong: "(\<And>x. x \<in> set xs \<Longrightarrow> P x = Q x) \<Longrightarrow> find_first P xs = find_first Q xs"
  by (induction xs) auto

lemma find_first_unique:
  "x \<in> set xs \<Longrightarrow> P x \<Longrightarrow> (\<And>y. y \<in> set xs \<Longrightarrow> P y \<Longrightarrow> y = x) \<Longrightarrow> find_first P xs = Some x"
  by (metis find_first_None_iff find_first_SomeD option.exhaust)

lemma find_first_map:
  "(\<And>x. x \<in> set xs \<Longrightarrow> P (f x) = P x) \<Longrightarrow> find_first P (map f xs) = map_option f (find_first P xs)"
  by (induction xs) auto

lemma find_first_append:
  "find_first P (xs @ ys) = (case find_first P xs of None \<Rightarrow> find_first P ys | Some x \<Rightarrow> Some x)"
  by (induction xs) auto

text \<open>An SQL \<open>UPDATE\<close>: rows that satisfy the condition are rewritten in place.\<close>

definition update_where :: "('a \<Rightarrow> bool) \<Rightarrow> ('a \<Rightarrow> 'a) \<Rightarrow> 'a list \<Rightarrow> 'a list" where
  "update_where P f xs = map (\<lambda>x. if P x then f x else x) xs"

lemma update_where_Nil [simp]: "update_where P f [] = []"
  by (simp add: update_where_def)

lemma update_where_Cons [simp]:
  "update_where P f (x # xs) = (if P x then f x else x) # update_where P f xs"
  by (simp add: update_where_def)

lemma update_where_none: "(\<And>x. x \<in> set xs \<Longrightarrow> \<not> P x) \<Longrightarrow> update_where P f xs = xs"
  by (induction xs) auto

lemma map_update_where:
  "(\<And>x. x \<in> set xs \<Longrightarrow> P x \<Longrightarrow> g (f x) = g x) \<Longrightarrow> map g (update_where P f xs) = map g xs"
  by (induction xs) auto

lemma length_update_where [simp]: "length (update_where P f xs) = length xs"
  by (simp add: update_where_def)

lemma set_update_where: "set (update_where P f xs) = {if P x then f x else x | x. x \<in> set xs}"
  by (auto simp: update_where_def)

lemma list_all2_update_where:
  "(\<And>x. x \<in> set xs \<Longrightarrow> Q x (if P x then f x else x)) \<Longrightarrow> list_all2 Q xs (update_where P f xs)"
  by (induction xs) auto

lemma distinct_map_eq: "distinct (map f xs) \<Longrightarrow> x \<in> set xs \<Longrightarrow> y \<in> set xs \<Longrightarrow> f x = f y \<Longrightarrow> x = y"
  by (auto simp: distinct_map inj_on_def)

lemma filter_key_single:
  "distinct (map f xs) \<Longrightarrow> x \<in> set xs \<Longrightarrow> filter (\<lambda>i. f i = f x) xs = [x]"
proof (induction xs)
  case (Cons y ys)
  show ?case
  proof (cases "y = x")
    case True
    with Cons.prems(1) have "filter (\<lambda>i. f i = f x) ys = []" by (fastforce simp: filter_empty_conv image_iff)
    with True show ?thesis by simp
  next
    case False
    with Cons.prems have "f y \<noteq> f x" by force
    with False Cons show ?thesis by simp
  qed
qed simp

end
