(* ===== verification/Json.thy ===== *)
theory Json
  imports Prelude
begin

text \<open>
  \<open>JSON.stringify\<close> as the program uses it: audit details and the canonical form behind the
  idempotency key.  Numbers are the integers the program prints.  The main fact is that the
  printed text determines the value: \<open>stringify\<close> is injective, and it stays so in front of
  any text that starts with a delimiter.
\<close>

section \<open>Values and printing\<close>

datatype json =
    JNull
  | JBool bool
  | JNum int
  | JStr string
  | JArr "json list"
  | JObj "(string \<times> json) list"

definition hex_char :: "nat \<Rightarrow> char" where
  "hex_char n = (if n < 10 then char_of (48 + n) else char_of (87 + n))"

text \<open>The escapes of ECMAScript's QuoteJSONString.\<close>

definition escape_char :: "char \<Rightarrow> string" where
  "escape_char c =
     (let n = (of_char c :: nat) in
      if n = 34 then [CHR 92, c]
      else if n = 92 then [CHR 92, c]
      else if n = 8 then [CHR 92, CHR ''b'']
      else if n = 12 then [CHR 92, CHR ''f'']
      else if n = 10 then [CHR 92, CHR ''n'']
      else if n = 13 then [CHR 92, CHR ''r'']
      else if n = 9 then [CHR 92, CHR ''t'']
      else if n < 32
      then [CHR 92, CHR ''u'', CHR ''0'', CHR ''0'', hex_char (n div 16), hex_char (n mod 16)]
      else [c])"

definition quote :: "string \<Rightarrow> string" where
  "quote s = CHR 34 # concat (map escape_char s) @ [CHR 34]"

fun comma_sep :: "string list \<Rightarrow> string" where
  "comma_sep [] = []"
| "comma_sep [x] = x"
| "comma_sep (x # y # ys) = x @ CHR '','' # comma_sep (y # ys)"

fun stringify :: "json \<Rightarrow> string" where
  "stringify JNull = ''null''"
| "stringify (JBool b) = (if b then ''true'' else ''false'')"
| "stringify (JNum n) = show_int n"
| "stringify (JStr s) = quote s"
| "stringify (JArr xs) = CHR ''['' # comma_sep (map stringify xs) @ '']''"
| "stringify (JObj kvs) =
     CHR ''{'' # comma_sep (map (\<lambda>kv. quote (fst kv) @ CHR '':'' # stringify (snd kv)) kvs) @ ''}''"

section \<open>The text determines the value\<close>

definition delimited :: "string \<Rightarrow> bool" where
  "delimited r \<longleftrightarrow> (case r of [] \<Rightarrow> True | c # _ \<Rightarrow> c \<in> {CHR '','', CHR '']'', CHR ''}''})"

lemma delimited_simps [simp]:
  "delimited []" "delimited (c # r) \<longleftrightarrow> c \<in> {CHR '','', CHR '']'', CHR ''}''}"
  by (simp_all add: delimited_def)

text \<open>Reading one character of a string literal back.\<close>

definition hex_value :: "char \<Rightarrow> nat" where
  "hex_value c = (let n = (of_char c :: nat) in if n < 58 then n - 48 else n - 87)"

definition unescape :: "string \<Rightarrow> (char \<times> string) option" where
  "unescape s =
     (case s of
        [] \<Rightarrow> None
      | a # r \<Rightarrow>
          if (of_char a :: nat) \<noteq> 92 then Some (a, r)
          else case r of
            [] \<Rightarrow> None
          | b # t \<Rightarrow>
              (let n = (of_char b :: nat) in
               if n = 98 then Some (char_of (8 :: nat), t)
               else if n = 102 then Some (char_of (12 :: nat), t)
               else if n = 110 then Some (char_of (10 :: nat), t)
               else if n = 114 then Some (char_of (13 :: nat), t)
               else if n = 116 then Some (char_of (9 :: nat), t)
               else if n = 117
               then (case t of
                       z # y # h # l # u \<Rightarrow> Some (char_of (16 * hex_value h + hex_value l), u)
                     | _ \<Rightarrow> None)
               else Some (b, t)))"

lemma hex_value_char: "n < 16 \<Longrightarrow> hex_value (hex_char n) = n"
  by (simp add: hex_value_def hex_char_def take_bit_eq_mod Let_def)

lemma char_of_eq: "of_char c = n \<Longrightarrow> char_of n = c" for n :: nat
  by (metis char_of_char)

lemma unescape_escape: "unescape (escape_char c @ r) = Some (c, r)"
proof -
  let ?n = "of_char c :: nat"
  consider "?n = 34" | "?n = 92" | "?n = 8" | "?n = 12" | "?n = 10" | "?n = 13" | "?n = 9"
    | "?n < 32" "?n \<notin> {8, 9, 10, 12, 13}" | "32 \<le> ?n" "?n \<notin> {34, 92}" by force
  then show ?thesis
  proof cases
    case 8
    have "16 * hex_value (hex_char (?n div 16)) + hex_value (hex_char (?n mod 16)) = ?n"
      using 8 by (simp add: hex_value_char)
    with 8 show ?thesis by (simp add: escape_char_def unescape_def Let_def)
  next
    case 9
    then show ?thesis by (simp add: escape_char_def unescape_def Let_def)
  qed (simp_all add: escape_char_def unescape_def Let_def char_of_eq)
qed

lemma escape_prefix: "escape_char c @ x = escape_char d @ y \<Longrightarrow> c = d \<and> x = y"
  by (metis option.inject prod.inject unescape_escape)

lemma escape_not_quote: "escape_char c @ x \<noteq> CHR 34 # y"
proof
  assume a: "escape_char c @ x = CHR 34 # y"
  then show False
  proof (cases "of_char c = (34 :: nat)")
    case True
    with a show False by (simp add: escape_char_def)
  next
    case False
    with a show False by (auto simp: escape_char_def Let_def split: if_splits)
  qed
qed

lemma quote_prefix: "quote s @ x = quote t @ y \<Longrightarrow> s = t \<and> x = y"
proof -
  have "concat (map escape_char s) @ CHR 34 # x = concat (map escape_char t) @ CHR 34 # y \<Longrightarrow>
      s = t \<and> x = y"
  proof (induction s arbitrary: t)
    case Nil
    then show ?case
      using escape_not_quote by (cases t) (auto, metis append.assoc)
  next
    case (Cons c s)
    show ?case
    proof (cases t)
      case Nil
      with Cons.prems show ?thesis using escape_not_quote by auto
    next
      case (Cons d t')
      with Cons.prems have "escape_char c @ (concat (map escape_char s) @ CHR 34 # x) =
          escape_char d @ (concat (map escape_char t') @ CHR 34 # y)" by simp
      from escape_prefix [OF this] Cons.IH [of t'] show ?thesis by (simp add: Cons)
    qed
  qed
  then show "quote s @ x = quote t @ y \<Longrightarrow> s = t \<and> x = y" by (simp add: quote_def)
qed

lemma quote_inj: "quote s = quote t \<longleftrightarrow> s = t"
  using quote_prefix [of s "[]" t "[]"] by auto

text \<open>Numbers end where the digits end.\<close>

lemma delimited_not_digit: "delimited (c # r) \<Longrightarrow> \<not> is_digit c"
  by (auto simp: is_digit_def)

lemma takeWhile_digits: "delimited r \<Longrightarrow> takeWhile is_digit (show_nat n @ r) = show_nat n"
proof -
  assume d: "delimited r"
  have "takeWhile is_digit (show_nat n @ r) = show_nat n @ takeWhile is_digit r"
    by (rule takeWhile_append2) (rule show_nat_digits)
  moreover have "takeWhile is_digit r = []"
    using d delimited_not_digit by (cases r) auto
  ultimately show ?thesis by simp
qed

lemma show_nat_prefix:
  "show_nat m @ x = show_nat n @ y \<Longrightarrow> delimited x \<Longrightarrow> delimited y \<Longrightarrow> m = n \<and> x = y"
  by (metis append_same_eq same_append_eq show_nat_inj takeWhile_digits)

lemma show_nat_head: "\<exists>c cs. show_nat n = c # cs \<and> is_digit c"
  using show_nat_digits [of _ n] show_nat_nonempty [of n] by (cases "show_nat n") auto

lemma minus_not_digit: "\<not> is_digit (CHR ''-'')"
  by (simp add: is_digit_def)

lemma show_int_prefix:
  assumes "show_int m @ x = show_int n @ y" and "delimited x" and "delimited y"
  shows "m = n \<and> x = y"
proof -
  have no: "show_nat a @ u \<noteq> CHR ''-'' # v" for a u v
    using show_nat_head [of a] minus_not_digit by auto
  show ?thesis
  proof (cases "m < 0"; cases "n < 0")
    assume mn: "m < 0" "n < 0"
    with assms(1) have "show_nat (nat (- m)) @ x = show_nat (nat (- n)) @ y"
      by (simp add: show_int_def)
    from show_nat_prefix [OF this assms(2,3)] mn show ?thesis by (auto simp: eq_nat_nat_iff)
  next
    assume "m < 0" "\<not> n < 0"
    with assms(1) no [of "nat n" y] show ?thesis by (simp add: show_int_def) metis
  next
    assume "\<not> m < 0" "n < 0"
    with assms(1) no [of "nat m" x] show ?thesis by (simp add: show_int_def)
  next
    assume mn: "\<not> m < 0" "\<not> n < 0"
    with assms(1) have "show_nat (nat m) @ x = show_nat (nat n) @ y"
      by (simp add: show_int_def)
    from show_nat_prefix [OF this assms(2,3)] mn show ?thesis by (auto simp: eq_nat_nat_iff)
  qed
qed

text \<open>Lists of items separated by commas.\<close>

lemma comma_sep_Cons: "comma_sep (x # xs) = x @ (if xs = [] then [] else CHR '','' # comma_sep xs)"
  by (cases xs) simp_all

lemma comma_sep_prefix:
  assumes item: "\<And>a b u v. a \<in> set xs \<Longrightarrow> f a @ u = f b @ v \<Longrightarrow> delimited u \<Longrightarrow> delimited v \<Longrightarrow>
      a = b \<and> u = v"
    and start: "\<And>a u v. f a @ u \<noteq> z # v"
    and z: "z \<in> {CHR '']'', CHR ''}''}"
    and eq: "comma_sep (map f xs) @ z # x = comma_sep (map f ys) @ z # y"
  shows "xs = ys \<and> x = y"
  using item eq
proof (induction xs arbitrary: ys)
  case Nil
  show ?case
  proof (cases ys)
    case Nil
    with Nil.prems(2) show ?thesis by simp
  next
    case (Cons b zs)
    with Nil.prems(2) show ?thesis
      using start [of b "(if zs = [] then [] else CHR '','' # comma_sep (map f zs)) @ z # y" x]
      by (simp add: comma_sep_Cons)
  qed
next
  case (Cons a xs)
  show ?case
  proof (cases ys)
    case Nil
    with Cons.prems(2) start show ?thesis by (simp add: comma_sep_Cons)
  next
    case (Cons b zs)
    define u where "u = (if xs = [] then [] else CHR '','' # comma_sep (map f xs)) @ z # x"
    define v where "v = (if zs = [] then [] else CHR '','' # comma_sep (map f zs)) @ z # y"
    have "f a @ u = f b @ v"
      using Cons.prems(2) by (simp add: u_def v_def Cons comma_sep_Cons)
    moreover have "delimited u" "delimited v" using z by (simp_all add: u_def v_def)
    ultimately have ab: "a = b" and uv: "u = v" using Cons.prems(1) [of a u b v] by auto
    show ?thesis
    proof (cases "xs = [] \<or> zs = []")
      case True
      with uv z show ?thesis by (auto simp: u_def v_def ab Cons split: if_splits)
    next
      case False
      with uv have "comma_sep (map f xs) @ z # x = comma_sep (map f zs) @ z # y"
        by (simp add: u_def v_def)
      from Cons.IH [OF Cons.prems(1) this] show ?thesis by (simp add: ab Cons)
    qed
  qed
qed

fun kind_of :: "json \<Rightarrow> nat" where
  "kind_of JNull = 0"
| "kind_of (JBool b) = 1"
| "kind_of (JNum n) = 2"
| "kind_of (JStr s) = 3"
| "kind_of (JArr xs) = 4"
| "kind_of (JObj kvs) = 5"

definition head_kind :: "char \<Rightarrow> nat" where
  "head_kind c =
     (if c = CHR ''n'' then 0 else if c = CHR ''t'' \<or> c = CHR ''f'' then 1 else if c = CHR 34 then 3
      else if c = CHR ''['' then 4 else if c = CHR ''{'' then 5
      else if c = CHR ''-'' \<or> is_digit c then 2 else 6)"

lemma head_kind_digit: "is_digit c \<Longrightarrow> head_kind c = 2"
  by (auto simp: head_kind_def is_digit_def)

lemma stringify_head: "\<exists>c cs. stringify j = c # cs \<and> head_kind c = kind_of j"
proof (cases j)
  case (JNum n)
  then show ?thesis
    using show_nat_head [of "nat n"]
    by (auto simp: show_int_def head_kind_digit) (simp add: head_kind_def)
qed (auto simp: head_kind_def quote_def)

lemma stringify_kind: "stringify a @ x = stringify b @ y \<Longrightarrow> kind_of a = kind_of b"
  using stringify_head [of a] stringify_head [of b] by auto

lemma stringify_start: "z \<in> {CHR '']'', CHR ''}''} \<Longrightarrow> stringify a @ u \<noteq> z # v"
proof
  assume z: "z \<in> {CHR '']'', CHR ''}''}" and e: "stringify a @ u = z # v"
  obtain c cs where "stringify a = c # cs" "head_kind c = kind_of a"
    using stringify_head by blast
  with e have "head_kind z = kind_of a" by simp
  moreover have "head_kind (CHR '']'') = 6" "head_kind (CHR ''}'') = 6" by code_simp+
  then have "head_kind z = 6" using z by auto
  moreover have "kind_of a < 6" by (cases a) simp_all
  ultimately show False by simp
qed

lemma stringify_prefix:
  "stringify a @ x = stringify b @ y \<Longrightarrow> delimited x \<Longrightarrow> delimited y \<Longrightarrow> a = b \<and> x = y"
proof (induction a arbitrary: b x y)
  case JNull
  then show ?case using stringify_kind [OF JNull(1)] by (cases b) simp_all
next
  case (JBool q)
  then show ?case using stringify_kind [OF JBool(1)] by (cases b) (auto split: if_splits)
next
  case (JNum n)
  then obtain m where b: "b = JNum m" using stringify_kind [OF JNum(1)] by (cases b) auto
  with JNum show ?case using show_int_prefix [of n x m y] by simp
next
  case (JStr s)
  then obtain t where b: "b = JStr t" using stringify_kind [OF JStr(1)] by (cases b) auto
  with JStr show ?case using quote_prefix [of s x t y] by simp
next
  case (JArr xs)
  then obtain ys where b: "b = JArr ys" using stringify_kind [OF JArr(2)] by (cases b) auto
  have "comma_sep (map stringify xs) @ CHR '']'' # x = comma_sep (map stringify ys) @ CHR '']'' # y"
    using JArr.prems(1) by (simp add: b)
  then have "xs = ys \<and> x = y"
    using JArr.IH by (intro comma_sep_prefix [of xs stringify]) (auto simp: stringify_start)
  then show ?case by (simp add: b)
next
  case (JObj kvs)
  then obtain ws where b: "b = JObj ws" using stringify_kind [OF JObj(2)] by (cases b) auto
  let ?f = "\<lambda>kv. quote (fst kv) @ CHR '':'' # stringify (snd kv)"
  have "comma_sep (map ?f kvs) @ CHR ''}'' # x = comma_sep (map ?f ws) @ CHR ''}'' # y"
    using JObj.prems(1) by (simp add: b)
  then have "kvs = ws \<and> x = y"
  proof (rule comma_sep_prefix [rotated -1])
    fix a c u v
    assume a: "a \<in> set kvs" and e: "?f a @ u = ?f c @ v" and d: "delimited u" "delimited v"
    from e have "quote (fst a) @ CHR '':'' # stringify (snd a) @ u =
        quote (fst c) @ CHR '':'' # stringify (snd c) @ v" by simp
    from quote_prefix [OF this]
    have k: "fst a = fst c" and s: "stringify (snd a) @ u = stringify (snd c) @ v" by auto
    from JObj.IH [OF a _ s d] k show "a = c \<and> u = v"
      by (cases a; cases c) auto
  qed (auto simp: quote_def)
  then show ?case by (simp add: b)
qed

lemma stringify_inj: "stringify a = stringify b \<longleftrightarrow> a = b"
  using stringify_prefix [of a "[]" b "[]"] by auto

end
