(* ===== verification/Domain.thy ===== *)
theory Domain
  imports Json
begin

text \<open>
  The domain layer, \<open>src/src/domain/\<close>: job states and the table of legal transitions
  (\<open>jobs.ts\<close>), destinations (\<open>groups.ts\<close>), group sets and the normalisation of their names
  (\<open>group-sets.ts\<close>), batches (\<open>batches.ts\<close>) and the errors (\<open>errors.ts\<close>).
\<close>

section \<open>Job states\<close>

datatype job_status =
    PENDING
  | SCHEDULED
  | PROCESSING
  | WAITING_RATE_LIMIT
  | RETRY
  | SENT
  | FAILED
  | CANCELLED
  | REVIEW_REQUIRED
  | DRY_RUN

fun show_status :: "job_status \<Rightarrow> string" where
  "show_status PENDING = ''PENDING''"
| "show_status SCHEDULED = ''SCHEDULED''"
| "show_status PROCESSING = ''PROCESSING''"
| "show_status WAITING_RATE_LIMIT = ''WAITING_RATE_LIMIT''"
| "show_status RETRY = ''RETRY''"
| "show_status SENT = ''SENT''"
| "show_status FAILED = ''FAILED''"
| "show_status CANCELLED = ''CANCELLED''"
| "show_status REVIEW_REQUIRED = ''REVIEW_REQUIRED''"
| "show_status DRY_RUN = ''DRY_RUN''"

lemma show_status_inj: "show_status a = show_status b \<longleftrightarrow> a = b"
  by (cases a; cases b) simp_all

text \<open>
  Statuses are compared as SQLite compares the column's text, so a \<open>GROUP BY status\<close>
  enumerates them in this order.
\<close>

instantiation job_status :: linorder
begin

definition less_eq_job_status :: "job_status \<Rightarrow> job_status \<Rightarrow> bool" where
  "less_eq_job_status a b \<longleftrightarrow> show_status a \<le> show_status b"

definition less_job_status :: "job_status \<Rightarrow> job_status \<Rightarrow> bool" where
  "less_job_status a b \<longleftrightarrow> show_status a < show_status b"

instance
  by standard (auto simp: less_eq_job_status_def less_job_status_def show_status_inj less_le_not_le)

end

definition all_statuses :: "job_status list" where
  "all_statuses = [PENDING, SCHEDULED, PROCESSING, WAITING_RATE_LIMIT, RETRY, SENT, FAILED,
     CANCELLED, REVIEW_REQUIRED, DRY_RUN]"

datatype payload_type = PT_text | PT_image | PT_video | PT_document | PT_audio

fun show_payload :: "payload_type \<Rightarrow> string" where
  "show_payload PT_text = ''text''"
| "show_payload PT_image = ''image''"
| "show_payload PT_video = ''video''"
| "show_payload PT_document = ''document''"
| "show_payload PT_audio = ''audio''"

fun transitions :: "job_status \<Rightarrow> job_status list" where
  "transitions PENDING = [PROCESSING, CANCELLED]"
| "transitions SCHEDULED = [PENDING, CANCELLED]"
| "transitions PROCESSING = [SENT, DRY_RUN, RETRY, WAITING_RATE_LIMIT, FAILED, REVIEW_REQUIRED]"
| "transitions WAITING_RATE_LIMIT = [PROCESSING, CANCELLED]"
| "transitions RETRY = [PROCESSING, CANCELLED]"
| "transitions FAILED = [RETRY, CANCELLED]"
| "transitions REVIEW_REQUIRED = [RETRY, SENT, FAILED, CANCELLED]"
| "transitions SENT = []"
| "transitions CANCELLED = []"
| "transitions DRY_RUN = []"

definition can_transition :: "job_status \<Rightarrow> job_status \<Rightarrow> bool" where
  "can_transition current target \<longleftrightarrow> target \<in> set (transitions current)"

definition unsent_statuses :: "job_status list" where
  "unsent_statuses = [PENDING, SCHEDULED, RETRY, WAITING_RATE_LIMIT]"

definition is_unsent :: "job_status \<Rightarrow> bool" where
  "is_unsent st \<longleftrightarrow> st \<in> set unsent_statuses"

section \<open>Errors\<close>

datatype delivery_error_class =
    TEMPORARY_NETWORK
  | CONNECTION_CLOSED
  | RATE_LIMITED
  | AUTH_REQUIRED
  | LOGGED_OUT
  | PERMISSION_ERROR
  | DESTINATION_ERROR
  | INVALID_PAYLOAD
  | MEDIA_ERROR
  | SESSION_ERROR
  | UNKNOWN_TRANSIENT
  | UNKNOWN_PERMANENT

fun show_error_class :: "delivery_error_class \<Rightarrow> string" where
  "show_error_class TEMPORARY_NETWORK = ''TEMPORARY_NETWORK''"
| "show_error_class CONNECTION_CLOSED = ''CONNECTION_CLOSED''"
| "show_error_class RATE_LIMITED = ''RATE_LIMITED''"
| "show_error_class AUTH_REQUIRED = ''AUTH_REQUIRED''"
| "show_error_class LOGGED_OUT = ''LOGGED_OUT''"
| "show_error_class PERMISSION_ERROR = ''PERMISSION_ERROR''"
| "show_error_class DESTINATION_ERROR = ''DESTINATION_ERROR''"
| "show_error_class INVALID_PAYLOAD = ''INVALID_PAYLOAD''"
| "show_error_class MEDIA_ERROR = ''MEDIA_ERROR''"
| "show_error_class SESSION_ERROR = ''SESSION_ERROR''"
| "show_error_class UNKNOWN_TRANSIENT = ''UNKNOWN_TRANSIENT''"
| "show_error_class UNKNOWN_PERMANENT = ''UNKNOWN_PERMANENT''"

lemma show_error_class_inj: "show_error_class a = show_error_class b \<longleftrightarrow> a = b"
  by (cases a; cases b) simp_all

record delivery_error =
  errorClass :: delivery_error_class
  safeMessage :: string
  retryAfterMs :: "int option"

text \<open>What SQLite reports when a statement violates a constraint of the schema.\<close>

datatype sqlite_error =
    UniqueConstraint string
  | CheckConstraint string
  | ForeignKeyConstraint

datatype error =
    NotFoundError string
  | DuplicateJobError string
  | ConfigurationError string
  | InvalidStateTransitionError job_status job_status
  | DeliveryError delivery_error
  | SqliteError sqlite_error
  | PlainError string

fun is_unique_violation :: "error \<Rightarrow> bool" where
  "is_unique_violation (SqliteError (UniqueConstraint c)) = True"
| "is_unique_violation e = False"

definition assertJobTransition :: "job_status \<Rightarrow> job_status \<Rightarrow> ('s, error, unit) io" where
  "assertJobTransition current target =
     (if can_transition current target then ret ()
      else throw (InvalidStateTransitionError current target))"

section \<open>Jobs\<close>

record queue_job =
  jId :: nat
  jUuid :: string
  jDestinationJid :: string
  jPayloadType :: payload_type
  jText :: "string option"
  jMediaPath :: "string option"
  jMediaHash :: "string option"
  jMediaMime :: "string option"
  jFilename :: "string option"
  jScheduledAt :: string
  jStatus :: job_status
  jAttemptCount :: nat
  jMaxAttempts :: nat
  jNextAttemptAt :: "string option"
  jLastErrorClass :: "string option"
  jLastErrorMessage :: "string option"
  jIdempotencyKey :: string
  jOptionsJson :: string
  jRequestedBy :: string
  jCreatedAt :: string
  jUpdatedAt :: string
  jStartedAt :: "string option"
  jSentAt :: "string option"
  jRemoteMessageId :: "string option"
  jBatchId :: "string option"
  jDryRun :: bool
  jForwardSourceKey :: "string option"

text \<open>The status of a new job is one of two: \<open>Extract<JobStatus, 'PENDING' | 'SCHEDULED'>\<close>.\<close>

datatype new_job_status = NEW_PENDING | NEW_SCHEDULED

fun new_status :: "new_job_status \<Rightarrow> job_status" where
  "new_status NEW_PENDING = PENDING"
| "new_status NEW_SCHEDULED = SCHEDULED"

record new_queue_job =
  nUuid :: string
  nDestinationJid :: string
  nPayloadType :: payload_type
  nText :: "string option"
  nMediaPath :: "string option"
  nMediaHash :: "string option"
  nMediaMime :: "string option"
  nFilename :: "string option"
  nScheduledAt :: string
  nStatus :: new_job_status
  nMaxAttempts :: nat
  nIdempotencyKey :: string
  nOptionsJson :: string
  nRequestedBy :: string
  nBatchId :: "string option"
  nDryRun :: bool
  nForwardSourceKey :: "string option"

text \<open>A job handed to a transport has to be claimed.\<close>

definition asSendableJob :: "queue_job \<Rightarrow> error + queue_job" where
  "asSendableJob job =
     (if jStatus job \<noteq> PROCESSING then Inl (InvalidStateTransitionError (jStatus job) PROCESSING)
      else Inr job)"

section \<open>Destinations, group sets, batches\<close>

record destination =
  dJid :: string
  dSubject :: string
  dDescription :: "string option"
  dOwnerJid :: "string option"
  dParticipantCount :: "int option"
  dAddressingMode :: "string option"
  dAlias :: "string option"
  dEnabled :: bool
  dCanSend :: bool
  dCreatedAt :: string
  dUpdatedAt :: string
  dLastRefreshedAt :: string

record discovered_destination =
  ddJid :: string
  ddSubject :: string
  ddDescription :: "string option"
  ddOwnerJid :: "string option"
  ddParticipantCount :: "int option"
  ddAddressingMode :: "string option"
  ddCanSend :: "bool option"

record group_set =
  gsId :: nat
  gsName :: string
  gsMemberCount :: nat
  gsCreatedAt :: string
  gsUpdatedAt :: string

record group_set_member =
  gmJid :: string
  gmCreatedAt :: string
  gmDestination :: "destination option"

record membership_change =
  mcChanged :: nat
  mcUnchanged :: nat

datatype batch_type = BT_sendall | BT_sendmulti | BT_sendset

fun show_batch_type :: "batch_type \<Rightarrow> string" where
  "show_batch_type BT_sendall = ''sendall''"
| "show_batch_type BT_sendmulti = ''sendmulti''"
| "show_batch_type BT_sendset = ''sendset''"

record message_batch =
  bId :: string
  bType :: batch_type
  bTargetCount :: nat
  bCreatedAt :: string

text \<open>The pattern \<open>^[a-z0-9][a-z0-9_-]{0,63}$\<close> and the normalisation that requires it.\<close>

definition set_name_head :: "char \<Rightarrow> bool" where
  "set_name_head c \<longleftrightarrow> is_lower_letter c \<or> is_digit c"

definition set_name_tail :: "char \<Rightarrow> bool" where
  "set_name_tail c \<longleftrightarrow> set_name_head c \<or> c = CHR ''_'' \<or> c = CHR ''-''"

fun is_group_set_name :: "string \<Rightarrow> bool" where
  "is_group_set_name [] = False"
| "is_group_set_name (c # cs) \<longleftrightarrow> set_name_head c \<and> length cs \<le> 63 \<and> list_all set_name_tail cs"

definition normalizeGroupSetName :: "string \<Rightarrow> error + string" where
  "normalizeGroupSetName v =
     (let normalized = js_lower (js_trim v)
      in if is_group_set_name normalized then Inr normalized
         else Inl (PlainError
           ''Group set name must be 1-64 characters using letters, numbers, _ or -''))"

section \<open>The transition table\<close>

text \<open>Moves of a job over any number of legal transitions.\<close>

definition job_path :: "job_status \<Rightarrow> job_status \<Rightarrow> bool" where
  "job_path = can_transition\<^sup>*\<^sup>*"

lemma job_path_refl [simp, intro]: "job_path a a"
  by (simp add: job_path_def)

lemma job_path_step [intro]: "can_transition a b \<Longrightarrow> job_path a b"
  by (simp add: job_path_def)

lemma job_path_trans [trans]: "job_path a b \<Longrightarrow> job_path b c \<Longrightarrow> job_path a c"
  by (simp add: job_path_def)

lemma can_transition_final:
  "\<not> can_transition SENT b" "\<not> can_transition CANCELLED b" "\<not> can_transition DRY_RUN b"
  by (simp_all add: can_transition_def)

lemma job_path_final:
  assumes "job_path a b" and "a \<in> {SENT, CANCELLED, DRY_RUN}"
  shows "b = a"
  using assms(1) unfolding job_path_def
  by (cases rule: converse_rtranclpE) (use assms(2) can_transition_final in auto)

text \<open>No path enters \<open>SCHEDULED\<close>, and none leads back to \<open>PENDING\<close> but from \<open>SCHEDULED\<close>.\<close>

lemma job_path_from_started:
  assumes "job_path a b" and "a \<notin> {PENDING, SCHEDULED}"
  shows "b \<notin> {PENDING, SCHEDULED}"
  using assms unfolding job_path_def
proof (induction rule: rtranclp_induct)
  case (step b c)
  then show ?case by (cases b) (auto simp: can_transition_def)
qed

lemma unsent_can_cancel: "is_unsent st \<Longrightarrow> can_transition st CANCELLED"
  by (auto simp: is_unsent_def unsent_statuses_def can_transition_def)

end
