(* ===== verification/Migrations.thy ===== *)
theory Migrations
  imports Domain
begin

text \<open>
  Opening the schema, \<open>Database.migrate\<close> of \<open>src/src/db/database.ts\<close>.  What executing the SQL of a
  migration does to the data, and the digest of its text, are arguments; the bookkeeping table
  and the decisions are here.
\<close>

record migration =
  mgVersion :: nat
  mgName :: string
  mgSql :: string

record applied_migration =
  amVersion :: nat
  amName :: string
  amChecksum :: string
  amAppliedAt :: string

record 'd schema =
  scRows :: "applied_migration list"
  scData :: 'd

type_synonym ('d, 'a) schema_io = "('d schema, error, 'a) io"

text \<open>\<open>new Map(rows)\<close>: by version.\<close>

definition applied_row :: "applied_migration list \<Rightarrow> nat \<Rightarrow> applied_migration option" where
  "applied_row rows v = find_first (\<lambda>r. amVersion r = v) rows"

definition run_sql :: "(string \<Rightarrow> 'd \<Rightarrow> error + 'd) \<Rightarrow> string \<Rightarrow> ('d, unit) schema_io" where
  "run_sql exec sql =
     (\<lambda>s. case exec sql (scData s) of Inl e \<Rightarrow> (Inl e, s) | Inr d \<Rightarrow> (Inr (), s\<lparr>scData := d\<rparr>))"

definition record_migration :: "applied_migration \<Rightarrow> ('d, unit) schema_io" where
  "record_migration row =
     (\<lambda>s. if amVersion row \<in> set (map amVersion (scRows s)) then
            (Inl (SqliteError (UniqueConstraint ''schema_migrations.version'')), s)
          else if amName row \<in> set (map amName (scRows s)) then
            (Inl (SqliteError (UniqueConstraint ''schema_migrations.name'')), s)
          else (Inr (), s\<lparr>scRows := scRows s @ [row]\<rparr>))"

definition row_of :: "(string \<Rightarrow> string) \<Rightarrow> string \<Rightarrow> migration \<Rightarrow> applied_migration" where
  "row_of sha now m =
     \<lparr>amVersion = mgVersion m, amName = mgName m, amChecksum = sha (mgSql m), amAppliedAt = now\<rparr>"

definition migration_changed :: "(string \<Rightarrow> string) \<Rightarrow> migration \<Rightarrow> applied_migration \<Rightarrow> bool" where
  "migration_changed sha m row \<longleftrightarrow> amName row \<noteq> mgName m \<or> amChecksum row \<noteq> sha (mgSql m)"

definition apply_migration ::
    "(string \<Rightarrow> 'd \<Rightarrow> error + 'd) \<Rightarrow> (string \<Rightarrow> string) \<Rightarrow> string \<Rightarrow> applied_migration list \<Rightarrow> migration \<Rightarrow>
     ('d, unit) schema_io" where
  "apply_migration exec sha now applied m =
     (case applied_row applied (mgVersion m) of
        Some row \<Rightarrow>
          if migration_changed sha m row
          then throw (PlainError (''Migration '' @ show_nat (mgVersion m) @
                 '' was changed after it was applied''))
          else ret ()
      | None \<Rightarrow>
          atomically (bindE (run_sql exec (mgSql m)) (\<lambda>_. record_migration (row_of sha now m))))"

definition migrate ::
    "(string \<Rightarrow> 'd \<Rightarrow> error + 'd) \<Rightarrow> (string \<Rightarrow> string) \<Rightarrow> string \<Rightarrow> migration list \<Rightarrow>
     ('d, unit) schema_io" where
  "migrate exec sha now migrations =
     bindE (readE scRows) (\<lambda>applied.
     bindE (forE migrations (apply_migration exec sha now applied)) (\<lambda>_. ret ()))"

definition schema_version :: "'d schema \<Rightarrow> nat" where
  "schema_version s = foldr max (map amVersion (scRows s)) 0"

section \<open>A migration runs once\<close>

definition up_to_date :: "(string \<Rightarrow> string) \<Rightarrow> migration list \<Rightarrow> applied_migration list \<Rightarrow> bool" where
  "up_to_date sha migrations rows \<longleftrightarrow>
     (\<forall>m \<in> set migrations. \<exists>row. applied_row rows (mgVersion m) = Some row \<and>
        \<not> migration_changed sha m row)"

lemma forE_up_to_date:
  "up_to_date sha ms rows \<Longrightarrow>
   \<exists>us. forE ms (apply_migration exec sha now rows) s = (Inr us, s)"
proof (induction ms)
  case (Cons m ms)
  then have "apply_migration exec sha now rows m s = (Inr (), s)"
    by (auto simp: up_to_date_def apply_migration_def)
  moreover have "up_to_date sha ms rows" using Cons.prems by (simp add: up_to_date_def)
  ultimately show ?case using Cons.IH by (auto simp: run_bind)
qed simp

lemma migrate_up_to_date:
  "up_to_date sha ms (scRows s) \<Longrightarrow> migrate exec sha now ms s = (Inr (), s)"
  using forE_up_to_date [of sha ms "scRows s" exec now s]
  by (auto simp: migrate_def run_bind)

lemma applied_row_append:
  "applied_row (xs @ ys) v = (case applied_row xs v of None \<Rightarrow> applied_row ys v | Some r \<Rightarrow> Some r)"
  unfolding applied_row_def by (rule find_first_append)

text \<open>What the loop leaves behind: the old rows, then one for each migration that was missing.\<close>

definition missing :: "applied_migration list \<Rightarrow> migration list \<Rightarrow> migration list" where
  "missing rows ms = filter (\<lambda>m. applied_row rows (mgVersion m) = None) ms"

lemma apply_new:
  assumes "apply_migration exec sha now applied m s = (Inr (), t)"
    and "applied_row applied (mgVersion m) = None"
  shows "scRows t = scRows s @ [row_of sha now m]"
proof -
  have a: "atomically (bindE (run_sql exec (mgSql m)) (\<lambda>_. record_migration (row_of sha now m))) s = (Inr (), t)"
    using assms by (simp add: apply_migration_def)
  show ?thesis
  proof (cases "exec (mgSql m) (scData s)")
    case (Inl e)
    with a show ?thesis by (simp add: run_atomically run_bind run_sql_def)
  next
    case (Inr d)
    with a have "(case record_migration (row_of sha now m) (s\<lparr>scData := d\<rparr>) of
        (Inl e, _) \<Rightarrow> (Inl e, s) | (Inr x, u) \<Rightarrow> (Inr x, u)) = (Inr (), t)"
      by (simp add: run_atomically run_bind run_sql_def)
    then show ?thesis by (auto simp: record_migration_def split: if_splits)
  qed
qed

lemma apply_old:
  assumes "apply_migration exec sha now applied m s = (Inr (), t)"
    and "applied_row applied (mgVersion m) = Some row"
  shows "t = s \<and> \<not> migration_changed sha m row"
  using assms by (auto simp: apply_migration_def split: if_splits)

lemma apply_error:
  assumes "apply_migration exec sha now applied m s = (Inl e, t)"
  shows "t = s"
  using assms
  by (auto simp: apply_migration_def run_atomically split: option.splits if_splits prod.splits sum.splits)

lemma forE_migrate:
  assumes "forE ms (apply_migration exec sha now applied) s = (Inr us, t)"
  shows "scRows t = scRows s @ map (row_of sha now) (missing applied ms) \<and>
    (\<forall>m \<in> set ms. \<forall>row. applied_row applied (mgVersion m) = Some row \<longrightarrow> \<not> migration_changed sha m row)"
  using assms
proof (induction ms arbitrary: s us)
  case Nil
  then show ?case by (simp add: missing_def)
next
  case (Cons m ms)
  obtain s1 us1 where a: "apply_migration exec sha now applied m s = (Inr (), s1)"
    and f: "forE ms (apply_migration exec sha now applied) s1 = (Inr us1, t)"
    using Cons.prems by (auto simp: run_bind split: prod.splits sum.splits)
  show ?case
  proof (cases "applied_row applied (mgVersion m)")
    case None
    from apply_new [OF a None] Cons.IH [OF f] None show ?thesis by (simp add: missing_def)
  next
    case (Some row)
    from apply_old [OF a Some] Cons.IH [OF f] Some show ?thesis by (simp add: missing_def)
  qed
qed

lemma forE_migrate_error:
  assumes "forE ms (apply_migration exec sha now applied) s = (Inl e, t)"
  shows "\<exists>done m rest. ms = done @ m # rest \<and>
    (\<exists>us. forE done (apply_migration exec sha now applied) s = (Inr us, t)) \<and>
    apply_migration exec sha now applied m t = (Inl e, t)"
  using assms
proof (induction ms arbitrary: s)
  case (Cons m ms)
  show ?case
  proof (cases "apply_migration exec sha now applied m s")
    case (Pair r s1)
    show ?thesis
    proof (cases r)
      case (Inl e')
      with Cons.prems Pair have "e' = e" "s1 = t" by (auto simp: run_bind)
      with Pair Inl apply_error [of exec sha now applied m s e] show ?thesis
        by (intro exI [of _ "[]"] exI [of _ m] exI [of _ ms]) auto
    next
      case (Inr u)
      with Cons.prems Pair have "forE ms (apply_migration exec sha now applied) s1 = (Inl e, t)"
        by (auto simp: run_bind split: prod.splits sum.splits)
      from Cons.IH [OF this] obtain d m' rest us where
        "ms = d @ m' # rest" "forE d (apply_migration exec sha now applied) s1 = (Inr us, t)"
        "apply_migration exec sha now applied m' t = (Inl e, t)" by blast
      with Pair Inr show ?thesis
        by (intro exI [of _ "m # d"] exI [of _ m'] exI [of _ rest]) (auto simp: run_bind)
    qed
  qed
qed simp

lemma find_missing:
  assumes "distinct (map mgVersion ms)" and "m \<in> set ms"
    and "applied_row applied (mgVersion m) = None"
  shows "applied_row (map (row_of sha now) (missing applied ms)) (mgVersion m) = Some (row_of sha now m)"
  unfolding applied_row_def
proof (rule find_first_unique)
  show "row_of sha now m \<in> set (map (row_of sha now) (missing applied ms))"
    using assms by (simp add: missing_def)
  fix r
  assume "r \<in> set (map (row_of sha now) (missing applied ms))" and "amVersion r = mgVersion m"
  then obtain m' where "m' \<in> set ms" "r = row_of sha now m'" "mgVersion m' = mgVersion m"
    by (auto simp: missing_def row_of_def)
  with distinct_map_eq [OF assms(1), of m' m] assms(2) show "r = row_of sha now m" by simp
qed (simp add: row_of_def)

text \<open>
  Every migration runs exactly once.  A start that succeeds has executed the missing ones, in
  their order, and recorded each; the next start finds nothing to do and changes nothing.  A start
  that fails stops at the first migration that fails, leaves everything before it in place and
  nothing of it behind; a migration whose text was changed after it ran is such a failure.
\<close>

theorem migrate_once:
  assumes "distinct (map mgVersion ms)" and "migrate exec sha now ms s = (res, t)"
  shows "case res of
      Inr u \<Rightarrow> scRows t = scRows s @ map (row_of sha now) (missing (scRows s) ms) \<and>
        (\<forall>later. migrate exec sha later ms t = (Inr (), t))
    | Inl e \<Rightarrow> \<exists>done m rest. ms = done @ m # rest \<and>
        scRows t = scRows s @ map (row_of sha now) (missing (scRows s) done) \<and>
        apply_migration exec sha now (scRows s) m t = (Inl e, t)"
proof (cases res)
  case (Inl e)
  with assms(2) have "forE ms (apply_migration exec sha now (scRows s)) s = (Inl e, t)"
    by (auto simp: migrate_def run_bind split: prod.splits sum.splits)
  from forE_migrate_error [OF this] Inl forE_migrate [of _ exec sha now "scRows s" s _ t]
  show ?thesis by fastforce
next
  case (Inr u)
  with assms(2) obtain us where f: "forE ms (apply_migration exec sha now (scRows s)) s = (Inr us, t)"
    by (auto simp: migrate_def run_bind split: prod.splits sum.splits)
  note e = forE_migrate [OF f]
  have "up_to_date sha ms (scRows t)"
    unfolding up_to_date_def
  proof
    fix m
    assume m: "m \<in> set ms"
    show "\<exists>row. applied_row (scRows t) (mgVersion m) = Some row \<and> \<not> migration_changed sha m row"
    proof (cases "applied_row (scRows s) (mgVersion m)")
      case None
      with find_missing [OF assms(1) m None, of sha now] e show ?thesis
        by (simp add: applied_row_append migration_changed_def row_of_def)
    next
      case (Some row)
      with e m show ?thesis by (simp add: applied_row_append)
    qed
  qed
  with e Inr show ?thesis by (simp add: migrate_up_to_date)
qed

definition sample_migrations :: "migration list" where
  "sample_migrations = [\<lparr>mgVersion = 1, mgName = ''initial_schema'', mgSql = ''a''\<rparr>,
     \<lparr>mgVersion = 2, mgName = ''indexes'', mgSql = ''b''\<rparr>]"

definition sample_exec :: "string \<Rightarrow> string \<Rightarrow> error + string" where
  "sample_exec sql d = Inr (d @ sql)"

definition sample_schema :: "string schema" where
  "sample_schema = \<lparr>scRows = [\<lparr>amVersion = 1, amName = ''initial_schema'', amChecksum = ''#a'',
     amAppliedAt = ''t0''\<rparr>], scData = ''a''\<rparr>"

theorem migrate_once_witness:
  "\<exists>t. migrate sample_exec (\<lambda>x. CHR ''#'' # x) ''t1'' sample_migrations sample_schema = (Inr (), t) \<and>
     scData t = ''ab'' \<and>
     migrate sample_exec (\<lambda>x. CHR ''#'' # x) ''t2'' sample_migrations t = (Inr (), t)"
proof -
  let ?m = "migrate sample_exec (\<lambda>x. CHR ''#'' # x) ''t1'' sample_migrations sample_schema"
  have f: "fst ?m = Inr ()" and d: "scData (snd ?m) = ''ab''"
    and dist: "distinct (map mgVersion sample_migrations)" by code_simp+
  from f have m: "?m = (Inr (), snd ?m)" by (metis prod.collapse)
  from migrate_once [OF dist m] m d show ?thesis by auto
qed

end
