(* ===== verification/Database.thy ===== *)
theory Database
  imports Domain
begin

text \<open>
  The SQLite database: one record with a component per table of
  \<open>src/src/db/migrations/index.ts\<close>, rows as the schema has them, and the constraints the schema
  declares (unique keys, the partial unique index on active idempotency keys, foreign keys,
  checks).  A table whose row order matters is a list in rowid order; a table the program only
  addresses by key is a map.  Times are the ISO text the program stores, compared by SQLite as
  text.  \<open>immediateTransaction\<close> (\<open>src/src/db/database.ts\<close>) rolls back on an exception, and
  \<open>insertAudit\<close> is \<open>src/src/db/repositories/helpers.ts\<close>.

  \<open>db_ok\<close> collects what the constraints guarantee.
\<close>

section \<open>Tables\<close>

record app_state_row =
  stValue :: "string option"
  stUpdatedAt :: string

record media_asset =
  maHash :: string
  maPath :: string
  maByteSize :: int
  maMimeType :: "string option"
  maCreatedAt :: string

record audit_row =
  aId :: nat
  aEventType :: string
  aActor :: string
  aEntityType :: "string option"
  aEntityId :: "string option"
  aDetailsJson :: "string option"
  aCreatedAt :: string

record auth_value_row =
  avValueJson :: string
  avUpdatedAt :: string

record controller_message_row =
  cmReceivedAt :: string
  cmCommandHash :: string

record group_set_row =
  grId :: nat
  grName :: string
  grCreatedAt :: string
  grUpdatedAt :: string

record group_set_member_row =
  mrSetId :: nat
  mrJid :: string
  mrCreatedAt :: string

record forward_source =
  fsSourceKey :: string
  fsPayload :: string
  fsContentType :: string
  fsReceivedAt :: string
  fsExpiresAt :: "string option"

record database =
  dbAppState :: "string \<rightharpoonup> app_state_row"
  dbDestinations :: "destination list"
  dbMedia :: "media_asset list"
  dbJobs :: "queue_job list"
  dbJobSeq :: nat
  dbAudit :: "audit_row list"
  dbAuditSeq :: nat
  dbAuthCreds :: "auth_value_row option"
  dbAuthKeys :: "string \<times> string \<rightharpoonup> auth_value_row"
  dbControllerMessages :: "string \<rightharpoonup> controller_message_row"
  dbGroupSets :: "group_set_row list"
  dbGroupSetSeq :: nat
  dbGroupSetMembers :: "group_set_member_row list"
  dbBatches :: "message_batch list"
  dbForwardSources :: "forward_source list"

definition empty_db :: database where
  "empty_db = \<lparr>dbAppState = Map.empty, dbDestinations = [], dbMedia = [], dbJobs = [],
     dbJobSeq = 0, dbAudit = [], dbAuditSeq = 0, dbAuthCreds = None, dbAuthKeys = Map.empty,
     dbControllerMessages = Map.empty, dbGroupSets = [], dbGroupSetSeq = 0,
     dbGroupSetMembers = [], dbBatches = [], dbForwardSources = []\<rparr>"

type_synonym 'a db_io = "(database, error, 'a) io"

section \<open>Transactions and the audit log\<close>

definition immediateTransaction :: "'a db_io \<Rightarrow> 'a db_io" where
  "immediateTransaction operation = atomically operation"

record audit_options =
  aoActor :: "string option"
  aoEntityType :: "string option"
  aoEntityId :: "string option"
  aoDetails :: "json option"

text \<open>
  The row of \<open>insertAudit\<close>; \<open>now\<close> is \<open>options.now\<close>, or the clock where it is absent.
\<close>

definition or_else :: "'a option \<Rightarrow> 'a \<Rightarrow> 'a" where
  "or_else x d = (case x of None \<Rightarrow> d | Some y \<Rightarrow> y)"

definition coalesce :: "'a option \<Rightarrow> 'a option \<Rightarrow> 'a option" where
  "coalesce x y = (case x of None \<Rightarrow> y | Some v \<Rightarrow> Some v)"

definition insertAudit :: "string \<Rightarrow> audit_options \<Rightarrow> string \<Rightarrow> unit db_io" where
  "insertAudit eventType options now =
     writeE (\<lambda>s. s\<lparr>dbAudit := dbAudit s @
         [\<lparr>aId = Suc (dbAuditSeq s), aEventType = eventType,
           aActor = or_else (aoActor options) ''system'',
           aEntityType = aoEntityType options, aEntityId = aoEntityId options,
           aDetailsJson = map_option stringify (aoDetails options), aCreatedAt = now\<rparr>],
       dbAuditSeq := Suc (dbAuditSeq s)\<rparr>)"

section \<open>Constraints of the schema\<close>

text \<open>The statuses of the partial unique index \<open>uq_jobs_active_idempotency\<close>.\<close>

definition is_active :: "job_status \<Rightarrow> bool" where
  "is_active st \<longleftrightarrow> st \<in> {PENDING, SCHEDULED, PROCESSING, WAITING_RATE_LIMIT, RETRY, SENT, DRY_RUN}"

definition active_keys :: "queue_job list \<Rightarrow> string list" where
  "active_keys js = map jIdempotencyKey (filter (\<lambda>j. is_active (jStatus j)) js)"

definition references_ok :: "database \<Rightarrow> queue_job \<Rightarrow> bool" where
  "references_ok s j \<longleftrightarrow>
     jDestinationJid j \<in> set (map dJid (dbDestinations s)) \<and>
     set_option (jMediaHash j) \<subseteq> set (map maHash (dbMedia s)) \<and>
     set_option (jBatchId j) \<subseteq> set (map bId (dbBatches s))"

text \<open>
  An \<open>INSERT\<close> into \<open>message_jobs\<close>: the checks, the two unique indexes, the foreign keys.  The
  statement's own columns are in the row; the rest have the schema's defaults.
\<close>

definition insert_job :: "queue_job \<Rightarrow> unit db_io" where
  "insert_job row =
     (\<lambda>s. let r = row\<lparr>jId := Suc (dbJobSeq s)\<rparr> in
        if jMaxAttempts r = 0 then (Inl (SqliteError (CheckConstraint ''max_attempts > 0'')), s)
        else if jUuid r \<in> set (map jUuid (dbJobs s))
        then (Inl (SqliteError (UniqueConstraint ''message_jobs.uuid'')), s)
        else if is_active (jStatus r) \<and> jIdempotencyKey r \<in> set (active_keys (dbJobs s))
        then (Inl (SqliteError (UniqueConstraint ''message_jobs.idempotency_key'')), s)
        else if \<not> references_ok s r then (Inl (SqliteError ForeignKeyConstraint), s)
        else (Inr (), s\<lparr>dbJobs := dbJobs s @ [r], dbJobSeq := Suc (dbJobSeq s)\<rparr>))"

text \<open>
  An \<open>UPDATE\<close> of \<open>message_jobs\<close>: it fails when two active rows would share a key; its value
  is the number of changed rows.
\<close>

definition update_jobs :: "(queue_job \<Rightarrow> bool) \<Rightarrow> (queue_job \<Rightarrow> queue_job) \<Rightarrow> nat db_io" where
  "update_jobs P f =
     (\<lambda>s. let js = update_where P f (dbJobs s) in
        if distinct (active_keys js)
        then (Inr (length (filter P (dbJobs s))), s\<lparr>dbJobs := js\<rparr>)
        else (Inl (SqliteError (UniqueConstraint ''message_jobs.idempotency_key'')), s))"

section \<open>What the constraints guarantee\<close>

definition jobs_ok :: "database \<Rightarrow> bool" where
  "jobs_ok s \<longleftrightarrow>
     sorted_wrt (<) (map jId (dbJobs s)) \<and>
     (\<forall>j \<in> set (dbJobs s). jId j \<le> dbJobSeq s) \<and>
     distinct (map jUuid (dbJobs s)) \<and>
     distinct (active_keys (dbJobs s)) \<and>
     (\<forall>j \<in> set (dbJobs s). 0 < jMaxAttempts j \<and> references_ok s j)"

definition alias_keys :: "destination list \<Rightarrow> string list" where
  "alias_keys ds = map nocase (List.map_filter dAlias ds)"

lemma alias_keys_Nil [simp]: "alias_keys [] = []"
  by (simp add: alias_keys_def List.map_filter_def)

lemma alias_keys_Cons [simp]:
  "alias_keys (d # ds) =
    (case dAlias d of None \<Rightarrow> alias_keys ds | Some a \<Rightarrow> nocase a # alias_keys ds)"
  by (simp add: alias_keys_def List.map_filter_def split: option.split)

definition destinations_ok :: "database \<Rightarrow> bool" where
  "destinations_ok s \<longleftrightarrow>
     distinct (map dJid (dbDestinations s)) \<and> distinct (alias_keys (dbDestinations s))"

definition media_ok :: "database \<Rightarrow> bool" where
  "media_ok s \<longleftrightarrow> distinct (map maHash (dbMedia s)) \<and> distinct (map maPath (dbMedia s))"

definition group_sets_ok :: "database \<Rightarrow> bool" where
  "group_sets_ok s \<longleftrightarrow>
     sorted_wrt (<) (map grId (dbGroupSets s)) \<and>
     (\<forall>g \<in> set (dbGroupSets s). grId g \<le> dbGroupSetSeq s) \<and>
     distinct (map (nocase \<circ> grName) (dbGroupSets s)) \<and>
     distinct (map (\<lambda>m. (mrSetId m, mrJid m)) (dbGroupSetMembers s)) \<and>
     (\<forall>m \<in> set (dbGroupSetMembers s). mrSetId m \<in> set (map grId (dbGroupSets s)))"

definition others_ok :: "database \<Rightarrow> bool" where
  "others_ok s \<longleftrightarrow>
     distinct (map bId (dbBatches s)) \<and> distinct (map fsSourceKey (dbForwardSources s)) \<and>
     sorted_wrt (<) (map aId (dbAudit s)) \<and> (\<forall>a \<in> set (dbAudit s). aId a \<le> dbAuditSeq s)"

definition db_ok :: "database \<Rightarrow> bool" where
  "db_ok s \<longleftrightarrow> jobs_ok s \<and> destinations_ok s \<and> media_ok s \<and> group_sets_ok s \<and> others_ok s"

lemmas db_ok_defs = db_ok_def jobs_ok_def destinations_ok_def media_ok_def group_sets_ok_def
  others_ok_def

lemma db_ok_empty: "db_ok empty_db"
  by (simp add: db_ok_defs empty_db_def active_keys_def alias_keys_def List.map_filter_def)

section \<open>How the job table evolves\<close>

text \<open>
  The part of a job no operation rewrites, and the relation every operation keeps: no job is
  deleted, the ones there keep their identity and their place, and their statuses move along
  the transition table.
\<close>

definition job_identity :: "queue_job \<Rightarrow> (nat \<times> string \<times> string \<times> string) \<times>
    payload_type \<times> string option \<times> string option \<times> string \<times> nat \<times> bool \<times>
    string option \<times> string option" where
  "job_identity j = ((jId j, jUuid j, jDestinationJid j, jIdempotencyKey j), jPayloadType j,
     jText j, jMediaHash j, jScheduledAt j, jMaxAttempts j, jDryRun j, jBatchId j,
     jForwardSourceKey j)"

definition job_evolves :: "queue_job \<Rightarrow> queue_job \<Rightarrow> bool" where
  "job_evolves j j' \<longleftrightarrow> job_identity j' = job_identity j \<and> job_path (jStatus j) (jStatus j')"

definition jobs_evolve :: "database \<Rightarrow> database \<Rightarrow> bool" where
  "jobs_evolve s t \<longleftrightarrow>
     length (dbJobs s) \<le> length (dbJobs t) \<and>
     list_all2 job_evolves (dbJobs s) (take (length (dbJobs s)) (dbJobs t))"

lemma job_evolves_refl [simp, intro]: "job_evolves j j"
  by (simp add: job_evolves_def)

lemma job_evolves_trans: "job_evolves a b \<Longrightarrow> job_evolves b c \<Longrightarrow> job_evolves a c"
  by (auto simp: job_evolves_def intro: job_path_trans)

interpretation evolution: state_preorder jobs_evolve
proof
  show "jobs_evolve s s" for s
    by (simp add: jobs_evolve_def list.rel_refl)
next
  fix s t u
  assume st: "jobs_evolve s t" and tu: "jobs_evolve t u"
  have 1: "list_all2 job_evolves (dbJobs s) (take (length (dbJobs s)) (dbJobs t))"
    using st by (simp add: jobs_evolve_def)
  have "list_all2 job_evolves (take (length (dbJobs s)) (dbJobs t))
      (take (length (dbJobs s)) (take (length (dbJobs t)) (dbJobs u)))"
    using tu by (intro list_all2_takeI) (simp add: jobs_evolve_def)
  with st have 2: "list_all2 job_evolves (take (length (dbJobs s)) (dbJobs t))
      (take (length (dbJobs s)) (dbJobs u))"
    by (simp add: jobs_evolve_def min_def)
  have "list_all2 job_evolves (dbJobs s) (take (length (dbJobs s)) (dbJobs u))"
    by (rule list_all2_trans [OF job_evolves_trans 1 2])
  with st tu show "jobs_evolve s u"
    by (simp add: jobs_evolve_def)
qed

lemma jobs_evolve_same: "dbJobs t = dbJobs s \<Longrightarrow> jobs_evolve s t"
  by (simp add: jobs_evolve_def list.rel_refl)

lemma jobs_evolve_append: "dbJobs t = dbJobs s @ xs \<Longrightarrow> jobs_evolve s t"
  by (simp add: jobs_evolve_def list.rel_refl)

lemma jobs_evolve_update:
  "dbJobs t = update_where P f (dbJobs s) \<Longrightarrow>
   (\<And>j. j \<in> set (dbJobs s) \<Longrightarrow> P j \<Longrightarrow> job_evolves j (f j)) \<Longrightarrow> jobs_evolve s t"
  by (simp add: jobs_evolve_def) (rule list_all2_update_where, auto)

lemma jobs_evolve_uuid:
  assumes "jobs_evolve s t" and "j \<in> set (dbJobs s)"
  obtains j' where "j' \<in> set (dbJobs t)" and "job_evolves j j'"
proof -
  from assms obtain i where i: "i < length (dbJobs s)" "dbJobs s ! i = j"
    by (auto simp: in_set_conv_nth)
  from assms(1) i have "job_evolves j (take (length (dbJobs s)) (dbJobs t) ! i)"
    and "i < length (dbJobs t)"
    by (auto simp: jobs_evolve_def dest: list_all2_nthD)
  with i that show thesis by (metis nth_mem nth_take)
qed

text \<open>
  What every method keeps: the constraints, and with them the evolution of the jobs; and no
  entry leaves the log of processed commands.
\<close>

abbreviation commands_kept :: "database \<Rightarrow> database \<Rightarrow> bool" where
  "commands_kept s t \<equiv> dom (dbControllerMessages s) \<subseteq> dom (dbControllerMessages t)"

definition sound :: "database \<Rightarrow> database \<Rightarrow> bool" where
  "sound s t \<longleftrightarrow> (db_ok s \<longrightarrow> db_ok t \<and> jobs_evolve s t) \<and> commands_kept s t"

interpretation soundness: state_preorder sound
  by unfold_locales (auto simp: sound_def evolution.refl intro: evolution.trans)

lemma soundD: "sound s t \<Longrightarrow> db_ok s \<Longrightarrow> db_ok t" "sound s t \<Longrightarrow> db_ok s \<Longrightarrow> jobs_evolve s t"
  "sound s t \<Longrightarrow> commands_kept s t"
  by (simp_all add: sound_def)

section \<open>Lemmas on the statements\<close>

lemma update_jobs_after:
  "after (update_jobs P f) s =
     (if distinct (active_keys (update_where P f (dbJobs s)))
      then s\<lparr>dbJobs := update_where P f (dbJobs s)\<rparr> else s)"
  by (simp add: after_def update_jobs_def Let_def)

lemma update_jobs_Inr:
  "update_jobs P f s = (Inr n, t) \<longleftrightarrow>
     distinct (active_keys (update_where P f (dbJobs s))) \<and>
     n = length (filter P (dbJobs s)) \<and> t = s\<lparr>dbJobs := update_where P f (dbJobs s)\<rparr>"
  by (auto simp: update_jobs_def Let_def)

text \<open>An update that activates no job cannot violate the index.\<close>

lemma active_keys_update:
  assumes "\<And>j. j \<in> set js \<Longrightarrow> P j \<Longrightarrow> jIdempotencyKey (f j) = jIdempotencyKey j"
    and "\<And>j. j \<in> set js \<Longrightarrow> P j \<Longrightarrow> is_active (jStatus (f j)) \<Longrightarrow> is_active (jStatus j)"
    and "distinct (active_keys js)"
  shows "distinct (active_keys (update_where P f js)) \<and>
    set (active_keys (update_where P f js)) \<subseteq> set (active_keys js)"
  using assms
proof (induction js)
  case (Cons j js)
  then have "distinct (active_keys (update_where P f js)) \<and>
    set (active_keys (update_where P f js)) \<subseteq> set (active_keys js)"
    by (simp add: active_keys_def split: if_splits)
  with Cons.prems show ?case
    by (auto simp: active_keys_def split: if_splits)
qed (simp add: active_keys_def)

lemma update_jobs_passive:
  assumes "\<And>j. P j \<Longrightarrow> jIdempotencyKey (f j) = jIdempotencyKey j"
    and "\<And>j. P j \<Longrightarrow> is_active (jStatus (f j)) \<Longrightarrow> is_active (jStatus j)"
    and "distinct (active_keys (dbJobs s))"
  shows "update_jobs P f s =
    (Inr (length (filter P (dbJobs s))), s\<lparr>dbJobs := update_where P f (dbJobs s)\<rparr>)"
  using active_keys_update [of "dbJobs s" P f] assms by (simp add: update_jobs_def Let_def)

lemma jobs_ok_keys: "db_ok s \<Longrightarrow> distinct (active_keys (dbJobs s))"
  by (simp add: db_ok_defs)

lemma unsent_active: "is_unsent st \<Longrightarrow> is_active st"
  by (auto simp: is_unsent_def unsent_statuses_def is_active_def)

lemma ids_distinct: "db_ok s \<Longrightarrow> distinct (map jId (dbJobs s))"
  by (auto simp: db_ok_defs strict_sorted_iff)

lemma job_id_eq: "db_ok s \<Longrightarrow> i \<in> set (dbJobs s) \<Longrightarrow> j \<in> set (dbJobs s) \<Longrightarrow> jId i = jId j \<Longrightarrow> i = j"
  by (blast dest: ids_distinct intro: distinct_map_eq)

lemma job_uuid_eq:
  "db_ok s \<Longrightarrow> i \<in> set (dbJobs s) \<Longrightarrow> j \<in> set (dbJobs s) \<Longrightarrow> jUuid i = jUuid j \<Longrightarrow> i = j"
  by (rule distinct_map_eq [of jUuid "dbJobs s"]) (auto simp: db_ok_defs)

text \<open>Rewriting rows without touching their identity keeps the invariant.\<close>

lemma references_ok_cong:
  "dbDestinations t = dbDestinations s \<Longrightarrow> dbMedia t = dbMedia s \<Longrightarrow> dbBatches t = dbBatches s \<Longrightarrow>
   references_ok t j = references_ok s j"
  by (simp add: references_ok_def)

lemma references_ok_identity:
  "job_identity j' = job_identity j \<Longrightarrow> references_ok s j' = references_ok s j"
  by (simp add: references_ok_def job_identity_def)

lemma db_ok_update_jobs:
  assumes ok: "db_ok s"
    and ident: "\<And>j. j \<in> set (dbJobs s) \<Longrightarrow> P j \<Longrightarrow> job_identity (f j) = job_identity j"
    and keys: "distinct (active_keys (update_where P f (dbJobs s)))"
  shows "db_ok (s\<lparr>dbJobs := update_where P f (dbJobs s)\<rparr>)"
proof -
  let ?js = "update_where P f (dbJobs s)"
  let ?t = "s\<lparr>dbJobs := ?js\<rparr>"
  have "map jId ?js = map jId (dbJobs s)" and "map jUuid ?js = map jUuid (dbJobs s)"
    by (rule map_update_where; use ident in \<open>fastforce simp: job_identity_def\<close>)+
  moreover have "jId j \<le> dbJobSeq s \<and> 0 < jMaxAttempts j \<and> references_ok ?t j"
    if j: "j \<in> set ?js" for j
  proof -
    from j obtain i where i: "i \<in> set (dbJobs s)" and ij: "j = (if P i then f i else i)"
      by (auto simp: set_update_where)
    with ident have id: "job_identity j = job_identity i" by auto
    have "jId i \<le> dbJobSeq s \<and> 0 < jMaxAttempts i \<and> references_ok s i"
      using ok i by (simp add: db_ok_defs)
    with id references_ok_identity [OF id, of s] references_ok_cong [of ?t s j] show ?thesis
      by (auto simp: job_identity_def)
  qed
  ultimately show ?thesis
    using ok keys by (simp add: db_ok_defs)
qed

lemma sound_update_jobs:
  assumes "\<And>j. db_ok s \<Longrightarrow> j \<in> set (dbJobs s) \<Longrightarrow> P j \<Longrightarrow> job_evolves j (f j)"
  shows "sound s (after (update_jobs P f) s)"
proof (cases "db_ok s \<and> distinct (active_keys (update_where P f (dbJobs s)))")
  case True
  then have "db_ok (s\<lparr>dbJobs := update_where P f (dbJobs s)\<rparr>)"
    using assms by (intro db_ok_update_jobs) (auto simp: job_evolves_def)
  moreover have "jobs_evolve s (s\<lparr>dbJobs := update_where P f (dbJobs s)\<rparr>)"
    using True assms by (intro jobs_evolve_update [of _ P f]) auto
  ultimately show ?thesis using True by (simp add: sound_def update_jobs_after)
next
  case False
  then show ?thesis by (auto simp: sound_def update_jobs_after evolution.refl)
qed

lemma keeps_sound_update_jobs:
  "(\<And>j. P j \<Longrightarrow> job_evolves j (f j)) \<Longrightarrow> keeps sound (update_jobs P f)"
  by (auto simp: keeps_def intro: sound_update_jobs)

lemma keeps_sound_write:
  "(\<And>s. db_ok s \<Longrightarrow> db_ok (f s)) \<Longrightarrow> (\<And>s. dbJobs (f s) = dbJobs s) \<Longrightarrow>
   (\<And>s. commands_kept s (f s)) \<Longrightarrow> keeps sound (writeE f)"
  by (simp add: keeps_def after_def sound_def jobs_evolve_same)

lemma db_ok_audit:
  "db_ok s \<Longrightarrow> sorted_wrt (<) (map aId au) \<Longrightarrow> (\<forall>a \<in> set au. aId a \<le> q) \<Longrightarrow>
   db_ok (s\<lparr>dbAudit := au, dbAuditSeq := q\<rparr>)"
  by (simp add: db_ok_defs references_ok_def)

lemma keeps_sound_audit [keeps_intro]: "keeps sound (insertAudit e a n)"
  unfolding insertAudit_def
  by (rule keeps_sound_write, rule db_ok_audit)
    (fastforce simp: db_ok_defs sorted_wrt_append)+

lemma db_ok_insert_job:
  assumes ok: "db_ok s" and k: "jMaxAttempts r \<noteq> 0"
    and u: "jUuid r \<notin> set (map jUuid (dbJobs s))"
    and a: "\<not> (is_active (jStatus r) \<and> jIdempotencyKey r \<in> set (active_keys (dbJobs s)))"
    and f: "references_ok s (r\<lparr>jId := Suc (dbJobSeq s)\<rparr>)"
  shows "db_ok (s\<lparr>dbJobs := dbJobs s @ [r\<lparr>jId := Suc (dbJobSeq s)\<rparr>], dbJobSeq := Suc (dbJobSeq s)\<rparr>)"
proof -
  let ?r = "r\<lparr>jId := Suc (dbJobSeq s)\<rparr>"
  have "sorted_wrt (<) (map jId (dbJobs s @ [?r]))"
    using ok by (fastforce simp: db_ok_defs sorted_wrt_append)
  moreover have "distinct (active_keys (dbJobs s @ [?r]))"
    using ok a by (auto simp: db_ok_defs active_keys_def)
  moreover have "distinct (map jUuid (dbJobs s @ [?r]))"
    using ok u by (auto simp: db_ok_defs)
  moreover have "\<forall>j \<in> set (dbJobs s). jId j \<le> Suc (dbJobSeq s) \<and> 0 < jMaxAttempts j \<and> references_ok s j"
    using ok by (auto simp: db_ok_defs le_Suc_eq)
  ultimately show ?thesis
    using ok k f by (auto simp: db_ok_defs references_ok_def)
qed

lemma keeps_sound_insert_job [keeps_intro]: "keeps sound (insert_job r)"
proof (rule keepsI)
  fix s
  show "sound s (after (insert_job r) s)"
    using db_ok_insert_job [of s r]
    by (auto simp: sound_def after_def insert_job_def Let_def evolution.refl
        intro: jobs_evolve_append)
qed

lemma keeps_sound_assert [keeps_intro]: "keeps sound (assertJobTransition a b)"
  by (simp add: assertJobTransition_def soundness.keeps_ret soundness.keeps_throw)

lemmas keeps_sound_rules = soundness.keeps_rules
declare soundness.keeps_rules [keeps_intro]

lemma keeps_sound_transaction [keeps_intro]: "keeps sound m \<Longrightarrow> keeps sound (immediateTransaction m)"
  unfolding immediateTransaction_def by (rule soundness.keeps_atomically)

text \<open>A guarded update: the transition was asserted for the status of the row.\<close>

lemma sound_assert:
  "(can_transition a b \<Longrightarrow> sound s (after m s)) \<Longrightarrow>
   sound s (after (bindE (assertJobTransition a b) (\<lambda>_. m)) s)"
  by (auto simp: assertJobTransition_def after_def soundness.refl)

end
