(* ===== verification/Samples.thy ===== *)
theory Samples
  imports Database
begin

text \<open>
  A small concrete database, the input of the witnesses: two groups, one of them off the
  allowlist, and one job in each of the states that matter.
\<close>

definition sample_destination :: "string \<Rightarrow> string option \<Rightarrow> bool \<Rightarrow> destination" where
  "sample_destination jid al en =
     \<lparr>dJid = jid, dSubject = ''Group'', dDescription = None, dOwnerJid = None,
      dParticipantCount = None, dAddressingMode = None, dAlias = al, dEnabled = en,
      dCanSend = True, dCreatedAt = ''2026-01-01'', dUpdatedAt = ''2026-01-01'',
      dLastRefreshedAt = ''2026-01-01''\<rparr>"

definition sample_job ::
    "nat \<Rightarrow> string \<Rightarrow> string \<Rightarrow> string \<Rightarrow> job_status \<Rightarrow> string option \<Rightarrow> bool \<Rightarrow> queue_job" where
  "sample_job n uuid jid key st next dry =
     \<lparr>jId = n, jUuid = uuid, jDestinationJid = jid, jPayloadType = PT_text,
      jText = Some ''hello'', jMediaPath = None, jMediaHash = None, jMediaMime = None,
      jFilename = None, jScheduledAt = ''2026-01-01'', jStatus = st, jAttemptCount = 0,
      jMaxAttempts = 3, jNextAttemptAt = next, jLastErrorClass = None,
      jLastErrorMessage = None, jIdempotencyKey = key, jOptionsJson = ''{}'',
      jRequestedBy = ''cli'', jCreatedAt = ''2026-01-01'', jUpdatedAt = ''2026-01-01'',
      jStartedAt = None, jSentAt = None, jRemoteMessageId = None, jBatchId = None,
      jDryRun = dry, jForwardSourceKey = None\<rparr>"

definition sample_db :: database where
  "sample_db = empty_db\<lparr>
     dbDestinations :=
       [sample_destination ''1@g.us'' (Some ''ops'') True, sample_destination ''2@g.us'' None False],
     dbJobs :=
       [sample_job 1 ''a-1'' ''1@g.us'' ''k1'' RETRY (Some ''2026-01-03'') False,
        sample_job 2 ''b-2'' ''1@g.us'' ''k2'' PENDING None False,
        sample_job 3 ''c-3'' ''1@g.us'' ''k2'' FAILED None False,
        sample_job 4 ''d-4'' ''2@g.us'' ''k4'' SCHEDULED None False,
        sample_job 5 ''e-5'' ''1@g.us'' ''k5'' PROCESSING None False,
        sample_job 6 ''f-6'' ''1@g.us'' ''k6'' PENDING None True],
     dbJobSeq := 6\<rparr>"

definition sample_new :: "string \<Rightarrow> string \<Rightarrow> new_queue_job" where
  "sample_new uuid key =
     \<lparr>nUuid = uuid, nDestinationJid = ''1@g.us'', nPayloadType = PT_text, nText = Some ''hi'',
      nMediaPath = None, nMediaHash = None, nMediaMime = None, nFilename = None,
      nScheduledAt = ''2026-01-05'', nStatus = NEW_PENDING, nMaxAttempts = 5,
      nIdempotencyKey = key, nOptionsJson = ''{}'', nRequestedBy = ''cli'', nBatchId = None,
      nDryRun = False, nForwardSourceKey = None\<rparr>"

lemmas sample_defs = sample_destination_def sample_job_def sample_db_def empty_db_def

lemma sample_db_ok: "db_ok sample_db"
  by (simp add: db_ok_defs sample_defs active_keys_def is_active_def alias_keys_def
      List.map_filter_def references_ok_def nocase_def)

end
