(* ===== verification/JobRepo.thy ===== *)
theory JobRepo
  imports Samples "HOL-Library.Product_Lexorder"
begin

text \<open>
  \<open>JobRepository\<close> of \<open>src/src/db/repositories/job-repository.ts\<close>: creation with duplicate
  suppression, the claim, the guarded transition and the bulk updates.  \<open>now\<close> is the text of
  the clock reading each method takes.

  The lemmas: every method keeps the constraints and moves jobs along the transition table;
  what the claim selects; what each method does on each of its branches.
\<close>

section \<open>Operations\<close>

definition getByReference :: "string \<Rightarrow> database \<Rightarrow> queue_job option" where
  "getByReference reference s =
     find_first (\<lambda>j. jUuid j = reference \<or> show_nat (jId j) = reference) (dbJobs s)"

definition findByIdempotencyKey :: "string \<Rightarrow> database \<Rightarrow> queue_job option" where
  "findByIdempotencyKey key s =
     find_first (\<lambda>j. jIdempotencyKey j = key \<and> is_active (jStatus j)) (rev (dbJobs s))"

definition new_row :: "new_queue_job \<Rightarrow> string \<Rightarrow> queue_job" where
  "new_row n now =
     \<lparr>jId = 0, jUuid = nUuid n, jDestinationJid = nDestinationJid n,
      jPayloadType = nPayloadType n, jText = nText n, jMediaPath = nMediaPath n,
      jMediaHash = nMediaHash n, jMediaMime = nMediaMime n, jFilename = nFilename n,
      jScheduledAt = nScheduledAt n, jStatus = new_status (nStatus n), jAttemptCount = 0,
      jMaxAttempts = nMaxAttempts n, jNextAttemptAt = None, jLastErrorClass = None,
      jLastErrorMessage = None, jIdempotencyKey = nIdempotencyKey n,
      jOptionsJson = nOptionsJson n, jRequestedBy = nRequestedBy n, jCreatedAt = now,
      jUpdatedAt = now, jStartedAt = None, jSentAt = None, jRemoteMessageId = None,
      jBatchId = nBatchId n, jDryRun = nDryRun n, jForwardSourceKey = nForwardSourceKey n\<rparr>"

definition json_opt :: "string option \<Rightarrow> json" where
  "json_opt x = (case x of None \<Rightarrow> JNull | Some t \<Rightarrow> JStr t)"

definition create :: "new_queue_job \<Rightarrow> string \<Rightarrow> string \<Rightarrow> queue_job db_io" where
  "create job actor now =
     catchE
       (immediateTransaction
         (bindE (insert_job (new_row job now)) (\<lambda>_.
          bindE (insertAudit
              (if nStatus job = NEW_SCHEDULED then ''job_scheduled'' else ''job_enqueued'')
              \<lparr>aoActor = Some actor, aoEntityType = Some ''job'', aoEntityId = Some (nUuid job),
               aoDetails = Some (JObj
                 [(''destinationJid'', JStr (nDestinationJid job)),
                  (''payloadType'', JStr (show_payload (nPayloadType job))),
                  (''idempotencyKey'', JStr (nIdempotencyKey job)),
                  (''batchId'', json_opt (nBatchId job))])\<rparr> now) (\<lambda>_.
          bindE (readE (getByReference (nUuid job))) (\<lambda>created.
            case created of
              None \<Rightarrow> throw (PlainError ''Job insert did not return a row'')
            | Some row \<Rightarrow> ret row)))))
       (\<lambda>error.
          if is_unique_violation error
          then bindE (readE (findByIdempotencyKey (nIdempotencyKey job))) (\<lambda>existing.
                 case existing of
                   Some row \<Rightarrow> throw (DuplicateJobError (jUuid row))
                 | None \<Rightarrow> throw error)
          else throw error)"

definition job_get :: "string \<Rightarrow> queue_job option db_io" where
  "job_get reference = readE (getByReference reference)"

text \<open>SQLite's \<open>LIMIT\<close>: a negative bound is no bound.\<close>

definition sql_limit :: "int \<Rightarrow> 'a list \<Rightarrow> 'a list" where
  "sql_limit n xs = (if n < 0 then xs else take (nat n) xs)"

definition list_jobs :: "job_status list \<Rightarrow> int \<Rightarrow> database \<Rightarrow> queue_job list" where
  "list_jobs statuses limit s =
     (if statuses = [] then sql_limit limit (rev (dbJobs s))
      else sql_limit limit (rev (filter (\<lambda>j. jStatus j \<in> set statuses) (dbJobs s))))"

definition promoteDueScheduled :: "string \<Rightarrow> nat db_io" where
  "promoteDueScheduled now =
     immediateTransaction (update_jobs
       (\<lambda>j. jStatus j = SCHEDULED \<and> jScheduledAt j \<le> now)
       (\<lambda>j. j\<lparr>jStatus := PENDING, jUpdatedAt := now\<rparr>))"

definition destination_of :: "database \<Rightarrow> string \<Rightarrow> destination option" where
  "destination_of s jid = find_first (\<lambda>d. dJid d = jid) (dbDestinations s)"

definition sendable :: "database \<Rightarrow> string \<Rightarrow> bool" where
  "sendable s jid \<longleftrightarrow>
     (case destination_of s jid of None \<Rightarrow> False | Some d \<Rightarrow> dEnabled d \<and> dCanSend d)"

definition blocked :: "database \<Rightarrow> string \<Rightarrow> bool" where
  "blocked s jid \<longleftrightarrow>
     list_ex (\<lambda>d. dJid d = jid \<and> (\<not> dEnabled d \<or> \<not> dCanSend d)) (dbDestinations s)"

definition cancelled_row :: "string \<Rightarrow> string \<Rightarrow> queue_job \<Rightarrow> queue_job" where
  "cancelled_row now message j =
     j\<lparr>jStatus := CANCELLED, jUpdatedAt := now, jLastErrorClass := Some ''DESTINATION_ERROR'',
       jLastErrorMessage := Some message\<rparr>"

definition cancelDisabled :: "string \<Rightarrow> nat db_io" where
  "cancelDisabled now =
     immediateTransaction (bindE (readE id) (\<lambda>s.
       update_jobs (\<lambda>j. is_unsent (jStatus j) \<and> blocked s (jDestinationJid j))
         (cancelled_row now ''Destination is disabled or no longer allows sending'')))"

text \<open>The \<open>WHERE\<close> and the \<open>ORDER BY\<close> of the claim.\<close>

definition due :: "string \<Rightarrow> queue_job \<Rightarrow> bool" where
  "due now j \<longleftrightarrow>
     jStatus j = PENDING \<or>
     jStatus j \<in> {RETRY, WAITING_RATE_LIMIT} \<and>
       (case jNextAttemptAt j of None \<Rightarrow> False | Some t \<Rightarrow> t \<le> now)"

definition named :: "string option \<Rightarrow> queue_job \<Rightarrow> bool" where
  "named reference j \<longleftrightarrow>
     (case reference of None \<Rightarrow> True
      | Some r \<Rightarrow> r = [] \<or> jUuid j = r \<or> show_nat (jId j) = r)"

definition claimable :: "string \<Rightarrow> string option \<Rightarrow> bool \<Rightarrow> database \<Rightarrow> queue_job \<Rightarrow> bool" where
  "claimable now reference dryRunOnly s j \<longleftrightarrow>
     sendable s (jDestinationJid j) \<and> due now j \<and> (dryRunOnly \<longrightarrow> jDryRun j) \<and> named reference j"

definition claim_order :: "queue_job \<Rightarrow> string \<times> nat" where
  "claim_order j = (or_else (jNextAttemptAt j) (jScheduledAt j), jId j)"

definition claim_candidate ::
    "string \<Rightarrow> string option \<Rightarrow> bool \<Rightarrow> database \<Rightarrow> queue_job option" where
  "claim_candidate now reference dryRunOnly s =
     (case sort_key claim_order (filter (claimable now reference dryRunOnly s) (dbJobs s)) of
        [] \<Rightarrow> None
      | j # _ \<Rightarrow> Some j)"

definition claimed_row :: "string \<Rightarrow> queue_job \<Rightarrow> queue_job" where
  "claimed_row now j =
     j\<lparr>jStatus := PROCESSING, jAttemptCount := jAttemptCount j + 1, jStartedAt := Some now,
       jUpdatedAt := now, jNextAttemptAt := None\<rparr>"

definition claim :: "string \<Rightarrow> string option \<Rightarrow> bool \<Rightarrow> queue_job option db_io" where
  "claim now reference dryRunOnly =
     immediateTransaction
       (bindE (readE (claim_candidate now reference dryRunOnly)) (\<lambda>row.
          case row of
            None \<Rightarrow> ret None
          | Some row \<Rightarrow>
              bindE (assertJobTransition (jStatus row) PROCESSING) (\<lambda>_.
              bindE (update_jobs (\<lambda>j. jId j = jId row \<and> jStatus j = jStatus row)
                       (claimed_row now)) (\<lambda>changes.
                if changes \<noteq> 1 then ret None
                else readE (getByReference (jUuid row))))))"

definition claimNext :: "string \<Rightarrow> bool \<Rightarrow> queue_job option db_io" where
  "claimNext now dryRunOnly = claim now None dryRunOnly"

definition claimJob :: "string \<Rightarrow> string \<Rightarrow> bool \<Rightarrow> queue_job option db_io" where
  "claimJob now reference dryRunOnly = claim now (Some reference) dryRunOnly"

record transition_options =
  toRemoteMessageId :: "string option"
  toNextAttemptAt :: "string option"
  toErrorClass :: "string option"
  toErrorMessage :: "string option"
  toActor :: "string option"
  toAuditEvent :: "string option"

definition no_options :: transition_options where
  "no_options = \<lparr>toRemoteMessageId = None, toNextAttemptAt = None, toErrorClass = None,
     toErrorMessage = None, toActor = None, toAuditEvent = None\<rparr>"

definition moved_row ::
    "job_status \<Rightarrow> transition_options \<Rightarrow> string \<Rightarrow> queue_job \<Rightarrow> queue_job" where
  "moved_row target options now j =
     j\<lparr>jStatus := target,
       jRemoteMessageId := coalesce (toRemoteMessageId options) (jRemoteMessageId j),
       jNextAttemptAt := toNextAttemptAt options, jLastErrorClass := toErrorClass options,
       jLastErrorMessage := toErrorMessage options, jUpdatedAt := now,
       jSentAt := (if target = SENT then Some now else jSentAt j)\<rparr>"

definition from_to :: "job_status \<Rightarrow> job_status \<Rightarrow> json" where
  "from_to a b = JObj [(''from'', JStr (show_status a)), (''to'', JStr (show_status b))]"

definition transition_audit ::
    "queue_job \<Rightarrow> job_status \<Rightarrow> transition_options \<Rightarrow> string \<Rightarrow> unit db_io" where
  "transition_audit row target options now =
     (case toAuditEvent options of
        None \<Rightarrow> ret ()
      | Some event \<Rightarrow>
          if event = [] then ret ()
          else insertAudit event
            \<lparr>aoActor = Some (or_else (toActor options) ''system''),
             aoEntityType = Some ''job'', aoEntityId = Some (jUuid row),
             aoDetails = Some (from_to (jStatus row) target)\<rparr> now)"

definition transition ::
    "string \<Rightarrow> job_status \<Rightarrow> transition_options \<Rightarrow> string \<Rightarrow> queue_job db_io" where
  "transition reference target options now =
     immediateTransaction
       (bindE (readE (getByReference reference)) (\<lambda>row.
          case row of
            None \<Rightarrow> throw (NotFoundError (''Unknown job: '' @ reference))
          | Some row \<Rightarrow>
              bindE (assertJobTransition (jStatus row) target) (\<lambda>_.
              bindE (update_jobs (\<lambda>j. jId j = jId row) (moved_row target options now)) (\<lambda>_.
              bindE (transition_audit row target options now) (\<lambda>_.
              bindE (readE (getByReference (jUuid row))) (\<lambda>refreshed.
                case refreshed of
                  None \<Rightarrow> throw (PlainError ''Job disappeared after transition'')
                | Some j \<Rightarrow> ret j))))))"

definition review_row :: "string \<Rightarrow> queue_job \<Rightarrow> queue_job" where
  "review_row now j =
     j\<lparr>jStatus := REVIEW_REQUIRED, jUpdatedAt := now,
       jLastErrorClass := Some ''DELIVERY_UNCERTAIN_AFTER_RESTART'',
       jLastErrorMessage := Some ''Process stopped during delivery; review before retrying''\<rparr>"

definition recoverStaleProcessing :: "string \<Rightarrow> nat db_io" where
  "recoverStaleProcessing now =
     immediateTransaction
       (bindE (readE (\<lambda>s. map jUuid (filter (\<lambda>j. jStatus j = PROCESSING) (dbJobs s)))) (\<lambda>jobs.
        bindE (update_jobs (\<lambda>j. jStatus j = PROCESSING) (review_row now)) (\<lambda>changes.
        bindE (forE jobs (\<lambda>uuid.
          insertAudit ''job_review_required''
            \<lparr>aoActor = Some ''startup'', aoEntityType = Some ''job'', aoEntityId = Some uuid,
             aoDetails = Some (JObj
               [(''reason'', JStr ''delivery_uncertain_after_restart'')])\<rparr> now)) (\<lambda>_.
        ret changes))))"

definition cancel :: "string \<Rightarrow> string \<Rightarrow> string \<Rightarrow> queue_job db_io" where
  "cancel reference actor now =
     bindE (job_get reference) (\<lambda>job.
       case job of
         None \<Rightarrow> throw (NotFoundError (''Unknown job: '' @ reference))
       | Some _ \<Rightarrow> transition reference CANCELLED
           (no_options\<lparr>toActor := Some actor, toAuditEvent := Some ''job_cancelled'',
              toErrorClass := Some ''OPERATOR_CANCELLED'',
              toErrorMessage := Some ''Cancelled by operator''\<rparr>) now)"

definition retried_row :: "string \<Rightarrow> queue_job \<Rightarrow> queue_job" where
  "retried_row now j =
     j\<lparr>jStatus := RETRY, jAttemptCount := 0, jNextAttemptAt := Some now,
       jLastErrorClass := None, jLastErrorMessage := None, jUpdatedAt := now\<rparr>"

definition retry :: "string \<Rightarrow> string \<Rightarrow> string \<Rightarrow> queue_job db_io" where
  "retry reference actor now =
     immediateTransaction
       (bindE (readE (getByReference reference)) (\<lambda>row.
          case row of
            None \<Rightarrow> throw (NotFoundError (''Unknown job: '' @ reference))
          | Some row \<Rightarrow>
              bindE (assertJobTransition (jStatus row) RETRY) (\<lambda>_.
              bindE (update_jobs (\<lambda>j. jId j = jId row) (retried_row now)) (\<lambda>_.
              bindE (insertAudit ''job_manually_retried''
                       \<lparr>aoActor = Some actor, aoEntityType = Some ''job'',
                        aoEntityId = Some (jUuid row),
                        aoDetails = Some (from_to (jStatus row) RETRY)\<rparr> now) (\<lambda>_.
              bindE (readE (getByReference (jUuid row))) (\<lambda>refreshed.
                case refreshed of
                  None \<Rightarrow> throw (PlainError ''Job disappeared after retry'')
                | Some j \<Rightarrow> ret j))))))"

definition markSent :: "string \<Rightarrow> string \<Rightarrow> string \<Rightarrow> queue_job db_io" where
  "markSent reference actor now =
     transition reference SENT
       (no_options\<lparr>toActor := Some actor, toAuditEvent := Some ''job_manually_marked_sent'',
          toRemoteMessageId := Some ''operator-confirmed''\<rparr>) now"

definition count_status :: "job_status \<Rightarrow> queue_job list \<Rightarrow> nat" where
  "count_status st js = length (filter (\<lambda>j. jStatus j = st) js)"

text \<open>\<open>GROUP BY status\<close>: a row for each status that occurs, in the order of the text.\<close>

definition group_counts :: "queue_job list \<Rightarrow> (job_status \<times> nat) list" where
  "group_counts js =
     map (\<lambda>st. (st, count_status st js))
       (filter (\<lambda>st. 0 < count_status st js) (sort all_statuses))"

definition counts :: "database \<Rightarrow> (job_status \<times> nat) list" where
  "counts s = group_counts (dbJobs s)"

fun least_text :: "string list \<Rightarrow> string option" where
  "least_text [] = None"
| "least_text (x # xs) = (case least_text xs of None \<Rightarrow> Some x | Some y \<Rightarrow> Some (min x y))"

fun greatest_text :: "string list \<Rightarrow> string option" where
  "greatest_text [] = None"
| "greatest_text (x # xs) = (case greatest_text xs of None \<Rightarrow> Some x | Some y \<Rightarrow> Some (max x y))"

definition oldestPending :: "database \<Rightarrow> string option" where
  "oldestPending s =
     least_text (map jCreatedAt (filter (\<lambda>j. is_unsent (jStatus j)) (dbJobs s)))"

definition lastSuccessfulSend :: "database \<Rightarrow> string option" where
  "lastSuccessfulSend s =
     greatest_text (List.map_filter jSentAt (filter (\<lambda>j. jStatus j = SENT) (dbJobs s)))"

section \<open>Soundness of every method\<close>

lemma row_status [simp]:
  "jStatus (claimed_row now j) = PROCESSING"
  "jStatus (moved_row target options now j) = target"
  "jStatus (review_row now j) = REVIEW_REQUIRED"
  "jStatus (retried_row now j) = RETRY"
  "jStatus (cancelled_row now m j) = CANCELLED"
  by (simp_all add: claimed_row_def moved_row_def review_row_def retried_row_def cancelled_row_def)

lemma row_identity [simp]:
  "job_identity (claimed_row now j) = job_identity j"
  "job_identity (moved_row target options now j) = job_identity j"
  "job_identity (review_row now j) = job_identity j"
  "job_identity (retried_row now j) = job_identity j"
  "job_identity (cancelled_row now m j) = job_identity j"
  by (simp_all add: claimed_row_def moved_row_def review_row_def retried_row_def cancelled_row_def
      job_identity_def)

lemma getByReference_SomeD: "getByReference r s = Some j \<Longrightarrow> j \<in> set (dbJobs s)"
  by (auto simp: getByReference_def dest: find_first_SomeD)

lemma claim_candidate_SomeD:
  assumes "claim_candidate now r d s = Some j"
  shows "j \<in> set (dbJobs s)" "claimable now r d s j"
proof -
  have "j \<in> set (sort_key claim_order (filter (claimable now r d s) (dbJobs s)))"
    using assms
    by (cases "sort_key claim_order (filter (claimable now r d s) (dbJobs s))")
      (simp_all add: claim_candidate_def del: set_sort)
  then show "j \<in> set (dbJobs s)" "claimable now r d s j" by auto
qed

lemma sound_create [keeps_intro]: "keeps sound (create n a now)"
  unfolding create_def by (intro keeps_intro)

lemma sound_promote [keeps_intro]: "keeps sound (promoteDueScheduled now)"
  unfolding promoteDueScheduled_def
  by (intro keeps_intro keeps_sound_update_jobs)
    (auto simp: job_evolves_def job_identity_def can_transition_def)

lemma cancelled_row_evolves: "is_unsent (jStatus j) \<Longrightarrow> job_evolves j (cancelled_row now m j)"
  by (auto simp: job_evolves_def job_identity_def cancelled_row_def unsent_can_cancel)

lemma sound_cancelDisabled [keeps_intro]: "keeps sound (cancelDisabled now)"
  unfolding cancelDisabled_def
  by (intro keeps_intro keeps_sound_update_jobs) (auto simp: cancelled_row_evolves)

lemma keeps_sound_claim_row:
  assumes "can_transition (jStatus row) PROCESSING"
  shows "keeps sound (bindE
    (update_jobs (\<lambda>j. jId j = jId row \<and> jStatus j = jStatus row) (claimed_row now))
    (\<lambda>changes. if changes \<noteq> 1 then ret None else readE (getByReference (jUuid row))))"
proof (rule soundness.keeps_bind)
  show "keeps sound (update_jobs (\<lambda>j. jId j = jId row \<and> jStatus j = jStatus row) (claimed_row now))"
    using assms by (intro keeps_sound_update_jobs)
      (auto simp: job_evolves_def job_identity_def claimed_row_def)
qed (intro keeps_intro)

lemma sound_claim [keeps_intro]: "keeps sound (claim now r d)"
  unfolding claim_def immediateTransaction_def
proof (intro soundness.keeps_atomically soundness.keeps_bind_read, goal_cases)
  case (1 s)
  show ?case
  proof (cases "claim_candidate now r d s")
    case None
    then show ?thesis by (simp add: after_def soundness.refl)
  next
    case (Some row)
    show ?thesis
      unfolding Some option.case
      by (rule sound_assert, rule keepsD, rule keeps_sound_claim_row)
  qed
qed

lemma sound_claimNext [keeps_intro]: "keeps sound (claimNext now d)"
  unfolding claimNext_def by (intro keeps_intro)

lemma sound_claimJob [keeps_intro]: "keeps sound (claimJob now r d)"
  unfolding claimJob_def by (intro keeps_intro)

text \<open>An update of the one row read before it.\<close>

lemma sound_update_row:
  assumes "getByReference r s = Some row" and "can_transition (jStatus row) target"
    and "\<And>j. job_identity (f j) = job_identity j" and "\<And>j. jStatus (f j) = target"
  shows "sound s (after (update_jobs (\<lambda>j. jId j = jId row) f) s)"
proof (rule sound_update_jobs)
  fix j
  assume "db_ok s" "j \<in> set (dbJobs s)" "jId j = jId row"
  with assms(1) have "j = row" by (blast dest: getByReference_SomeD intro: job_id_eq)
  with assms show "job_evolves j (f j)" by (auto simp: job_evolves_def)
qed

lemma sound_update_row_then:
  assumes "getByReference r s = Some row"
    and "\<And>j. job_identity (f j) = job_identity j" and "\<And>j. jStatus (f j) = target"
    and "\<And>x. keeps sound (rest x)"
  shows "sound s (after (bindE (assertJobTransition (jStatus row) target)
    (\<lambda>_. bindE (update_jobs (\<lambda>j. jId j = jId row) f) rest)) s)"
  by (rule sound_assert, rule soundness.at_bind, rule sound_update_row [OF assms(1) _ assms(2,3)],
      assumption, rule keepsD, rule assms(4))

lemma sound_transition_audit [keeps_intro]: "keeps sound (transition_audit row target options now)"
  unfolding transition_audit_def by (intro keeps_intro)

lemma sound_transition [keeps_intro]: "keeps sound (transition r target options now)"
  unfolding transition_def immediateTransaction_def
proof (intro soundness.keeps_atomically soundness.keeps_bind_read, goal_cases)
  case (1 s)
  show ?case
  proof (cases "getByReference r s")
    case None
    then show ?thesis by (simp add: after_def soundness.refl)
  next
    case (Some row)
    show ?thesis
      unfolding Some option.case
      by (rule sound_update_row_then [OF Some])
        (simp_all add: moved_row_def job_identity_def, intro keeps_intro)
  qed
qed

lemma sound_retry [keeps_intro]: "keeps sound (retry r a now)"
  unfolding retry_def immediateTransaction_def
proof (intro soundness.keeps_atomically soundness.keeps_bind_read, goal_cases)
  case (1 s)
  show ?case
  proof (cases "getByReference r s")
    case None
    then show ?thesis by (simp add: after_def soundness.refl)
  next
    case (Some row)
    show ?thesis
      unfolding Some option.case
      by (rule sound_update_row_then [OF Some])
        (simp_all add: retried_row_def job_identity_def, intro keeps_intro)
  qed
qed

lemma sound_markSent [keeps_intro]: "keeps sound (markSent r a now)"
  unfolding markSent_def by (intro keeps_intro)

lemma sound_job_get [keeps_intro]: "keeps sound (job_get r)"
  unfolding job_get_def by (intro keeps_intro)

lemma sound_cancel [keeps_intro]: "keeps sound (cancel r a now)"
  unfolding cancel_def by (intro keeps_intro)

lemma sound_recover [keeps_intro]: "keeps sound (recoverStaleProcessing now)"
  unfolding recoverStaleProcessing_def
  by (intro keeps_intro keeps_sound_update_jobs)
    (auto simp: job_evolves_def job_identity_def review_row_def can_transition_def)

section \<open>What each method does\<close>

text \<open>
  Job identifiers: a random UUID contains a dash, so it is never the decimal text of an id, and a
  reference that is a UUID names one job only.
\<close>

definition dashed :: "string \<Rightarrow> bool" where
  "dashed u \<longleftrightarrow> CHR ''-'' \<in> set u"

definition uuids_dashed :: "database \<Rightarrow> bool" where
  "uuids_dashed s \<longleftrightarrow> (\<forall>j \<in> set (dbJobs s). dashed (jUuid j))"

lemma dashed_not_number: "dashed u \<Longrightarrow> show_nat n \<noteq> u"
  using show_nat_digits [of "CHR ''-''" n] by (auto simp: dashed_def is_digit_def)

lemma getByReference_uuid:
  assumes "distinct (map jUuid (dbJobs s))" and "j \<in> set (dbJobs s)" and "dashed (jUuid j)"
  shows "getByReference (jUuid j) s = Some j"
  unfolding getByReference_def
proof (rule find_first_unique)
  fix i
  assume "i \<in> set (dbJobs s)" and "jUuid i = jUuid j \<or> show_nat (jId i) = jUuid j"
  with dashed_not_number [OF assms(3)] have "jUuid i = jUuid j" by blast
  with assms \<open>i \<in> set (dbJobs s)\<close> show "i = j" by (blast intro: distinct_map_eq)
qed (use assms in auto)

lemma getByReference_own:
  assumes "db_ok s" and "uuids_dashed s" and "j \<in> set (dbJobs s)"
  shows "getByReference (jUuid j) s = Some j"
  using assms by (intro getByReference_uuid) (auto simp: db_ok_defs uuids_dashed_def)

text \<open>After rewriting one row, the row's own UUID finds the rewritten row.\<close>

lemma getByReference_updated:
  assumes ok: "db_ok s" and u: "uuids_dashed s" and j: "j \<in> set (dbJobs s)"
    and f: "\<And>i. job_identity (f i) = job_identity i"
    and t: "dbJobs t = update_where (\<lambda>i. jId i = jId j) f (dbJobs s)"
  shows "getByReference (jUuid j) t = Some (f j)"
proof -
  have "jUuid (f i) = jUuid i \<and> jId (f i) = jId i" for i
    using f [of i] by (simp add: job_identity_def)
  then have d: "distinct (map jUuid (dbJobs t))"
    using ok unfolding t by (subst map_update_where) (auto simp: db_ok_defs)
  moreover have "f j \<in> set (dbJobs t)" using j unfolding t by (auto simp: set_update_where)
  moreover have "jUuid (f j) = jUuid j" using f [of j] by (simp add: job_identity_def)
  ultimately show ?thesis
    using getByReference_uuid [of t "f j"] u j by (auto simp: uuids_dashed_def)
qed

text \<open>When does rewriting one row violate the index of active keys?\<close>

lemma set_active_keys:
  "k \<in> set (active_keys js) \<longleftrightarrow> (\<exists>j \<in> set js. is_active (jStatus j) \<and> jIdempotencyKey j = k)"
  by (auto simp: active_keys_def)

lemma distinct_active_iff:
  assumes "distinct (map jId js)"
  shows "distinct (active_keys js) \<longleftrightarrow>
    (\<forall>x \<in> set js. \<forall>y \<in> set js. is_active (jStatus x) \<and> is_active (jStatus y) \<and>
       jIdempotencyKey x = jIdempotencyKey y \<longrightarrow> x = y)"
  using assms by (auto simp: active_keys_def distinct_map inj_on_def)

lemma distinct_active_update_one:
  assumes d: "distinct (map jId js)" and j: "j \<in> set js"
    and f: "\<And>i. jIdempotencyKey (f i) = jIdempotencyKey i \<and> jId (f i) = jId i"
    and k: "distinct (active_keys js)"
  shows "distinct (active_keys (update_where (\<lambda>i. jId i = jId j) f js)) \<longleftrightarrow>
    \<not> (is_active (jStatus (f j)) \<and> \<not> is_active (jStatus j) \<and>
       jIdempotencyKey j \<in> set (active_keys js))"
proof -
  define g where "g = (\<lambda>x. if x = j then f j else x)"
  have g: "g j = f j" "\<And>x. x \<noteq> j \<Longrightarrow> g x = x" by (simp_all add: g_def)
  have gk: "jIdempotencyKey (g x) = jIdempotencyKey x" "jId (g x) = jId x" for x
    using f by (simp_all add: g_def)
  have gi: "g x = g y \<longleftrightarrow> x = y" if "x \<in> set js" "y \<in> set js" for x y
    using gk distinct_map_eq [OF d] that by metis
  have u: "update_where (\<lambda>i. jId i = jId j) f js = map g js"
    unfolding update_where_def g_def using d j by (intro map_cong) (auto dest: distinct_map_eq)
  have "distinct (map jId (map g js))" using d by (simp add: gk comp_def)
  then have "distinct (active_keys (map g js)) \<longleftrightarrow>
    (\<forall>x \<in> set js. \<forall>y \<in> set js. is_active (jStatus (g x)) \<and> is_active (jStatus (g y)) \<and>
       jIdempotencyKey x = jIdempotencyKey y \<longrightarrow> g x = g y)"
    by (simp add: distinct_active_iff gk)
  also have "\<dots> \<longleftrightarrow> (\<forall>x \<in> set js. \<forall>y \<in> set js. is_active (jStatus (g x)) \<and>
       is_active (jStatus (g y)) \<and> jIdempotencyKey x = jIdempotencyKey y \<longrightarrow> x = y)"
    by (simp add: gi)
  also have "\<dots> \<longleftrightarrow> \<not> (is_active (jStatus (f j)) \<and> \<not> is_active (jStatus j) \<and>
       (\<exists>z \<in> set js. is_active (jStatus z) \<and> jIdempotencyKey z = jIdempotencyKey j))"
    using k j g unfolding distinct_active_iff [OF d] by metis
  finally show ?thesis by (simp add: u set_active_keys)
qed

definition key_taken :: "queue_job \<Rightarrow> job_status \<Rightarrow> database \<Rightarrow> bool" where
  "key_taken j target s \<longleftrightarrow>
     is_active target \<and> \<not> is_active (jStatus j) \<and>
     jIdempotencyKey j \<in> set (active_keys (dbJobs s))"

lemma update_row_eq:
  assumes ok: "db_ok s" and j: "j \<in> set (dbJobs s)"
    and f: "\<And>i. job_identity (f i) = job_identity i" and st: "jStatus (f j) = target"
  shows "update_jobs (\<lambda>i. jId i = jId j) f s =
    (if key_taken j target s
     then (Inl (SqliteError (UniqueConstraint ''message_jobs.idempotency_key'')), s)
     else (Inr 1, s\<lparr>dbJobs := update_where (\<lambda>i. jId i = jId j) f (dbJobs s)\<rparr>))"
proof -
  have "jIdempotencyKey (f i) = jIdempotencyKey i \<and> jId (f i) = jId i" for i
    using f [of i] by (simp add: job_identity_def)
  moreover have d: "distinct (map jId (dbJobs s))" by (rule ids_distinct [OF ok])
  ultimately have "distinct (active_keys (update_where (\<lambda>i. jId i = jId j) f (dbJobs s))) \<longleftrightarrow>
      \<not> key_taken j target s"
    using distinct_active_update_one [of "dbJobs s" j f] j st jobs_ok_keys [OF ok]
    by (simp add: key_taken_def)
  moreover have "filter (\<lambda>i. jId i = jId j) (dbJobs s) = [j]"
    using d j by (rule filter_key_single)
  ultimately show ?thesis by (simp add: update_jobs_def Let_def)
qed

text \<open>The audit row leaves every other table alone.\<close>

lemma insertAudit_eq: "insertAudit e a n s = (Inr (), after (insertAudit e a n) s)"
  by (simp add: insertAudit_def after_def)

lemma insertAudit_tables [simp]:
  "dbJobs (after (insertAudit e a n) s) = dbJobs s"
  "dbDestinations (after (insertAudit e a n) s) = dbDestinations s"
  "dbMedia (after (insertAudit e a n) s) = dbMedia s"
  "dbAppState (after (insertAudit e a n) s) = dbAppState s"
  "dbBatches (after (insertAudit e a n) s) = dbBatches s"
  "dbForwardSources (after (insertAudit e a n) s) = dbForwardSources s"
  "dbGroupSets (after (insertAudit e a n) s) = dbGroupSets s"
  "dbGroupSetMembers (after (insertAudit e a n) s) = dbGroupSetMembers s"
  "dbControllerMessages (after (insertAudit e a n) s) = dbControllerMessages s"
  by (simp_all add: insertAudit_def after_def)

lemma transition_audit_eq:
  "transition_audit j t o' n s = (Inr (), after (transition_audit j t o' n) s)"
  by (simp add: transition_audit_def after_def insertAudit_def split: option.split)

lemma transition_audit_tables [simp]:
  "dbJobs (after (transition_audit j t o' n) s) = dbJobs s"
  "dbDestinations (after (transition_audit j t o' n) s) = dbDestinations s"
  "dbAppState (after (transition_audit j t o' n) s) = dbAppState s"
  by (simp_all add: transition_audit_def after_def insertAudit_def split: option.split)

lemma getByReference_cong: "dbJobs t = dbJobs s \<Longrightarrow> getByReference r t = getByReference r s"
  by (simp add: getByReference_def)

definition with_row :: "queue_job \<Rightarrow> (queue_job \<Rightarrow> queue_job) \<Rightarrow> database \<Rightarrow> database" where
  "with_row j f s = s\<lparr>dbJobs := update_where (\<lambda>i. jId i = jId j) f (dbJobs s)\<rparr>"

lemma with_row_tables [simp]:
  "dbDestinations (with_row j f s) = dbDestinations s"
  "dbJobs (with_row j f s) = update_where (\<lambda>i. jId i = jId j) f (dbJobs s)"
  "dbAppState (with_row j f s) = dbAppState s"
  by (simp_all add: with_row_def)

lemma transition_eq:
  assumes ok: "db_ok s" and u: "uuids_dashed s"
  shows "transition r target options now s =
    (case getByReference r s of
       None \<Rightarrow> (Inl (NotFoundError (''Unknown job: '' @ r)), s)
     | Some j \<Rightarrow>
         if \<not> can_transition (jStatus j) target
         then (Inl (InvalidStateTransitionError (jStatus j) target), s)
         else if key_taken j target s
         then (Inl (SqliteError (UniqueConstraint ''message_jobs.idempotency_key'')), s)
         else (Inr (moved_row target options now j),
               after (transition_audit j target options now)
                 (with_row j (moved_row target options now) s)))"
proof (cases "getByReference r s")
  case None
  then show ?thesis by (simp add: transition_def immediateTransaction_def run_atomically)
next
  case (Some j)
  let ?f = "moved_row target options now"
  have j: "j \<in> set (dbJobs s)" using Some by (rule getByReference_SomeD)
  have f: "job_identity (?f i) = job_identity i" for i
    by (simp add: moved_row_def job_identity_def)
  note up = update_row_eq [of s j ?f target, OF ok j f]
  have get: "getByReference (jUuid j) (after (transition_audit j target options now) (with_row j ?f s))
      = Some (?f j)"
    by (rule getByReference_updated [OF ok u j f]) simp
  show ?thesis
    using up get transition_audit_eq [of j target options now "with_row j ?f s"]
    by (auto simp: Some transition_def immediateTransaction_def run_atomically run_bind
        assertJobTransition_def with_row_def [symmetric] moved_row_def)
qed

text \<open>
  C9.  The guarded transition on each of its branches: an unknown reference, a move the table
  forbids, a move that would give two active jobs the same idempotency key, and the success, in
  which exactly the referenced row is rewritten and the audit row is added.  On every error the
  database is unchanged.
\<close>

theorem transition_branches:
  assumes ok: "db_ok s" and u: "uuids_dashed s"
  shows "transition r target options now s =
    (case getByReference r s of
       None \<Rightarrow> (Inl (NotFoundError (''Unknown job: '' @ r)), s)
     | Some j \<Rightarrow>
         if \<not> can_transition (jStatus j) target
         then (Inl (InvalidStateTransitionError (jStatus j) target), s)
         else if key_taken j target s
         then (Inl (SqliteError (UniqueConstraint ''message_jobs.idempotency_key'')), s)
         else (Inr (moved_row target options now j),
               after (transition_audit j target options now)
                 (with_row j (moved_row target options now) s)))"
  by (rule transition_eq [OF assms])

lemma sample_db_dashed: "uuids_dashed sample_db"
  by (simp add: uuids_dashed_def dashed_def sample_defs)

theorem transition_branches_witness:
  "db_ok sample_db \<and> uuids_dashed sample_db \<and>
   out_of (transition ''c-3'' RETRY no_options ''2026-01-05'' sample_db)
     = Inl (SqliteError (UniqueConstraint ''message_jobs.idempotency_key'')) \<and>
   out_of (transition ''e-5'' SENT no_options ''2026-01-05'' sample_db)
     = Inr (moved_row SENT no_options ''2026-01-05''
         (sample_job 5 ''e-5'' ''1@g.us'' ''k5'' PROCESSING None False))"
proof -
  note t = transition_branches [OF sample_db_ok sample_db_dashed]
  show ?thesis
    unfolding t using sample_db_ok sample_db_dashed by code_simp
qed

subsection \<open>The claim\<close>

lemma due_can_process: "due now j \<Longrightarrow> can_transition (jStatus j) PROCESSING"
  by (auto simp: due_def can_transition_def)

lemma due_active: "due now j \<Longrightarrow> is_active (jStatus j)"
  by (auto simp: due_def is_active_def)

lemma claim_candidate_None_iff:
  "claim_candidate now r d s = None \<longleftrightarrow> (\<forall>j \<in> set (dbJobs s). \<not> claimable now r d s j)"
proof -
  have "claim_candidate now r d s = None \<longleftrightarrow>
      sort_key claim_order (filter (claimable now r d s) (dbJobs s)) = []"
    by (simp add: claim_candidate_def split: list.split)
  also have "\<dots> \<longleftrightarrow> set (sort_key claim_order (filter (claimable now r d s) (dbJobs s))) = {}"
    by (simp only: set_empty)
  finally show ?thesis by auto
qed

lemma claim_candidate_least:
  assumes "claim_candidate now r d s = Some j" and "i \<in> set (dbJobs s)" and "claimable now r d s i"
  shows "claim_order j \<le> claim_order i"
proof -
  let ?xs = "sort_key claim_order (filter (claimable now r d s) (dbJobs s))"
  obtain rest where xs: "?xs = j # rest"
    using assms(1) by (cases ?xs) (simp_all add: claim_candidate_def)
  have "i \<in> set ?xs" using assms(2,3) by simp
  moreover have "sorted (map claim_order ?xs)" by simp
  ultimately show ?thesis unfolding xs by auto
qed

lemma update_where_cong:
  "(\<And>x. x \<in> set xs \<Longrightarrow> P x \<longleftrightarrow> Q x) \<Longrightarrow> update_where P f xs = update_where Q f xs"
  by (auto simp: update_where_def)

lemma update_jobs_cong:
  assumes "\<And>j. j \<in> set (dbJobs s) \<Longrightarrow> P j \<longleftrightarrow> Q j"
  shows "update_jobs P f s = update_jobs Q f s"
proof -
  have "filter P (dbJobs s) = filter Q (dbJobs s)" using assms by (rule filter_cong [OF refl])
  then show ?thesis
    using update_where_cong [of "dbJobs s" P Q f] assms by (simp add: update_jobs_def Let_def)
qed

lemma claim_eq:
  assumes ok: "db_ok s" and u: "uuids_dashed s"
  shows "claim now r d s =
    (case claim_candidate now r d s of
       None \<Rightarrow> (Inr None, s)
     | Some j \<Rightarrow> (Inr (Some (claimed_row now j)), with_row j (claimed_row now) s))"
proof (cases "claim_candidate now r d s")
  case None
  then show ?thesis by (simp add: claim_def immediateTransaction_def run_atomically)
next
  case (Some j)
  note j = claim_candidate_SomeD [OF Some]
  then have due: "due now j" by (simp add: claimable_def)
  have f: "job_identity (claimed_row now i) = job_identity i" for i
    by (simp add: claimed_row_def job_identity_def)
  have "update_jobs (\<lambda>i. jId i = jId j \<and> jStatus i = jStatus j) (claimed_row now) s =
      update_jobs (\<lambda>i. jId i = jId j) (claimed_row now) s"
    using job_id_eq [OF ok] j(1) by (intro update_jobs_cong) metis
  also have "\<dots> = (Inr 1, with_row j (claimed_row now) s)"
    using due_active [OF due] update_row_eq [OF ok j(1) f, of PROCESSING]
    by (simp add: key_taken_def with_row_def)
  finally show ?thesis
    using due_can_process [OF due]
      getByReference_updated [OF ok u j(1) f, of "with_row j (claimed_row now) s"]
    by (simp add: Some claim_def immediateTransaction_def run_atomically run_bind
        assertJobTransition_def)
qed

text \<open>
  C5.  The claim takes the first due job in the order of \<open>COALESCE(next_attempt_at,
  scheduled_at), id\<close> among those whose destination is enabled and sendable, marks that row only,
  and finds nothing exactly when no job qualifies.
\<close>

theorem claim_takes_first_due:
  assumes "db_ok s" and "uuids_dashed s"
  shows "(\<forall>j \<in> set (dbJobs s). \<not> claimable now r d s j) \<and> claim now r d s = (Inr None, s) \<or>
    (\<exists>j \<in> set (dbJobs s). claimable now r d s j \<and>
       (\<forall>i \<in> set (dbJobs s). claimable now r d s i \<longrightarrow> claim_order j \<le> claim_order i) \<and>
       claim now r d s = (Inr (Some (claimed_row now j)), with_row j (claimed_row now) s))"
proof (cases "claim_candidate now r d s")
  case None
  then show ?thesis by (simp add: claim_eq [OF assms] claim_candidate_None_iff [symmetric])
next
  case (Some j)
  then show ?thesis
    using claim_candidate_SomeD [OF Some] claim_candidate_least [OF Some]
    by (auto simp: claim_eq [OF assms])
qed

theorem claim_takes_first_due_witness:
  "db_ok sample_db \<and> uuids_dashed sample_db \<and>
   fst (claim ''2026-01-02'' None False sample_db) =
     Inr (Some (claimed_row ''2026-01-02'' (sample_job 2 ''b-2'' ''1@g.us'' ''k2'' PENDING None False)))
   \<and> ((\<forall>j \<in> set (dbJobs sample_db). \<not> claimable ''2026-01-02'' None False sample_db j) \<and>
        claim ''2026-01-02'' None False sample_db = (Inr None, sample_db) \<or>
      (\<exists>j \<in> set (dbJobs sample_db). claimable ''2026-01-02'' None False sample_db j \<and>
         (\<forall>i \<in> set (dbJobs sample_db). claimable ''2026-01-02'' None False sample_db i \<longrightarrow>
            claim_order j \<le> claim_order i) \<and>
         claim ''2026-01-02'' None False sample_db =
           (Inr (Some (claimed_row ''2026-01-02'' j)),
            with_row j (claimed_row ''2026-01-02'') sample_db)))"
  (is "_ \<and> _ \<and> ?eq \<and> ?rest")
proof -
  have ?eq by code_simp
  moreover have ?rest by (rule claim_takes_first_due [OF sample_db_ok sample_db_dashed])
  ultimately show ?thesis using sample_db_ok sample_db_dashed by blast
qed

lemma with_row_identity:
  assumes "\<And>i. job_identity (f i) = job_identity i"
  shows "map jId (dbJobs (with_row j f s)) = map jId (dbJobs s)"
    "map jUuid (dbJobs (with_row j f s)) = map jUuid (dbJobs s)"
proof -
  have "jUuid (f i) = jUuid i \<and> jId (f i) = jId i" for i
    using assms [of i] by (simp add: job_identity_def)
  then show "map jId (dbJobs (with_row j f s)) = map jId (dbJobs s)"
    "map jUuid (dbJobs (with_row j f s)) = map jUuid (dbJobs s)"
    by (simp_all add: map_update_where)
qed

lemma uuids_dashed_map:
  assumes "map jUuid (dbJobs t) = map jUuid (dbJobs s)"
  shows "uuids_dashed t = uuids_dashed s"
proof -
  have "uuids_dashed x \<longleftrightarrow> (\<forall>u \<in> set (map jUuid (dbJobs x)). dashed u)" for x
    by (simp add: uuids_dashed_def)
  then show ?thesis by (simp only: assms)
qed



subsection \<open>Creation\<close>

lemma findByIdempotencyKey_active:
  assumes "distinct (map jId (dbJobs s))" and "distinct (active_keys (dbJobs s))"
    and "j \<in> set (dbJobs s)" and "is_active (jStatus j)" and "jIdempotencyKey j = k"
  shows "findByIdempotencyKey k s = Some j"
  unfolding findByIdempotencyKey_def
  using assms by (intro find_first_unique) (auto simp: distinct_active_iff)

lemma findByIdempotencyKey_None_iff:
  "findByIdempotencyKey k s = None \<longleftrightarrow> k \<notin> set (active_keys (dbJobs s))"
  by (auto simp: findByIdempotencyKey_def find_first_None_iff set_active_keys)

definition inserted_row :: "new_queue_job \<Rightarrow> string \<Rightarrow> database \<Rightarrow> queue_job" where
  "inserted_row n now s = (new_row n now)\<lparr>jId := Suc (dbJobSeq s)\<rparr>"

definition create_audit :: "new_queue_job \<Rightarrow> string \<Rightarrow> string \<Rightarrow> unit db_io" where
  "create_audit job actor now =
     insertAudit
       (if nStatus job = NEW_SCHEDULED then ''job_scheduled'' else ''job_enqueued'')
       \<lparr>aoActor = Some actor, aoEntityType = Some ''job'', aoEntityId = Some (nUuid job),
        aoDetails = Some (JObj
          [(''destinationJid'', JStr (nDestinationJid job)),
           (''payloadType'', JStr (show_payload (nPayloadType job))),
           (''idempotencyKey'', JStr (nIdempotencyKey job)),
           (''batchId'', json_opt (nBatchId job))])\<rparr> now"

lemma new_row_simps [simp]:
  "jStatus (new_row n now) = new_status (nStatus n)" "jUuid (new_row n now) = nUuid n"
  "jIdempotencyKey (new_row n now) = nIdempotencyKey n" "jMaxAttempts (new_row n now) = nMaxAttempts n"
  "jDestinationJid (new_row n now) = nDestinationJid n"
  by (simp_all add: new_row_def)

lemma new_status_active [simp]: "is_active (new_status st)"
  by (cases st) (simp_all add: is_active_def)

lemma create_eq:
  assumes ok: "db_ok s" and u: "uuids_dashed s" and d: "dashed (nUuid n)"
  shows "create n actor now s =
    (if nMaxAttempts n = 0 then (Inl (SqliteError (CheckConstraint ''max_attempts > 0'')), s)
     else case findByIdempotencyKey (nIdempotencyKey n) s of
       Some j \<Rightarrow> (Inl (DuplicateJobError (jUuid j)), s)
     | None \<Rightarrow>
         if nUuid n \<in> set (map jUuid (dbJobs s))
         then (Inl (SqliteError (UniqueConstraint ''message_jobs.uuid'')), s)
         else if \<not> references_ok s (inserted_row n now s)
         then (Inl (SqliteError ForeignKeyConstraint), s)
         else (Inr (inserted_row n now s),
               after (create_audit n actor now)
                 (s\<lparr>dbJobs := dbJobs s @ [inserted_row n now s], dbJobSeq := Suc (dbJobSeq s)\<rparr>)))"
proof -
  let ?k = "nIdempotencyKey n" and ?r = "inserted_row n now s"
  let ?t = "s\<lparr>dbJobs := dbJobs s @ [?r], dbJobSeq := Suc (dbJobSeq s)\<rparr>"
  have r: "jUuid ?r = nUuid n" "dashed (jUuid ?r)" using d by (simp_all add: inserted_row_def)
  have get: "getByReference (nUuid n) (after (create_audit n actor now) ?t) = Some ?r"
    if "nUuid n \<notin> set (map jUuid (dbJobs s))"
    using that ok r getByReference_uuid [of "after (create_audit n actor now) ?t" ?r]
    by (simp add: create_audit_def db_ok_defs)
  have ins: "insert_job (new_row n now) s =
      (if nMaxAttempts n = 0 then (Inl (SqliteError (CheckConstraint ''max_attempts > 0'')), s)
       else if nUuid n \<in> set (map jUuid (dbJobs s))
       then (Inl (SqliteError (UniqueConstraint ''message_jobs.uuid'')), s)
       else if findByIdempotencyKey ?k s \<noteq> None
       then (Inl (SqliteError (UniqueConstraint ''message_jobs.idempotency_key'')), s)
       else if \<not> references_ok s ?r then (Inl (SqliteError ForeignKeyConstraint), s)
       else (Inr (), ?t))"
    by (simp add: insert_job_def Let_def findByIdempotencyKey_None_iff inserted_row_def)
  note au = insertAudit_eq [where s = ?t]
  show ?thesis
    using get
    unfolding create_def immediateTransaction_def run_catch run_atomically run_bind ins
      create_audit_def [symmetric]
    by (cases "findByIdempotencyKey ?k s")
      (auto simp: au create_audit_def)
qed

text \<open>
  C10.  Creation on each of its branches.  A request whose idempotency key belongs to an active
  job is refused with the UUID of that job and leaves the database as it was; otherwise, with a
  fresh UUID and existing references, exactly one row is appended, with the next id.
\<close>

theorem create_branches:
  assumes ok: "db_ok s" and u: "uuids_dashed s" and d: "dashed (nUuid n)"
  shows "create n actor now s =
    (if nMaxAttempts n = 0 then (Inl (SqliteError (CheckConstraint ''max_attempts > 0'')), s)
     else case findByIdempotencyKey (nIdempotencyKey n) s of
       Some j \<Rightarrow> (Inl (DuplicateJobError (jUuid j)), s)
     | None \<Rightarrow>
         if nUuid n \<in> set (map jUuid (dbJobs s))
         then (Inl (SqliteError (UniqueConstraint ''message_jobs.uuid'')), s)
         else if \<not> references_ok s (inserted_row n now s)
         then (Inl (SqliteError ForeignKeyConstraint), s)
         else (Inr (inserted_row n now s),
               after (create_audit n actor now)
                 (s\<lparr>dbJobs := dbJobs s @ [inserted_row n now s], dbJobSeq := Suc (dbJobSeq s)\<rparr>)))"
  by (rule create_eq [OF assms])

theorem create_branches_witness:
  "create (sample_new ''n-9'' ''k1'') ''cli'' ''2026-01-05'' sample_db =
     (Inl (DuplicateJobError ''a-1''), sample_db) \<and>
   out_of (create (sample_new ''n-9'' ''k9'') ''cli'' ''2026-01-05'' sample_db) =
     Inr (inserted_row (sample_new ''n-9'' ''k9'') ''2026-01-05'' sample_db)"
proof
  have d: "dashed (nUuid (sample_new ''n-9'' k))" for k by (simp add: dashed_def sample_new_def)
  have "findByIdempotencyKey (nIdempotencyKey (sample_new ''n-9'' ''k1'')) sample_db =
      Some (sample_job 1 ''a-1'' ''1@g.us'' ''k1'' RETRY (Some ''2026-01-03'') False)"
    and "nMaxAttempts (sample_new ''n-9'' ''k1'') \<noteq> 0"
    and "jUuid (sample_job 1 ''a-1'' ''1@g.us'' ''k1'' RETRY (Some ''2026-01-03'') False) = ''a-1''"
    by code_simp+
  then show "create (sample_new ''n-9'' ''k1'') ''cli'' ''2026-01-05'' sample_db =
     (Inl (DuplicateJobError ''a-1''), sample_db)"
    unfolding create_branches [OF sample_db_ok sample_db_dashed d] by simp
  show "out_of (create (sample_new ''n-9'' ''k9'') ''cli'' ''2026-01-05'' sample_db) =
     Inr (inserted_row (sample_new ''n-9'' ''k9'') ''2026-01-05'' sample_db)"
    unfolding create_branches [OF sample_db_ok sample_db_dashed d] by code_simp
qed

subsection \<open>The operator's retry\<close>

definition retry_audit :: "queue_job \<Rightarrow> string \<Rightarrow> string \<Rightarrow> unit db_io" where
  "retry_audit row actor now =
     insertAudit ''job_manually_retried''
       \<lparr>aoActor = Some actor, aoEntityType = Some ''job'', aoEntityId = Some (jUuid row),
        aoDetails = Some (from_to (jStatus row) RETRY)\<rparr> now"



subsection \<open>The bulk updates\<close>

lemma promote_eq:
  assumes "db_ok s"
  shows "promoteDueScheduled now s =
    (Inr (length (filter (\<lambda>j. jStatus j = SCHEDULED \<and> jScheduledAt j \<le> now) (dbJobs s))),
     s\<lparr>dbJobs := update_where (\<lambda>j. jStatus j = SCHEDULED \<and> jScheduledAt j \<le> now)
       (\<lambda>j. j\<lparr>jStatus := PENDING, jUpdatedAt := now\<rparr>) (dbJobs s)\<rparr>)"
  unfolding promoteDueScheduled_def immediateTransaction_def run_atomically
  by (subst update_jobs_passive) (auto simp: is_active_def jobs_ok_keys [OF assms])

lemma cancelDisabled_eq:
  assumes "db_ok s"
  shows "cancelDisabled now s =
    (Inr (length (filter (\<lambda>j. is_unsent (jStatus j) \<and> blocked s (jDestinationJid j)) (dbJobs s))),
     s\<lparr>dbJobs := update_where (\<lambda>j. is_unsent (jStatus j) \<and> blocked s (jDestinationJid j))
       (cancelled_row now ''Destination is disabled or no longer allows sending'') (dbJobs s)\<rparr>)"
  unfolding cancelDisabled_def immediateTransaction_def run_atomically run_bind_read id_apply
  by (subst update_jobs_passive)
    (auto simp: is_active_def cancelled_row_def jobs_ok_keys [OF assms])

text \<open>
  The sweep before every claim leaves no unsent job behind for a destination that is
  disabled or no longer sendable, and rewrites no other job.
\<close>

theorem cancelDisabled_clears:
  assumes "db_ok s"
  shows "\<exists>n t. cancelDisabled now s = (Inr n, t) \<and> dbDestinations t = dbDestinations s \<and>
    length (dbJobs t) = length (dbJobs s) \<and>
    (\<forall>i < length (dbJobs s).
       let j = dbJobs s ! i; j' = dbJobs t ! i in
       if is_unsent (jStatus j) \<and> blocked s (jDestinationJid j)
       then jStatus j' = CANCELLED \<and> jLastErrorClass j' = Some ''DESTINATION_ERROR''
       else j' = j)"
  by (simp add: cancelDisabled_eq [OF assms] Let_def update_where_def cancelled_row_def)

theorem cancelDisabled_clears_witness:
  "db_ok sample_db \<and>
   (\<exists>n t. cancelDisabled ''2026-01-05'' sample_db = (Inr n, t) \<and>
      jStatus (dbJobs t ! 3) = CANCELLED \<and> dbJobs t ! 1 = dbJobs sample_db ! 1)"
proof -
  obtain n t where t: "cancelDisabled ''2026-01-05'' sample_db = (Inr n, t)"
    and all: "\<forall>i < length (dbJobs sample_db).
       let j = dbJobs sample_db ! i; j' = dbJobs t ! i in
       if is_unsent (jStatus j) \<and> blocked sample_db (jDestinationJid j)
       then jStatus j' = CANCELLED \<and> jLastErrorClass j' = Some ''DESTINATION_ERROR''
       else j' = j"
    using cancelDisabled_clears [OF sample_db_ok, of "''2026-01-05''"] by blast
  have l: "length (dbJobs sample_db) = 6" by code_simp
  have "is_unsent (jStatus (dbJobs sample_db ! 3)) \<and>
      blocked sample_db (jDestinationJid (dbJobs sample_db ! 3))"
    and "\<not> (is_unsent (jStatus (dbJobs sample_db ! 1)) \<and>
      blocked sample_db (jDestinationJid (dbJobs sample_db ! 1)))"
    by code_simp+
  then show ?thesis
    using t sample_db_ok all [rule_format, of 3] all [rule_format, of 1] l by (auto simp: Let_def)
qed

subsection \<open>Recovery after a crash\<close>

lemma forE_audit:
  "forE us (\<lambda>u. insertAudit e (a u) now) s =
    (Inr (replicate (length us) ()), fold (\<lambda>u. after (insertAudit e (a u) now)) us s)"
  by (rule forE_fold) (simp add: insertAudit_def after_def)

lemma fold_audit_tables:
  "dbJobs (fold (\<lambda>u. after (insertAudit e (a u) now)) us s) = dbJobs s \<and>
   map (\<lambda>x. (aEventType x, aEntityId x))
     (dbAudit (fold (\<lambda>u. after (insertAudit e (a u) now)) us s)) =
   map (\<lambda>x. (aEventType x, aEntityId x)) (dbAudit s) @ map (\<lambda>u. (e, aoEntityId (a u))) us"
proof (induction us arbitrary: s)
  case (Cons u us)
  show ?case
    using Cons.IH [of "after (insertAudit e (a u) now) s"]
    by (simp add: insertAudit_def after_def)
qed simp

text \<open>
  Recovery at startup: every job found in \<open>PROCESSING\<close>, whose delivery is uncertain, is set
  aside as \<open>REVIEW_REQUIRED\<close> and audited, none stays in \<open>PROCESSING\<close>, and no other job changes.
\<close>

theorem recovery_quarantines:
  assumes ok: "db_ok s"
  shows "\<exists>t. recoverStaleProcessing now s = (Inr (count_status PROCESSING (dbJobs s)), t) \<and>
    dbJobs t = update_where (\<lambda>j. jStatus j = PROCESSING) (review_row now) (dbJobs s) \<and>
    (\<forall>j \<in> set (dbJobs t). jStatus j \<noteq> PROCESSING) \<and>
    map (\<lambda>x. (aEventType x, aEntityId x)) (dbAudit t) =
      map (\<lambda>x. (aEventType x, aEntityId x)) (dbAudit s) @
      map (\<lambda>j. (''job_review_required'', Some (jUuid j)))
        (filter (\<lambda>j. jStatus j = PROCESSING) (dbJobs s))"
proof -
  let ?P = "\<lambda>j. jStatus j = PROCESSING"
  let ?s' = "s\<lparr>dbJobs := update_where ?P (review_row now) (dbJobs s)\<rparr>"
  let ?us = "map jUuid (filter ?P (dbJobs s))"
  define a where "a = (\<lambda>u. \<lparr>aoActor = Some ''startup'', aoEntityType = Some ''job'', aoEntityId = Some u,
    aoDetails = Some (JObj [(''reason'', JStr ''delivery_uncertain_after_restart'')])\<rparr>)"
  let ?t = "fold (\<lambda>u. after (insertAudit ''job_review_required'' (a u) now)) ?us ?s'"
  have up: "update_jobs ?P (review_row now) s = (Inr (length (filter ?P (dbJobs s))), ?s')"
    by (rule update_jobs_passive)
      (auto simp: is_active_def review_row_def jobs_ok_keys [OF ok])
  have run: "recoverStaleProcessing now s = (Inr (count_status PROCESSING (dbJobs s)), ?t)"
    unfolding recoverStaleProcessing_def immediateTransaction_def
    by (simp add: run_atomically run_bind up a_def forE_audit count_status_def)
  note tabs = fold_audit_tables [of "''job_review_required''" a now ?us ?s']
  have "dbJobs ?t = update_where ?P (review_row now) (dbJobs s)"
    using tabs by simp
  moreover from this have "\<forall>j \<in> set (dbJobs ?t). jStatus j \<noteq> PROCESSING"
    by (auto simp: update_where_def)
  moreover have "map (\<lambda>x. (aEventType x, aEntityId x)) (dbAudit ?t) =
      map (\<lambda>x. (aEventType x, aEntityId x)) (dbAudit s) @
      map (\<lambda>j. (''job_review_required'', Some (jUuid j))) (filter ?P (dbJobs s))"
    using tabs by (simp add: a_def comp_def)
  ultimately show ?thesis using run by blast
qed

theorem recovery_quarantines_witness:
  "db_ok sample_db \<and>
   (\<exists>t. recoverStaleProcessing ''2026-01-05'' sample_db = (Inr 1, t) \<and>
      (\<forall>j \<in> set (dbJobs t). jStatus j \<noteq> PROCESSING))"
proof -
  have "count_status PROCESSING (dbJobs sample_db) = 1" by code_simp
  then show ?thesis
    using recovery_quarantines [OF sample_db_ok, of "''2026-01-05''"] sample_db_ok by auto
qed

end
