(* ===== verification/DestinationRepo.thy ===== *)
theory DestinationRepo
  imports JobRepo
begin

text \<open>
  \<open>DestinationRepository\<close> of \<open>src/src/db/repositories/destination-repository.ts\<close>: the cache of
  groups, the allowlist and the aliases.  Denying or losing a destination cancels its unsent
  jobs in the same transaction.
\<close>

section \<open>Operations\<close>

text \<open>\<open>WHERE jid = ? OR alias = ? COLLATE NOCASE LIMIT 1\<close>\<close>

definition matches_reference :: "string \<Rightarrow> destination \<Rightarrow> bool" where
  "matches_reference reference d \<longleftrightarrow>
     dJid d = reference \<or>
     (case dAlias d of None \<Rightarrow> False | Some a \<Rightarrow> nocase a = nocase reference)"

definition resolve :: "string \<Rightarrow> database \<Rightarrow> destination option" where
  "resolve reference s = find_first (matches_reference reference) (dbDestinations s)"

text \<open>The upsert of one discovered group; \<open>alias\<close> and \<open>enabled\<close> are not among its columns.\<close>

definition refreshed_row :: "discovered_destination \<Rightarrow> string \<Rightarrow> destination \<Rightarrow> destination" where
  "refreshed_row item now d =
     d\<lparr>dSubject := ddSubject item, dDescription := ddDescription item,
       dOwnerJid := ddOwnerJid item, dParticipantCount := ddParticipantCount item,
       dAddressingMode := ddAddressingMode item, dCanSend := (ddCanSend item \<noteq> Some False),
       dUpdatedAt := now, dLastRefreshedAt := now\<rparr>"

definition discovered_row :: "discovered_destination \<Rightarrow> string \<Rightarrow> destination" where
  "discovered_row item now =
     \<lparr>dJid = ddJid item, dSubject = ddSubject item, dDescription = ddDescription item,
      dOwnerJid = ddOwnerJid item, dParticipantCount = ddParticipantCount item,
      dAddressingMode = ddAddressingMode item, dAlias = None, dEnabled = False,
      dCanSend = (ddCanSend item \<noteq> Some False), dCreatedAt = now, dUpdatedAt = now,
      dLastRefreshedAt = now\<rparr>"

definition upsert_rows ::
    "string \<Rightarrow> discovered_destination \<Rightarrow> destination list \<Rightarrow> destination list" where
  "upsert_rows now item ds =
     (if ddJid item \<in> set (map dJid ds)
      then update_where (\<lambda>d. dJid d = ddJid item) (refreshed_row item now) ds
      else ds @ [discovered_row item now])"

definition upsertDestination :: "string \<Rightarrow> discovered_destination \<Rightarrow> unit db_io" where
  "upsertDestination now item =
     writeE (\<lambda>s. s\<lparr>dbDestinations := upsert_rows now item (dbDestinations s)\<rparr>)"

definition unsendable :: "database \<Rightarrow> string \<Rightarrow> bool" where
  "unsendable s jid \<longleftrightarrow> list_ex (\<lambda>d. dJid d = jid \<and> \<not> dCanSend d) (dbDestinations s)"

definition synchronize ::
    "discovered_destination list \<Rightarrow> string \<Rightarrow> string \<Rightarrow> nat db_io" where
  "synchronize items actor now =
     immediateTransaction
       (bindE (forE items (upsertDestination now)) (\<lambda>_.
        bindE (readE id) (\<lambda>s.
        bindE (update_jobs (\<lambda>j. is_unsent (jStatus j) \<and> unsendable s (jDestinationJid j))
                 (cancelled_row now ''Destination no longer allows sending'')) (\<lambda>_.
        bindE (insertAudit ''group_refresh''
                 \<lparr>aoActor = Some actor, aoEntityType = Some ''destination'', aoEntityId = None,
                  aoDetails = Some (JObj [(''discovered'', JNum (int (length items)))])\<rparr> now) (\<lambda>_.
        ret (length items))))))"

text \<open>
  \<open>ORDER BY subject COLLATE NOCASE, jid\<close>.
\<close>

definition list_destinations :: "bool \<Rightarrow> database \<Rightarrow> destination list" where
  "list_destinations enabledOnly s =
     sort_key (\<lambda>d. (nocase (dSubject d), dJid d))
       (if enabledOnly then filter dEnabled (dbDestinations s) else dbDestinations s)"

text \<open>An \<open>UPDATE\<close> of \<open>destinations\<close>: the alias is unique up to the case of ASCII letters.\<close>

definition update_destinations ::
    "(destination \<Rightarrow> bool) \<Rightarrow> (destination \<Rightarrow> destination) \<Rightarrow> unit db_io" where
  "update_destinations P f =
     (\<lambda>s. let ds = update_where P f (dbDestinations s) in
        if distinct (alias_keys ds) then (Inr (), s\<lparr>dbDestinations := ds\<rparr>)
        else (Inl (SqliteError (UniqueConstraint ''destinations.alias'')), s))"

definition setEnabled :: "string \<Rightarrow> bool \<Rightarrow> string \<Rightarrow> string \<Rightarrow> destination db_io" where
  "setEnabled reference enabled actor now =
     bindE (readE (resolve reference)) (\<lambda>found.
       case found of
         None \<Rightarrow> throw (NotFoundError (''Unknown destination: '' @ reference))
       | Some d \<Rightarrow>
           bindE (immediateTransaction
             (bindE (update_destinations (\<lambda>x. dJid x = dJid d)
                       (\<lambda>x. x\<lparr>dEnabled := enabled, dUpdatedAt := now\<rparr>)) (\<lambda>_.
              bindE (if enabled then ret 0
                     else update_jobs
                       (\<lambda>j. jDestinationJid j = dJid d \<and> is_unsent (jStatus j))
                       (cancelled_row now ''Destination was removed from the allowlist''))
                (\<lambda>cancelled.
              insertAudit (if enabled then ''group_allowed'' else ''group_denied'')
                \<lparr>aoActor = Some actor, aoEntityType = Some ''destination'',
                 aoEntityId = Some (dJid d),
                 aoDetails = Some (JObj [(''cancelledJobs'', JNum (int cancelled))])\<rparr> now)))) (\<lambda>_.
           bindE (readE (resolve (dJid d))) (\<lambda>updated.
             case updated of
               None \<Rightarrow> throw (PlainError ''Destination disappeared after update'')
             | Some x \<Rightarrow> ret x)))"

definition alias_head :: "char \<Rightarrow> bool" where
  "alias_head c \<longleftrightarrow> is_lower_letter c \<or> is_upper_letter c \<or> is_digit c"

definition alias_tail :: "char \<Rightarrow> bool" where
  "alias_tail c \<longleftrightarrow> alias_head c \<or> c = CHR ''.'' \<or> c = CHR ''_'' \<or> c = CHR ''-''"

fun is_alias :: "string \<Rightarrow> bool" where
  "is_alias [] = False"
| "is_alias (c # cs) \<longleftrightarrow> alias_head c \<and> length cs \<le> 63 \<and> list_all alias_tail cs"

definition normalize_alias :: "string option \<Rightarrow> string option" where
  "normalize_alias al =
     (case al of None \<Rightarrow> None
      | Some a \<Rightarrow> (if js_trim a = [] then None else Some (js_trim a)))"

definition alias_row :: "string option \<Rightarrow> string \<Rightarrow> destination \<Rightarrow> destination" where
  "alias_row al now d = d\<lparr>dAlias := al, dUpdatedAt := now\<rparr>"

definition setAlias :: "string \<Rightarrow> string option \<Rightarrow> string \<Rightarrow> string \<Rightarrow> destination db_io" where
  "setAlias reference al actor now =
     bindE (readE (resolve reference)) (\<lambda>found.
       case found of
         None \<Rightarrow> throw (NotFoundError (''Unknown destination: '' @ reference))
       | Some d \<Rightarrow>
           (let normalized = normalize_alias al in
            if (case normalized of None \<Rightarrow> False | Some a \<Rightarrow> \<not> is_alias a)
            then throw (PlainError
              ''Alias must contain only letters, numbers, dot, underscore, or hyphen'')
            else
              bindE (immediateTransaction
                (bindE (update_destinations (\<lambda>x. dJid x = dJid d)
                          (alias_row normalized now)) (\<lambda>_.
                 insertAudit
                   (if normalized = None then ''group_alias_removed'' else ''group_alias_set'')
                   \<lparr>aoActor = Some actor, aoEntityType = Some ''destination'',
                    aoEntityId = Some (dJid d),
                    aoDetails = map_option (\<lambda>a. JObj [(''alias'', JStr a)]) normalized\<rparr> now))) (\<lambda>_.
              bindE (readE (resolve (dJid d))) (\<lambda>updated.
                case updated of
                  None \<Rightarrow> throw (PlainError ''Destination disappeared after alias update'')
                | Some x \<Rightarrow> ret x))))"

definition setCanSend :: "string \<Rightarrow> bool \<Rightarrow> string \<Rightarrow> unit db_io" where
  "setCanSend jid canSend now =
     immediateTransaction
       (bindE (update_destinations (\<lambda>x. dJid x = jid)
                 (\<lambda>x. x\<lparr>dCanSend := canSend, dUpdatedAt := now\<rparr>)) (\<lambda>_.
        if canSend then ret ()
        else bindE (update_jobs (\<lambda>j. jDestinationJid j = jid \<and> is_unsent (jStatus j))
                      (cancelled_row now ''Destination no longer allows sending'')) (\<lambda>_. ret ())))"

section \<open>Soundness\<close>

lemma db_ok_destinations:
  "db_ok s \<Longrightarrow> set (map dJid (dbDestinations s)) \<subseteq> set (map dJid ds) \<Longrightarrow>
   distinct (map dJid ds) \<Longrightarrow> distinct (alias_keys ds) \<Longrightarrow> db_ok (s\<lparr>dbDestinations := ds\<rparr>)"
  by (auto simp: db_ok_defs references_ok_def)

lemma keeps_sound_update_destinations [keeps_intro]:
  assumes "\<And>d. dJid (f d) = dJid d"
  shows "keeps sound (update_destinations P f)"
proof (rule keepsI)
  fix s :: database
  have m: "map dJid (update_where P f (dbDestinations s)) = map dJid (dbDestinations s)"
    by (rule map_update_where) (rule assms)
  then have "db_ok s \<Longrightarrow> distinct (alias_keys (update_where P f (dbDestinations s))) \<Longrightarrow>
      db_ok (s\<lparr>dbDestinations := update_where P f (dbDestinations s)\<rparr>)"
    by (intro db_ok_destinations) (simp_all only: m, simp_all add: db_ok_defs)
  then show "sound s (after (update_destinations P f) s)"
    by (simp add: sound_def after_def update_destinations_def Let_def evolution.refl
        jobs_evolve_same)
qed

lemma alias_keys_append: "alias_keys (xs @ ys) = alias_keys xs @ alias_keys ys"
  by (simp add: alias_keys_def List.map_filter_def)

lemma alias_keys_update:
  "(\<And>d. dAlias (f d) = dAlias d) \<Longrightarrow> alias_keys (update_where P f ds) = alias_keys ds"
  by (induction ds) (auto simp: alias_keys_def List.map_filter_def)

lemma refreshed_row_simps [simp]:
  "dJid (refreshed_row i now d) = dJid d" "dAlias (refreshed_row i now d) = dAlias d"
  "dEnabled (refreshed_row i now d) = dEnabled d"
  "dCreatedAt (refreshed_row i now d) = dCreatedAt d"
  by (simp_all add: refreshed_row_def)

lemma discovered_row_simps [simp]:
  "dJid (discovered_row i now) = ddJid i" "dAlias (discovered_row i now) = None"
  "dEnabled (discovered_row i now) = False"
  by (simp_all add: discovered_row_def)

lemma upsert_rows_jids:
  "map dJid (upsert_rows now i ds) =
    (if ddJid i \<in> set (map dJid ds) then map dJid ds else map dJid ds @ [ddJid i])"
  by (auto simp: upsert_rows_def map_update_where)

lemma upsert_rows_aliases: "alias_keys (upsert_rows now i ds) = alias_keys ds"
  by (auto simp: upsert_rows_def alias_keys_update alias_keys_append)

lemma keeps_sound_upsert [keeps_intro]: "keeps sound (upsertDestination now i)"
  unfolding upsertDestination_def
proof (rule keeps_sound_write)
  fix s :: database
  assume ok: "db_ok s"
  show "db_ok (s\<lparr>dbDestinations := upsert_rows now i (dbDestinations s)\<rparr>)"
    by (rule db_ok_destinations [OF ok])
      (use ok in \<open>auto simp: upsert_rows_jids upsert_rows_aliases db_ok_defs\<close>)
qed simp_all

lemma sound_synchronize [keeps_intro]: "keeps sound (synchronize items actor now)"
  unfolding synchronize_def
  by (intro keeps_intro keeps_sound_update_jobs) (auto simp: cancelled_row_evolves)

lemma sound_setEnabled [keeps_intro]: "keeps sound (setEnabled r e actor now)"
  unfolding setEnabled_def
  by (intro keeps_intro keeps_sound_update_jobs) (auto simp: cancelled_row_evolves)

lemma alias_row_jid [simp]: "dJid (alias_row al now d) = dJid d"
  by (simp add: alias_row_def)

lemma sound_setAlias [keeps_intro]: "keeps sound (setAlias r al actor now)"
  unfolding setAlias_def Let_def by (intro keeps_intro) auto

lemma sound_setCanSend [keeps_intro]: "keeps sound (setCanSend jid c now)"
  unfolding setCanSend_def
  by (intro keeps_intro keeps_sound_update_jobs) (auto simp: cancelled_row_evolves)

section \<open>What the operations do\<close>

lemma resolve_SomeD: "resolve r s = Some d \<Longrightarrow> d \<in> set (dbDestinations s) \<and> matches_reference r d"
  by (auto simp: resolve_def dest: find_first_SomeD)

lemma update_destinations_plain:
  assumes "db_ok s" and "\<And>d. dAlias (f d) = dAlias d"
  shows "update_destinations P f s =
    (Inr (), s\<lparr>dbDestinations := update_where P f (dbDestinations s)\<rparr>)"
  using assms by (simp add: update_destinations_def Let_def alias_keys_update db_ok_defs)

text \<open>
  The shape the program gives its data: group JIDs contain an at sign, aliases passed
  \<open>is_alias\<close> and so do not.  Then a reference names at most one destination, and which of the
  two conditions of the query is tried first does not matter.
\<close>

definition references_apart :: "database \<Rightarrow> bool" where
  "references_apart s \<longleftrightarrow>
     (\<forall>d \<in> set (dbDestinations s). CHR ''@'' \<in> set (dJid d) \<and>
        (case dAlias d of None \<Rightarrow> True | Some a \<Rightarrow> is_alias a))"

lemma alias_tail_no_at: "\<not> alias_tail (CHR ''@'')"
  by (simp add: alias_tail_def alias_head_def is_lower_letter_def is_upper_letter_def is_digit_def)

lemma is_alias_no_at: "is_alias a \<Longrightarrow> CHR ''@'' \<notin> set a"
  using alias_tail_no_at by (cases a) (auto simp: alias_tail_def list_all_iff)

lemma nocase_at: "CHR ''@'' \<in> set (nocase s) \<longleftrightarrow> CHR ''@'' \<in> set s"
proof -
  have "nocase_char c = CHR ''@'' \<longleftrightarrow> c = CHR ''@''" for c
  proof
    assume a: "nocase_char c = CHR ''@''"
    show "c = CHR ''@''"
    proof (cases "65 \<le> (of_char c :: nat) \<and> (of_char c :: nat) \<le> 90")
      case True
      then have "of_char (nocase_char c) = (of_char c :: nat) + 32"
        by (simp add: nocase_char_def Let_def take_bit_eq_mod)
      with a True show ?thesis by simp
    next
      case False
      with a show ?thesis by (simp add: nocase_char_def Let_def split: if_splits)
    qed
  qed (simp add: nocase_char_def Let_def)
  then show ?thesis unfolding nocase_def set_map image_iff by metis
qed

lemma alias_keys_mem: "d \<in> set ds \<Longrightarrow> dAlias d = Some a \<Longrightarrow> nocase a \<in> set (alias_keys ds)"
  by (induction ds) (auto split: option.split)

lemma alias_keys_unique:
  "distinct (alias_keys ds) \<Longrightarrow> d \<in> set ds \<Longrightarrow> e \<in> set ds \<Longrightarrow> dAlias d = Some a \<Longrightarrow>
   dAlias e = Some b \<Longrightarrow> nocase a = nocase b \<Longrightarrow> d = e"
proof (induction ds)
  case (Cons x xs)
  then show ?case
    using alias_keys_mem [of d xs a] alias_keys_mem [of e xs b]
    by (cases "dAlias x") auto
qed simp

lemma resolve_unique:
  assumes ok: "db_ok s" and ap: "references_apart s"
    and d: "d \<in> set (dbDestinations s)" and m: "matches_reference r d"
  shows "resolve r s = Some d"
proof -
  have uniq: "e = d" if e: "e \<in> set (dbDestinations s)" and me: "matches_reference r e" for e
  proof -
    have jid: "distinct (map dJid (dbDestinations s))"
      and al: "distinct (alias_keys (dbDestinations s))"
      using ok by (simp_all add: db_ok_defs)
    have at: "CHR ''@'' \<in> set r" if "x \<in> set (dbDestinations s)" "dJid x = r" for x
      using ap that by (auto simp: references_apart_def)
    have noat: "CHR ''@'' \<notin> set r"
      if "x \<in> set (dbDestinations s)" "dAlias x = Some a" "nocase a = nocase r" for x a
      using ap that is_alias_no_at [of a] nocase_at [of a] nocase_at [of r]
      by (force simp: references_apart_def)
    show "e = d"
    proof (cases "CHR ''@'' \<in> set r")
      case True
      with noat d e m me have "dJid d = r" "dJid e = r"
        by (auto simp: matches_reference_def split: option.splits)
      with jid d e show ?thesis by (auto intro: distinct_map_eq)
    next
      case False
      with at d e m me obtain a b where "dAlias d = Some a" "nocase a = nocase r"
        and "dAlias e = Some b" "nocase b = nocase r"
        by (auto simp: matches_reference_def split: option.splits)
      with alias_keys_unique [OF al e d] show ?thesis by simp
    qed
  qed
  show ?thesis
    unfolding resolve_def
    by (rule find_first_unique [where x = d and P = "matches_reference r"])
      (rule d, rule m, rule uniq, assumption+)
qed

lemma resolve_own_jid:
  "db_ok s \<Longrightarrow> references_apart s \<Longrightarrow> d \<in> set (dbDestinations s) \<Longrightarrow> resolve (dJid d) s = Some d"
  by (rule resolve_unique) (simp_all add: matches_reference_def)

text \<open>
  A reference is unambiguous: whatever its case, it matches at most one destination, the
  one \<open>resolve\<close> returns.
\<close>

theorem resolve_unambiguous:
  assumes "db_ok s" and "references_apart s"
    and "d \<in> set (dbDestinations s)" and "matches_reference r d"
  shows "resolve r s = Some d"
  using assms by (rule resolve_unique)

theorem resolve_unambiguous_witness:
  "resolve ''OPS'' sample_db = Some (sample_destination ''1@g.us'' (Some ''ops'') True)"
  by (rule resolve_unambiguous [OF sample_db_ok]) code_simp+

lemma references_apart_update:
  "references_apart s \<Longrightarrow> dbDestinations t = update_where P f (dbDestinations s) \<Longrightarrow>
   (\<And>d. dJid (f d) = dJid d) \<Longrightarrow> (\<And>d. dAlias (f d) = dAlias d) \<Longrightarrow> references_apart t"
  by (auto simp: references_apart_def set_update_where)

text \<open>
  Taking a destination off the allowlist cancels all of its unsent jobs in the same
  transaction; jobs being delivered, finished jobs and every other destination's jobs stay as
  they are.
\<close>

theorem deny_cancels_unsent:
  assumes ok: "db_ok s" and ap: "references_apart s" and r: "resolve r s = Some d"
  shows "\<exists>t. setEnabled r False actor now s =
      (Inr (d\<lparr>dEnabled := False, dUpdatedAt := now\<rparr>), t) \<and>
    dbDestinations t = update_where (\<lambda>e. dJid e = dJid d)
      (\<lambda>e. e\<lparr>dEnabled := False, dUpdatedAt := now\<rparr>) (dbDestinations s) \<and>
    dbJobs t = update_where (\<lambda>j. jDestinationJid j = dJid d \<and> is_unsent (jStatus j))
      (cancelled_row now ''Destination was removed from the allowlist'') (dbJobs s) \<and>
    (\<forall>j \<in> set (dbJobs t). jDestinationJid j = dJid d \<longrightarrow> \<not> is_unsent (jStatus j))"
proof -
  let ?f = "\<lambda>e. e\<lparr>dEnabled := False, dUpdatedAt := now\<rparr>"
  let ?ds = "update_where (\<lambda>e. dJid e = dJid d) ?f (dbDestinations s)"
  let ?P = "\<lambda>j. jDestinationJid j = dJid d \<and> is_unsent (jStatus j)"
  let ?js = "update_where ?P (cancelled_row now ''Destination was removed from the allowlist'') (dbJobs s)"
  let ?u = "s\<lparr>dbDestinations := ?ds, dbJobs := ?js\<rparr>"
  have d: "d \<in> set (dbDestinations s)" using resolve_SomeD [OF r] by simp
  have up: "update_destinations (\<lambda>e. dJid e = dJid d) ?f s = (Inr (), s\<lparr>dbDestinations := ?ds\<rparr>)"
    by (rule update_destinations_plain [OF ok]) simp
  have uj: "update_jobs ?P (cancelled_row now ''Destination was removed from the allowlist'')
      (s\<lparr>dbDestinations := ?ds\<rparr>) = (Inr (length (filter ?P (dbJobs s))), ?u)"
    by (subst update_jobs_passive)
      (auto simp: is_active_def cancelled_row_def jobs_ok_keys [OF ok])
  define t where "t = after (insertAudit ''group_denied''
      \<lparr>aoActor = Some actor, aoEntityType = Some ''destination'', aoEntityId = Some (dJid d),
       aoDetails = Some (JObj [(''cancelledJobs'', JNum (int (length (filter ?P (dbJobs s)))))])\<rparr> now) ?u"
  have t: "dbDestinations t = ?ds" "dbJobs t = ?js" by (simp_all add: t_def)
  have "resolve (dJid d) t =
      map_option (\<lambda>e. if dJid e = dJid d then ?f e else e) (resolve (dJid d) s)"
    unfolding resolve_def t update_where_def
    by (rule find_first_map) (simp add: matches_reference_def)
  then have get: "resolve (dJid d) t = Some (?f d)"
    by (simp add: resolve_own_jid [OF ok ap d])
  have run: "setEnabled r False actor now s = (Inr (?f d), t)"
    using get unfolding setEnabled_def immediateTransaction_def
    by (simp add: r run_bind run_atomically up uj insertAudit_eq t_def [symmetric])
  moreover have "\<forall>j \<in> set (dbJobs t). jDestinationJid j = dJid d \<longrightarrow> \<not> is_unsent (jStatus j)"
    unfolding t by (auto simp: update_where_def is_unsent_def unsent_statuses_def)
  ultimately show ?thesis using t by blast
qed

theorem deny_cancels_unsent_witness:
  "\<exists>t. setEnabled ''ops'' False ''cli'' ''2026-01-05'' sample_db =
      (Inr ((sample_destination ''1@g.us'' (Some ''ops'') True)
         \<lparr>dEnabled := False, dUpdatedAt := ''2026-01-05''\<rparr>), t) \<and>
    jStatus (dbJobs t ! 0) = CANCELLED \<and> jStatus (dbJobs t ! 4) = PROCESSING"
proof -
  have r: "resolve ''ops'' sample_db = Some (sample_destination ''1@g.us'' (Some ''ops'') True)"
    and ap: "references_apart sample_db"
    and js: "(\<lambda>js. jStatus (js ! 0) = CANCELLED \<and> jStatus (js ! 4) = PROCESSING)
      (update_where (\<lambda>j. jDestinationJid j = dJid (sample_destination ''1@g.us'' (Some ''ops'') True) \<and>
         is_unsent (jStatus j))
      (cancelled_row ''2026-01-05'' ''Destination was removed from the allowlist'') (dbJobs sample_db))"
    by code_simp+
  show ?thesis
    using deny_cancels_unsent [OF sample_db_ok ap r, of "''cli''" "''2026-01-05''"] js
    by fastforce
qed

subsection \<open>Refresh\<close>

text \<open>
  What a refresh keeps of a list of rows: every known row stays at its place with its JID,
  alias, permission and creation time; a row that was not there is disabled, has no alias and
  comes from the items.
\<close>

definition keeps_choices ::
    "discovered_destination list \<Rightarrow> destination list \<Rightarrow> destination list \<Rightarrow> bool" where
  "keeps_choices items ds es \<longleftrightarrow>
     list_all2 (\<lambda>d e. dJid e = dJid d \<and> dAlias e = dAlias d \<and> dEnabled e = dEnabled d \<and>
        dCreatedAt e = dCreatedAt d) ds (take (length ds) es) \<and>
     (\<forall>e \<in> set (drop (length ds) es).
        \<not> dEnabled e \<and> dAlias e = None \<and> dJid e \<in> ddJid ` set items)"

lemma keeps_choices_refl: "keeps_choices items ds ds"
  by (simp add: keeps_choices_def list.rel_refl)

lemma length_upsert_rows: "length ds \<le> length (upsert_rows now i ds)"
  by (simp add: upsert_rows_def)

lemma keeps_choices_length: "keeps_choices items ds es \<Longrightarrow> length ds \<le> length es"
  by (auto simp: keeps_choices_def dest: list_all2_lengthD)

lemma keeps_choices_upsert:
  assumes "keeps_choices items ds es" and "i \<in> set items"
  shows "keeps_choices items ds (upsert_rows now i es)"
proof (cases "ddJid i \<in> set (map dJid es)")
  case True
  have "take n (update_where P f xs) = update_where P f (take n xs)"
    and "drop n (update_where P f xs) = update_where P f (drop n xs)" for n P f and xs :: "destination list"
    by (simp_all add: update_where_def take_map drop_map)
  with assms True show ?thesis
    by (auto simp: keeps_choices_def upsert_rows_def list_all2_conv_all_nth update_where_def
        intro: rev_image_eqI)
next
  case False
  with assms keeps_choices_length [OF assms(1)] show ?thesis
    by (auto simp: keeps_choices_def upsert_rows_def)
qed

lemma forE_upsert:
  "forE items (upsertDestination now) s =
    (Inr (replicate (length items) ()),
     s\<lparr>dbDestinations := fold (upsert_rows now) items (dbDestinations s)\<rparr>)"
proof -
  have "forE items (upsertDestination now) s =
      (Inr (replicate (length items) ()), fold (\<lambda>i. after (upsertDestination now i)) items s)"
    by (rule forE_fold) (simp add: upsertDestination_def after_def)
  moreover have "fold (\<lambda>i. after (upsertDestination now i)) items s =
      s\<lparr>dbDestinations := fold (upsert_rows now) items (dbDestinations s)\<rparr>"
    by (induction items arbitrary: s) (simp_all add: upsertDestination_def after_def)
  ultimately show ?thesis by simp
qed

lemma fold_keeps_choices:
  "set xs \<subseteq> set items \<Longrightarrow> keeps_choices items ds es \<Longrightarrow>
   keeps_choices items ds (fold (upsert_rows now) xs es)"
  by (induction xs arbitrary: es) (auto intro: keeps_choices_upsert)

lemma synchronize_result:
  assumes ok: "db_ok s"
  shows "\<exists>t. synchronize items actor now s = (Inr (length items), t) \<and>
    keeps_choices items (dbDestinations s) (dbDestinations t) \<and>
    (\<forall>j \<in> set (dbJobs t). is_unsent (jStatus j) \<longrightarrow> \<not> unsendable t (jDestinationJid j)) \<and>
    list_all2 (\<lambda>j j'. j' = j \<or> is_unsent (jStatus j) \<and> jStatus j' = CANCELLED) (dbJobs s) (dbJobs t)"
proof -
  let ?ds = "fold (upsert_rows now) items (dbDestinations s)"
  let ?s1 = "s\<lparr>dbDestinations := ?ds\<rparr>"
  let ?P = "\<lambda>j. is_unsent (jStatus j) \<and> unsendable ?s1 (jDestinationJid j)"
  let ?c = "cancelled_row now ''Destination no longer allows sending''"
  let ?s2 = "?s1\<lparr>dbJobs := update_where ?P ?c (dbJobs s)\<rparr>"
  have uj: "update_jobs ?P ?c ?s1 = (Inr (length (filter ?P (dbJobs s))), ?s2)"
    by (subst update_jobs_passive)
      (auto simp: is_active_def cancelled_row_def jobs_ok_keys [OF ok])
  define t where "t = after (insertAudit ''group_refresh''
    \<lparr>aoActor = Some actor, aoEntityType = Some ''destination'', aoEntityId = None,
     aoDetails = Some (JObj [(''discovered'', JNum (int (length items)))])\<rparr> now) ?s2"
  have t: "dbDestinations t = ?ds" "dbJobs t = update_where ?P ?c (dbJobs s)"
    by (simp_all add: t_def)
  have run: "synchronize items actor now s = (Inr (length items), t)"
    unfolding synchronize_def immediateTransaction_def
    by (simp add: run_atomically run_bind forE_upsert uj insertAudit_eq t_def [symmetric])
  have u: "unsendable t = unsendable ?s1" by (rule ext) (simp add: unsendable_def t)
  have "keeps_choices items (dbDestinations s) (dbDestinations t)"
    unfolding t by (rule fold_keeps_choices [OF subset_refl keeps_choices_refl])
  moreover have "\<forall>j \<in> set (dbJobs t). is_unsent (jStatus j) \<longrightarrow> \<not> unsendable t (jDestinationJid j)"
    unfolding u t by (auto simp: update_where_def is_unsent_def unsent_statuses_def)
  moreover have "list_all2 (\<lambda>j j'. j' = j \<or> is_unsent (jStatus j) \<and> jStatus j' = CANCELLED)
      (dbJobs s) (dbJobs t)"
    unfolding t by (rule list_all2_update_where) auto
  ultimately show ?thesis using run by blast
qed

text \<open>
  C30.  A refresh never changes what the operator decided: known destinations keep alias,
  permission and creation time, new ones arrive disabled and without an alias, and afterwards no
  unsent job is left for a destination that no longer allows sending.
\<close>

theorem refresh_keeps_choices:
  assumes ok: "db_ok s"
  shows "\<exists>t. synchronize items actor now s = (Inr (length items), t) \<and>
    keeps_choices items (dbDestinations s) (dbDestinations t) \<and>
    (\<forall>j \<in> set (dbJobs t). is_unsent (jStatus j) \<longrightarrow> \<not> unsendable t (jDestinationJid j)) \<and>
    list_all2 (\<lambda>j j'. j' = j \<or> is_unsent (jStatus j) \<and> jStatus j' = CANCELLED) (dbJobs s) (dbJobs t)"
  by (rule synchronize_result [OF assms])

theorem refresh_keeps_choices_witness:
  "db_ok sample_db \<and>
   (\<exists>t. synchronize
        [\<lparr>ddJid = ''1@g.us'', ddSubject = ''New name'', ddDescription = None, ddOwnerJid = None,
          ddParticipantCount = Some 4, ddAddressingMode = None, ddCanSend = Some False\<rparr>]
        ''daemon'' ''2026-01-05'' sample_db = (Inr (Suc 0), t) \<and>
      (\<forall>j \<in> set (dbJobs t). is_unsent (jStatus j) \<longrightarrow> \<not> unsendable t (jDestinationJid j)))"
  using refresh_keeps_choices [OF sample_db_ok, of
      "[\<lparr>ddJid = ''1@g.us'', ddSubject = ''New name'', ddDescription = None, ddOwnerJid = None,
          ddParticipantCount = Some 4, ddAddressingMode = None, ddCanSend = Some False\<rparr>]"
      "''daemon''" "''2026-01-05''"] sample_db_ok
  by auto

subsection \<open>Aliases\<close>

definition only_alias_changed ::
    "database \<Rightarrow> database \<Rightarrow> destination \<Rightarrow> string option \<Rightarrow> string \<Rightarrow> bool" where
  "only_alias_changed s t d al now \<longleftrightarrow>
     dbJobs t = dbJobs s \<and>
     dbDestinations t = update_where (\<lambda>x. dJid x = dJid d) (alias_row al now) (dbDestinations s)"

text \<open>The aliases, up to case, of the other destinations.\<close>

definition alias_taken :: "database \<Rightarrow> destination \<Rightarrow> string \<Rightarrow> bool" where
  "alias_taken s d a \<longleftrightarrow>
     nocase a \<in> set (alias_keys (filter (\<lambda>e. dJid e \<noteq> dJid d) (dbDestinations s)))"

lemma alias_keys_others:
  assumes "distinct (map dJid ds)" and "d \<in> set ds"
  shows "set (alias_keys (update_where (\<lambda>x. dJid x = dJid d) (alias_row al now) ds)) =
    set (alias_keys (filter (\<lambda>e. dJid e \<noteq> dJid d) ds)) \<union> nocase ` set_option al"
  using assms
proof (induction ds)
  case (Cons x xs)
  show ?case
  proof (cases "x = d")
    case True
    with Cons.prems have "\<And>e. e \<in> set xs \<Longrightarrow> dJid e \<noteq> dJid d"
      by (auto, metis image_eqI)
    with True show ?thesis
      by (auto simp: update_where_none filter_True alias_row_def split: option.split)
  next
    case False
    with Cons.prems have "d \<in> set xs" "dJid x \<noteq> dJid d" by auto
    with Cons show ?thesis by (auto split: option.split)
  qed
qed simp

lemma distinct_alias_update:
  assumes "distinct (map dJid ds)" and "distinct (alias_keys ds)" and "d \<in> set ds"
  shows "distinct (alias_keys (update_where (\<lambda>x. dJid x = dJid d) (alias_row al now) ds)) \<longleftrightarrow>
    (case al of None \<Rightarrow> True
     | Some a \<Rightarrow> nocase a \<notin> set (alias_keys (filter (\<lambda>e. dJid e \<noteq> dJid d) ds)))"
  using assms
proof (induction ds)
  case (Cons x xs)
  show ?case
  proof (cases "x = d")
    case True
    with Cons.prems have "\<And>e. e \<in> set xs \<Longrightarrow> dJid e \<noteq> dJid d"
      by (auto, metis image_eqI)
    with True Cons.prems show ?thesis
      by (auto simp: update_where_none filter_True alias_row_def split: option.split option.splits)
  next
    case False
    with Cons.prems have d: "d \<in> set xs" and x: "dJid x \<noteq> dJid d" by auto
    have old: "nocase b \<notin> set (alias_keys (filter (\<lambda>e. dJid e \<noteq> dJid d) xs))"
      if "dAlias x = Some b" for b
    proof -
      have "set (alias_keys (filter P xs)) \<subseteq> set (alias_keys xs)" for P
        by (induction xs) (auto split: option.split)
      with that Cons.prems(2) show ?thesis by auto
    qed
    have IH: "distinct (alias_keys (update_where (\<lambda>x. dJid x = dJid d) (alias_row al now) xs)) \<longleftrightarrow>
      (case al of None \<Rightarrow> True
       | Some a \<Rightarrow> nocase a \<notin> set (alias_keys (filter (\<lambda>e. dJid e \<noteq> dJid d) xs)))"
      using Cons d by (auto split: option.splits)
    have keys: "set (alias_keys (update_where (\<lambda>x. dJid x = dJid d) (alias_row al now) xs)) =
      set (alias_keys (filter (\<lambda>e. dJid e \<noteq> dJid d) xs)) \<union> nocase ` set_option al"
      using Cons.prems d by (intro alias_keys_others) auto
    define us where
      "us = alias_keys (update_where (\<lambda>x. dJid x = dJid d) (alias_row al now) xs)"
    define ks where "ks = alias_keys (filter (\<lambda>e. dJid e \<noteq> dJid d) xs)"
    have lists: "alias_keys (update_where (\<lambda>x. dJid x = dJid d) (alias_row al now) (x # xs)) =
        (case dAlias x of None \<Rightarrow> us | Some b \<Rightarrow> nocase b # us)"
      "alias_keys (filter (\<lambda>e. dJid e \<noteq> dJid d) (x # xs)) =
        (case dAlias x of None \<Rightarrow> ks | Some b \<Rightarrow> nocase b # ks)"
      using x by (simp_all add: us_def ks_def split: option.split)
    note facts = IH [folded us_def ks_def] keys [folded us_def ks_def]
    show ?thesis
    proof (cases "dAlias x")
      case None
      with facts(1) show ?thesis unfolding lists by (cases al) simp_all
    next
      case (Some b)
      then have "nocase b \<notin> set ks" using old by (simp add: ks_def)
      moreover from this have "nocase b \<notin> set us \<longleftrightarrow> (\<forall>a. al = Some a \<longrightarrow> nocase a \<noteq> nocase b)"
        unfolding facts(2) by auto
      moreover have "distinct us \<longleftrightarrow> (\<forall>a. al = Some a \<longrightarrow> nocase a \<notin> set ks)"
        unfolding facts(1) by (simp split: option.split)
      ultimately show ?thesis unfolding lists Some by (cases al) simp_all
    qed
  qed
qed simp

lemma setAlias_accepts:
  assumes ok: "db_ok s" and ap: "references_apart s" and r: "resolve r s = Some d"
    and n: "normalize_alias al = n"
    and free: "case n of None \<Rightarrow> True | Some a \<Rightarrow> is_alias a \<and> \<not> alias_taken s d a"
  shows "\<exists>t. setAlias r al actor now s = (Inr (alias_row n now d), t) \<and>
    only_alias_changed s t d n now"
proof -
  let ?ds = "update_where (\<lambda>x. dJid x = dJid d) (alias_row n now) (dbDestinations s)"
  let ?u = "s\<lparr>dbDestinations := ?ds\<rparr>"
  have d: "d \<in> set (dbDestinations s)" using resolve_SomeD [OF r] by simp
  have dist: "distinct (map dJid (dbDestinations s))" "distinct (alias_keys (dbDestinations s))"
    using ok by (simp_all add: db_ok_defs)
  have al: "distinct (alias_keys ?ds)"
    using free unfolding distinct_alias_update [OF dist d] by (auto simp: alias_taken_def split: option.splits)
  have up: "update_destinations (\<lambda>x. dJid x = dJid d) (alias_row n now) s = (Inr (), ?u)"
    using al by (simp add: update_destinations_def Let_def)
  define t where "t = after (insertAudit (if n = None then ''group_alias_removed'' else ''group_alias_set'')
    \<lparr>aoActor = Some actor, aoEntityType = Some ''destination'', aoEntityId = Some (dJid d),
     aoDetails = map_option (\<lambda>a. JObj [(''alias'', JStr a)]) n\<rparr> now) ?u"
  have t: "dbDestinations t = ?ds" "dbJobs t = dbJobs s" by (simp_all add: t_def)
  have jids: "map dJid ?ds = map dJid (dbDestinations s)"
    by (rule map_update_where) (simp add: alias_row_def)
  have "db_ok ?u" by (rule db_ok_destinations [OF ok]) (use jids dist al in simp_all)
  then have "db_ok t"
    using soundD(1) [OF keepsD [OF keeps_sound_audit]] by (simp add: t_def)
  moreover have "references_apart t"
    using ap free unfolding references_apart_def t
    by (auto simp: update_where_def alias_row_def split: option.splits)
  moreover have "alias_row n now d \<in> set (dbDestinations t)"
    using d unfolding t by (auto simp: update_where_def)
  ultimately have "resolve (dJid d) t = Some (alias_row n now d)"
    using resolve_own_jid [of t "alias_row n now d"] by (simp add: alias_row_def)
  then have "setAlias r al actor now s = (Inr (alias_row n now d), t)"
    using free up unfolding setAlias_def immediateTransaction_def Let_def n
    by (auto simp: r run_bind run_atomically insertAudit_eq t_def [symmetric] split: option.splits)
  with t show ?thesis by (auto simp: only_alias_changed_def)
qed

text \<open>
  Setting an alias, on each branch: an unknown reference and a malformed alias are refused,
  an alias another destination holds, in whatever case, violates the unique column, and on each
  of these the database is unchanged; otherwise exactly that destination gets the trimmed alias,
  a blank one clearing it.
\<close>

theorem setAlias_branches:
  assumes ok: "db_ok s" and ap: "references_apart s"
  shows "case resolve r s of
      None \<Rightarrow> setAlias r al actor now s = (Inl (NotFoundError (''Unknown destination: '' @ r)), s)
    | Some d \<Rightarrow>
        (case normalize_alias al of
           Some a \<Rightarrow>
             if \<not> is_alias a
             then setAlias r al actor now s = (Inl (PlainError
               ''Alias must contain only letters, numbers, dot, underscore, or hyphen''), s)
             else if alias_taken s d a
             then setAlias r al actor now s =
               (Inl (SqliteError (UniqueConstraint ''destinations.alias'')), s)
             else \<exists>t. setAlias r al actor now s = (Inr (alias_row (Some a) now d), t) \<and>
               only_alias_changed s t d (Some a) now
         | None \<Rightarrow> \<exists>t. setAlias r al actor now s = (Inr (alias_row None now d), t) \<and>
               only_alias_changed s t d None now)"
proof (cases "resolve r s")
  case None
  then show ?thesis by (simp add: setAlias_def)
next
  case (Some d)
  have d: "d \<in> set (dbDestinations s)" using resolve_SomeD [OF Some] by simp
  have dist: "distinct (map dJid (dbDestinations s))" "distinct (alias_keys (dbDestinations s))"
    using ok by (simp_all add: db_ok_defs)
  show ?thesis
  proof (cases "normalize_alias al")
    case None
    then show ?thesis using setAlias_accepts [OF ok ap Some None] by (simp add: Some)
  next
    case al: (Some a)
    have "setAlias r al actor now s = (Inl (SqliteError (UniqueConstraint ''destinations.alias'')), s)"
      if "is_alias a" "alias_taken s d a"
      using that distinct_alias_update [OF dist d, of "Some a" now]
      unfolding setAlias_def immediateTransaction_def Let_def al
      by (simp add: Some run_bind run_atomically update_destinations_def Let_def alias_taken_def)
    moreover have "setAlias r al actor now s = (Inl (PlainError
        ''Alias must contain only letters, numbers, dot, underscore, or hyphen''), s)"
      if "\<not> is_alias a"
      using that by (simp add: setAlias_def Let_def al Some)
    ultimately show ?thesis
      using setAlias_accepts [OF ok ap Some al] by (auto simp: Some al)
  qed
qed

theorem setAlias_branches_witness:
  "setAlias ''2@g.us'' (Some '' OPS '') ''cli'' ''2026-01-05'' sample_db =
     (Inl (SqliteError (UniqueConstraint ''destinations.alias'')), sample_db)"
proof -
  let ?d = "sample_destination ''2@g.us'' None False"
  have "references_apart sample_db" "resolve ''2@g.us'' sample_db = Some ?d"
    "normalize_alias (Some '' OPS '') = Some ''OPS''" "is_alias ''OPS''"
    "alias_taken sample_db ?d ''OPS''"
    by code_simp+
  then show ?thesis
    using setAlias_branches [OF sample_db_ok, of "''2@g.us''" "Some '' OPS ''" "''cli''" "''2026-01-05''"]
    by simp
qed

end
