(* ===== verification/GroupSetRepo.thy ===== *)
theory GroupSetRepo
  imports JobRepo
begin

text \<open>
  \<open>GroupSetRepository\<close> of \<open>src/src/db/repositories/group-set-repository.ts\<close>: named sets of
  groups.  A set's members refer to it by id and go with it (\<open>ON DELETE CASCADE\<close>); a member
  need not be a known destination.
\<close>

section \<open>Operations\<close>

definition member_count :: "database \<Rightarrow> nat \<Rightarrow> nat" where
  "member_count s i = length (filter (\<lambda>m. mrSetId m = i) (dbGroupSetMembers s))"

definition select_set :: "string \<Rightarrow> database \<Rightarrow> group_set_row option" where
  "select_set name s = find_first (\<lambda>g. nocase (grName g) = nocase name) (dbGroupSets s)"

definition to_group_set :: "database \<Rightarrow> group_set_row \<Rightarrow> group_set" where
  "to_group_set s g =
     \<lparr>gsId = grId g, gsName = grName g, gsMemberCount = member_count s (grId g),
      gsCreatedAt = grCreatedAt g, gsUpdatedAt = grUpdatedAt g\<rparr>"

definition gs_audit :: "string \<Rightarrow> string \<Rightarrow> string \<Rightarrow> json option \<Rightarrow> string \<Rightarrow> unit db_io" where
  "gs_audit event actor name details now =
     insertAudit event \<lparr>aoActor = Some actor, aoEntityType = Some ''group_set'',
       aoEntityId = Some name, aoDetails = details\<rparr> now"

definition gs_create :: "string \<Rightarrow> string \<Rightarrow> string \<Rightarrow> group_set option db_io" where
  "gs_create name actor now =
     immediateTransaction
       (bindE (\<lambda>s. if nocase name \<in> set (map (nocase \<circ> grName) (dbGroupSets s)) then (Inr 0, s)
                 else (Inr (1::nat), s\<lparr>dbGroupSets := dbGroupSets s @
                     [\<lparr>grId = Suc (dbGroupSetSeq s), grName = name, grCreatedAt = now,
                       grUpdatedAt = now\<rparr>],
                   dbGroupSetSeq := Suc (dbGroupSetSeq s)\<rparr>)) (\<lambda>changes.
        if changes = 0 then ret None
        else
          bindE (gs_audit ''group_set_created'' actor name None now) (\<lambda>_.
          readE (\<lambda>s. map_option (to_group_set s) (select_set name s)))))"

definition gs_get :: "string \<Rightarrow> database \<Rightarrow> group_set option" where
  "gs_get name s = map_option (to_group_set s) (select_set name s)"

definition gs_list :: "database \<Rightarrow> group_set list" where
  "gs_list s = map (to_group_set s) (sort_key (nocase \<circ> grName) (dbGroupSets s))"

text \<open>\<open>toDestination\<close> of the left join: nothing for an unknown (or empty) JID.\<close>

definition joined :: "database \<Rightarrow> string \<Rightarrow> destination option" where
  "joined s jid = (if jid = [] then None else find_first (\<lambda>d. dJid d = jid) (dbDestinations s))"

definition member_label :: "database \<Rightarrow> group_set_member_row \<Rightarrow> string" where
  "member_label s m =
     (case find_first (\<lambda>d. dJid d = mrJid m) (dbDestinations s) of
        None \<Rightarrow> mrJid m
      | Some d \<Rightarrow> or_else (dAlias d) (dSubject d))"

definition member_rows :: "database \<Rightarrow> nat \<Rightarrow> group_set_member_row list" where
  "member_rows s i = filter (\<lambda>m. mrSetId m = i) (dbGroupSetMembers s)"

definition gs_members :: "string \<Rightarrow> database \<Rightarrow> group_set_member list option" where
  "gs_members name s =
     (case gs_get name s of
        None \<Rightarrow> None
      | Some g \<Rightarrow> Some (map (\<lambda>m. \<lparr>gmJid = mrJid m, gmCreatedAt = mrCreatedAt m,
                                 gmDestination = joined s (mrJid m)\<rparr>)
          (sort_key (nocase \<circ> member_label s) (member_rows s (gsId g)))))"

definition insert_member :: "nat \<Rightarrow> string \<Rightarrow> string \<Rightarrow> nat db_io" where
  "insert_member i now jid =
     (\<lambda>s. if (i, jid) \<in> set (map (\<lambda>m. (mrSetId m, mrJid m)) (dbGroupSetMembers s))
          then (Inr 0, s)
          else (Inr 1, s\<lparr>dbGroupSetMembers := dbGroupSetMembers s @
                 [\<lparr>mrSetId = i, mrJid = jid, mrCreatedAt = now\<rparr>]\<rparr>))"

definition remove_member :: "nat \<Rightarrow> string \<Rightarrow> nat db_io" where
  "remove_member i jid =
     (\<lambda>s. (Inr (length (filter (\<lambda>m. mrSetId m = i \<and> mrJid m = jid) (dbGroupSetMembers s))),
           s\<lparr>dbGroupSetMembers :=
               filter (\<lambda>m. \<not> (mrSetId m = i \<and> mrJid m = jid)) (dbGroupSetMembers s)\<rparr>))"

definition touch_set :: "nat \<Rightarrow> string \<Rightarrow> unit db_io" where
  "touch_set i now =
     writeE (\<lambda>s. s\<lparr>dbGroupSets :=
       update_where (\<lambda>g. grId g = i) (\<lambda>g. g\<lparr>grUpdatedAt := now\<rparr>) (dbGroupSets s)\<rparr>)"

definition gs_change ::
    "(nat \<Rightarrow> string \<Rightarrow> nat db_io) \<Rightarrow> string \<Rightarrow> string \<Rightarrow> string \<Rightarrow> string list \<Rightarrow> string \<Rightarrow> string \<Rightarrow>
     membership_change option db_io" where
  "gs_change step event changedName name jids actor now =
     immediateTransaction
       (bindE (readE (select_set name)) (\<lambda>found.
          case found of
            None \<Rightarrow> ret None
          | Some g \<Rightarrow>
              bindE (forE jids (step (grId g))) (\<lambda>changes.
              bindE (touch_set (grId g) now) (\<lambda>_.
              bindE (gs_audit event actor (grName g) (Some (JObj
                       [(''requested'', JNum (int (length jids))),
                        (changedName, JNum (int (sum_list changes)))])) now) (\<lambda>_.
              ret (Some \<lparr>mcChanged = sum_list changes,
                         mcUnchanged = length jids - sum_list changes\<rparr>))))))"

definition addMembers ::
    "string \<Rightarrow> string list \<Rightarrow> string \<Rightarrow> string \<Rightarrow> membership_change option db_io" where
  "addMembers name jids actor now =
     gs_change (\<lambda>i. insert_member i now) ''group_set_members_added'' ''added'' name jids actor now"

definition removeMembers ::
    "string \<Rightarrow> string list \<Rightarrow> string \<Rightarrow> string \<Rightarrow> membership_change option db_io" where
  "removeMembers name jids actor now =
     gs_change remove_member ''group_set_members_removed'' ''removed'' name jids actor now"

definition gs_delete :: "string \<Rightarrow> string \<Rightarrow> string \<Rightarrow> bool db_io" where
  "gs_delete name actor now =
     immediateTransaction
       (bindE (readE (\<lambda>s. map_option (to_group_set s) (select_set name s))) (\<lambda>found.
          case found of
            None \<Rightarrow> ret False
          | Some g \<Rightarrow>
              bindE (writeE (\<lambda>s. s\<lparr>dbGroupSets := filter (\<lambda>x. grId x \<noteq> gsId g) (dbGroupSets s),
                       dbGroupSetMembers :=
                         filter (\<lambda>m. mrSetId m \<noteq> gsId g) (dbGroupSetMembers s)\<rparr>)) (\<lambda>_.
              bindE (gs_audit ''group_set_deleted'' actor (gsName g) (Some (JObj
                       [(''members'', JNum (int (gsMemberCount g)))])) now) (\<lambda>_.
              ret True))))"

section \<open>Soundness\<close>

lemma keeps_sound_sets:
  assumes "\<And>s. db_ok s \<Longrightarrow> group_sets_ok (after m s)"
    and "\<And>s. \<exists>g q r. after m s = s\<lparr>dbGroupSets := g, dbGroupSetSeq := q, dbGroupSetMembers := r\<rparr>"
  shows "keeps sound m"
proof (rule keepsI)
  fix s
  obtain g q r where t: "after m s = s\<lparr>dbGroupSets := g, dbGroupSetSeq := q, dbGroupSetMembers := r\<rparr>"
    using assms(2) by blast
  with assms(1) [of s] show "sound s (after m s)"
    by (auto simp: sound_def db_ok_def jobs_ok_def destinations_ok_def media_ok_def others_ok_def
        references_ok_def intro: jobs_evolve_same)
qed

lemma sound_gs_audit [keeps_intro]: "keeps sound (gs_audit e a n d now)"
  unfolding gs_audit_def by (intro keeps_intro)

lemma sound_gs_create [keeps_intro]: "keeps sound (gs_create name actor now)"
proof -
  have "keeps sound (\<lambda>s. if nocase name \<in> set (map (nocase \<circ> grName) (dbGroupSets s)) then (Inr 0, s)
      else (Inr (1::nat), s\<lparr>dbGroupSets := dbGroupSets s @
        [\<lparr>grId = Suc (dbGroupSetSeq s), grName = name, grCreatedAt = now, grUpdatedAt = now\<rparr>],
        dbGroupSetSeq := Suc (dbGroupSetSeq s)\<rparr>))"
    (is "keeps sound ?m")
  proof (rule keeps_sound_sets)
    fix s :: database
    assume "db_ok s"
    then show "group_sets_ok (after ?m s)"
      by (fastforce simp: after_def db_ok_def group_sets_ok_def sorted_wrt_append)
  next
    fix s :: database
    show "\<exists>g q r. after ?m s = s\<lparr>dbGroupSets := g, dbGroupSetSeq := q, dbGroupSetMembers := r\<rparr>"
      by (rule exI [of _ "dbGroupSets (after ?m s)"], rule exI [of _ "dbGroupSetSeq (after ?m s)"],
          rule exI [of _ "dbGroupSetMembers s"]) (simp add: after_def)
  qed
  then show ?thesis unfolding gs_create_def by (intro keeps_intro)
qed

lemma insert_member_at:
  assumes "db_ok s" and "i \<in> set (map grId (dbGroupSets s))"
  shows "db_ok (after (insert_member i now jid) s)"
  using assms by (auto simp: insert_member_def after_def db_ok_defs references_ok_def)

lemma remove_member_at: "db_ok s \<Longrightarrow> db_ok (after (remove_member i jid) s)"
  by (auto simp: remove_member_def after_def db_ok_defs references_ok_def distinct_map inj_on_def)

lemma member_steps_tables [simp]:
  "dbJobs (after (insert_member i now jid) s) = dbJobs s"
  "dbGroupSets (after (insert_member i now jid) s) = dbGroupSets s"
  "dbDestinations (after (insert_member i now jid) s) = dbDestinations s"
  "dbControllerMessages (after (insert_member i now jid) s) = dbControllerMessages s"
  "dbJobs (after (remove_member i jid) s) = dbJobs s"
  "dbGroupSets (after (remove_member i jid) s) = dbGroupSets s"
  "dbDestinations (after (remove_member i jid) s) = dbDestinations s"
  "dbControllerMessages (after (remove_member i jid) s) = dbControllerMessages s"
  by (simp_all add: insert_member_def remove_member_def after_def)

lemma member_steps_run:
  "\<exists>n. insert_member i now jid s = (Inr n, after (insert_member i now jid) s)"
  "\<exists>n. remove_member i jid s = (Inr n, after (remove_member i jid) s)"
  by (simp_all add: insert_member_def remove_member_def after_def)

lemma fold_keeps:
  "(\<And>x s. x \<in> set xs \<Longrightarrow> I s \<Longrightarrow> I (f x s)) \<Longrightarrow> I s \<Longrightarrow> I (fold f xs s)"
  by (induction xs arbitrary: s) auto

lemma sound_touch [keeps_intro]: "keeps sound (touch_set i now)"
proof -
  have "map grId (update_where P (\<lambda>g. g\<lparr>grUpdatedAt := now\<rparr>) gs) = map grId gs"
    and "map (nocase \<circ> grName) (update_where P (\<lambda>g. g\<lparr>grUpdatedAt := now\<rparr>) gs) =
      map (nocase \<circ> grName) gs" for P and gs :: "group_set_row list"
    by (simp_all add: update_where_def)
  note m = this
  show ?thesis
    unfolding touch_set_def
  proof (rule keeps_sound_write)
    fix s :: database
    assume "db_ok s"
    moreover have "(\<forall>g \<in> set (update_where P (\<lambda>g. g\<lparr>grUpdatedAt := now\<rparr>) gs). grId g \<le> q) \<longleftrightarrow>
        (\<forall>g \<in> set gs. grId g \<le> q)" for P and gs :: "group_set_row list" and q
    proof -
      have "(\<forall>g \<in> set xs. grId g \<le> q) \<longleftrightarrow> (\<forall>n \<in> set (map grId xs). n \<le> q)"
        for xs :: "group_set_row list" by simp
      then show ?thesis by (simp only: m)
    qed
    ultimately show "db_ok (s\<lparr>dbGroupSets :=
        update_where (\<lambda>g. grId g = i) (\<lambda>g. g\<lparr>grUpdatedAt := now\<rparr>) (dbGroupSets s)\<rparr>)"
      by (simp add: db_ok_defs references_ok_def m del: set_map)
  qed simp_all
qed

text \<open>A change of the members is sound when its steps are, for a set that exists.\<close>

lemma sound_gs_change:
  assumes step: "\<And>i jid s. db_ok s \<Longrightarrow> i \<in> set (map grId (dbGroupSets s)) \<Longrightarrow>
      db_ok (after (step i jid) s)"
    and run: "\<And>i jid s. \<exists>n. step i jid s = (Inr n, after (step i jid) s)"
    and jobs: "\<And>i jid s. dbJobs (after (step i jid) s) = dbJobs s"
    and sets: "\<And>i jid s. dbGroupSets (after (step i jid) s) = dbGroupSets s"
    and log: "\<And>i jid s. dbControllerMessages (after (step i jid) s) = dbControllerMessages s"
  shows "keeps sound (gs_change step event c name jids actor now)"
  unfolding gs_change_def
proof (rule keeps_sound_transaction, rule soundness.keeps_bind_read)
  fix s :: database
  show "sound s (after (case select_set name s of
       None \<Rightarrow> ret None
     | Some g \<Rightarrow>
         bindE (forE jids (step (grId g))) (\<lambda>changes.
         bindE (touch_set (grId g) now) (\<lambda>_.
         bindE (gs_audit event actor (grName g) (Some (JObj
                  [(''requested'', JNum (int (length jids))), (c, JNum (int (sum_list changes)))])) now)
           (\<lambda>_. ret (Some \<lparr>mcChanged = sum_list changes,
                         mcUnchanged = length jids - sum_list changes\<rparr>))))) s)"
  proof (cases "select_set name s")
    case None
    then show ?thesis by (simp add: after_def soundness.refl)
  next
    case (Some g)
    let ?t = "fold (\<lambda>jid. after (step (grId g) jid)) jids s"
    have g: "g \<in> set (dbGroupSets s)"
      using Some by (auto simp: select_set_def dest: find_first_SomeD)
    obtain ns where ns: "forE jids (step (grId g)) s = (Inr ns, ?t)"
      using forE_runs [of "step (grId g)" jids s] run by blast
    have "db_ok s \<Longrightarrow> db_ok ?t \<and> g \<in> set (dbGroupSets ?t)"
      by (rule fold_keeps) (use g step sets in auto)
    moreover have "dbJobs ?t = dbJobs s"
      by (rule fold_keeps [of _ "\<lambda>t. dbJobs t = dbJobs s"]) (simp_all add: jobs)
    moreover have "dbControllerMessages ?t = dbControllerMessages s"
      by (rule fold_keeps [of _ "\<lambda>t. dbControllerMessages t = dbControllerMessages s"])
        (simp_all add: log)
    ultimately have "sound s (after (forE jids (step (grId g))) s)"
      by (simp add: sound_def after_def ns jobs_evolve_same)
    then show ?thesis
      unfolding Some option.case
      by (rule soundness.at_bind) (rule keepsD, intro keeps_intro)
  qed
qed

lemma sound_addMembers [keeps_intro]: "keeps sound (addMembers name jids actor now)"
  unfolding addMembers_def
  by (rule sound_gs_change) (simp_all only: insert_member_at member_steps_run member_steps_tables)

lemma sound_removeMembers [keeps_intro]: "keeps sound (removeMembers name jids actor now)"
  unfolding removeMembers_def
  by (rule sound_gs_change) (simp_all only: remove_member_at member_steps_run member_steps_tables)

lemma sorted_wrt_map_filter: "sorted_wrt R (map f xs) \<Longrightarrow> sorted_wrt R (map f (filter P xs))"
  by (simp add: sorted_wrt_map sorted_wrt_filter)

lemma distinct_map_filter_mono: "distinct (map f xs) \<Longrightarrow> distinct (map f (filter P xs))"
  by (induction xs) auto

lemma db_ok_delete_set:
  assumes "db_ok s"
  shows "db_ok (s\<lparr>dbGroupSets := filter (\<lambda>x. grId x \<noteq> i) (dbGroupSets s),
    dbGroupSetMembers := filter (\<lambda>m. mrSetId m \<noteq> i) (dbGroupSetMembers s)\<rparr>)"
  using assms
  by (auto simp: db_ok_defs references_ok_def sorted_wrt_map_filter distinct_map_filter_mono image_iff)

lemma sound_gs_delete [keeps_intro]: "keeps sound (gs_delete name actor now)"
  unfolding gs_delete_def
  by (intro keeps_intro keeps_sound_write db_ok_delete_set) auto

section \<open>What the changes do\<close>

definition set_jids :: "database \<Rightarrow> nat \<Rightarrow> string list" where
  "set_jids s i = map mrJid (member_rows s i)"

lemma set_jids_insert:
  "set_jids (after (insert_member i now jid) s) k =
    (if k = i \<and> jid \<notin> set (set_jids s i) then set_jids s i @ [jid] else set_jids s k)"
  by (force simp: set_jids_def member_rows_def insert_member_def after_def)

lemma set_jids_remove:
  "set_jids (after (remove_member i jid) s) k =
    (if k = i then filter (\<lambda>x. x \<noteq> jid) (set_jids s i) else set_jids s k)"
  by (auto simp: set_jids_def member_rows_def remove_member_def after_def filter_map comp_def
      intro!: arg_cong [of _ _ "map mrJid"] filter_cong)

lemma length_insert:
  "\<exists>n. insert_member i now jid s = (Inr n, after (insert_member i now jid) s) \<and>
     n + length (set_jids s i) = length (set_jids (after (insert_member i now jid) s) i)"
  by (auto simp: set_jids_def member_rows_def insert_member_def after_def)

lemma length_remove:
  "\<exists>n. remove_member i jid s = (Inr n, after (remove_member i jid) s) \<and>
     n + length (set_jids (after (remove_member i jid) s) i) = length (set_jids s i)"
proof -
  have "length (filter (\<lambda>m. mrSetId m = i \<and> mrJid m = jid) ms) +
      length (filter (\<lambda>m. mrSetId m = i) (filter (\<lambda>m. \<not> (mrSetId m = i \<and> mrJid m = jid)) ms)) =
      length (filter (\<lambda>m. mrSetId m = i) ms)" for ms
    by (induction ms) auto
  then show ?thesis
    by (simp add: set_jids_def member_rows_def remove_member_def after_def)
qed

lemma forE_insert:
  "\<exists>ns t. forE jids (insert_member i now) s = (Inr ns, t) \<and>
     sum_list ns + length (set_jids s i) = length (set_jids t i) \<and>
     set (set_jids t i) = set (set_jids s i) \<union> set jids \<and>
     (\<forall>k. k \<noteq> i \<longrightarrow> set_jids t k = set_jids s k) \<and> dbJobs t = dbJobs s"
proof (induction jids arbitrary: s)
  case (Cons jid jids)
  obtain n where n: "insert_member i now jid s = (Inr n, after (insert_member i now jid) s)"
    "n + length (set_jids s i) = length (set_jids (after (insert_member i now jid) s) i)"
    using length_insert by blast
  obtain ns t where "forE jids (insert_member i now) (after (insert_member i now jid) s) = (Inr ns, t)"
    "sum_list ns + length (set_jids (after (insert_member i now jid) s) i) = length (set_jids t i)"
    "set (set_jids t i) = set (set_jids (after (insert_member i now jid) s) i) \<union> set jids"
    "\<forall>k. k \<noteq> i \<longrightarrow> set_jids t k = set_jids (after (insert_member i now jid) s) k"
    "dbJobs t = dbJobs s"
    using Cons.IH [of "after (insert_member i now jid) s"] by auto
  with n show ?case
    by (intro exI [of _ "n # ns"] exI [of _ t]) (auto simp: run_bind set_jids_insert)
qed simp

lemma forE_remove:
  "\<exists>ns t. forE jids (remove_member i) s = (Inr ns, t) \<and>
     sum_list ns + length (set_jids t i) = length (set_jids s i) \<and>
     set_jids t i = filter (\<lambda>x. x \<notin> set jids) (set_jids s i) \<and>
     (\<forall>k. k \<noteq> i \<longrightarrow> set_jids t k = set_jids s k) \<and> dbJobs t = dbJobs s"
proof (induction jids arbitrary: s)
  case (Cons jid jids)
  obtain n where n: "remove_member i jid s = (Inr n, after (remove_member i jid) s)"
    "n + length (set_jids (after (remove_member i jid) s) i) = length (set_jids s i)"
    using length_remove by blast
  obtain ns t where "forE jids (remove_member i) (after (remove_member i jid) s) = (Inr ns, t)"
    "sum_list ns + length (set_jids t i) = length (set_jids (after (remove_member i jid) s) i)"
    "set_jids t i = filter (\<lambda>x. x \<notin> set jids) (set_jids (after (remove_member i jid) s) i)"
    "\<forall>k. k \<noteq> i \<longrightarrow> set_jids t k = set_jids (after (remove_member i jid) s) k"
    "dbJobs t = dbJobs s"
    using Cons.IH [of "after (remove_member i jid) s"] by auto
  with n show ?case
    by (intro exI [of _ "n # ns"] exI [of _ t])
      (auto simp: run_bind set_jids_remove conj_commute intro: filter_cong)
qed simp

lemma distinct_set_jids: "db_ok s \<Longrightarrow> distinct (set_jids s i)"
  by (auto simp: db_ok_defs set_jids_def member_rows_def distinct_map inj_on_def)

lemma set_jids_tables [simp]:
  "set_jids (after (touch_set i now) s) k = set_jids s k"
  "dbJobs (after (touch_set i now) s) = dbJobs s"
  "set_jids (after (gs_audit e a n d now) s) k = set_jids s k"
  "dbJobs (after (gs_audit e a n d now) s) = dbJobs s"
  by (simp_all add: set_jids_def member_rows_def touch_set_def gs_audit_def after_def insertAudit_def)

lemma gs_change_run:
  assumes "select_set name s = Some g" and "forE jids (step (grId g)) s = (Inr ns, t)"
  shows "\<exists>u. gs_change step event c name jids actor now s =
      (Inr (Some \<lparr>mcChanged = sum_list ns, mcUnchanged = length jids - sum_list ns\<rparr>), u) \<and>
    (\<forall>k. set_jids u k = set_jids t k) \<and> dbJobs u = dbJobs t"
proof -
  define u where "u = after (gs_audit event actor (grName g) (Some (JObj
      [(''requested'', JNum (int (length jids))), (c, JNum (int (sum_list ns)))])) now)
    (after (touch_set (grId g) now) t)"
  have "touch_set (grId g) now t = (Inr (), after (touch_set (grId g) now) t)"
    by (simp add: touch_set_def after_def)
  with assms have "gs_change step event c name jids actor now s =
      (Inr (Some \<lparr>mcChanged = sum_list ns, mcUnchanged = length jids - sum_list ns\<rparr>), u)"
    unfolding gs_change_def immediateTransaction_def
    by (simp add: run_atomically run_bind gs_audit_def insertAudit_eq u_def)
  then show ?thesis by (auto simp: u_def)
qed

lemma addMembers_result:
  assumes ok: "db_ok s" and g: "select_set name s = Some g"
  shows "\<exists>t. addMembers name jids actor now s =
      (Inr (Some \<lparr>mcChanged = card (set jids - set (set_jids s (grId g))),
                  mcUnchanged = length jids - card (set jids - set (set_jids s (grId g)))\<rparr>), t) \<and>
    set (set_jids t (grId g)) = set (set_jids s (grId g)) \<union> set jids \<and>
    distinct (set_jids t (grId g)) \<and>
    (\<forall>k. k \<noteq> grId g \<longrightarrow> set_jids t k = set_jids s k) \<and> dbJobs t = dbJobs s"
proof -
  obtain ns t where t: "forE jids (insert_member (grId g) now) s = (Inr ns, t)"
    "sum_list ns + length (set_jids s (grId g)) = length (set_jids t (grId g))"
    "set (set_jids t (grId g)) = set (set_jids s (grId g)) \<union> set jids"
    "\<forall>k. k \<noteq> grId g \<longrightarrow> set_jids t k = set_jids s k" "dbJobs t = dbJobs s"
    using forE_insert [of jids "grId g" now s] by blast
  obtain u where u: "addMembers name jids actor now s =
      (Inr (Some \<lparr>mcChanged = sum_list ns, mcUnchanged = length jids - sum_list ns\<rparr>), u)"
    "\<forall>k. set_jids u k = set_jids t k" "dbJobs u = dbJobs t"
    using gs_change_run [OF g, where step = "\<lambda>i. insert_member i now"] t(1)
    unfolding addMembers_def by blast
  have "sound s u" using keepsD [OF sound_addMembers, of s name jids actor now] u(1)
    by (simp add: after_def)
  with ok have d: "distinct (set_jids u (grId g))" by (simp add: soundD(1) distinct_set_jids)
  have "sum_list ns + card (set (set_jids s (grId g))) = card (set (set_jids s (grId g)) \<union> set jids)"
    using t(2,3) d u(2) distinct_set_jids [OF ok] by (metis distinct_card)
  then have n: "sum_list ns = card (set jids - set (set_jids s (grId g)))"
    by (metis add.commute add_left_cancel card_Un_disjoint Diff_disjoint List.finite_set finite_Diff
        Un_Diff_cancel)
  note u(1) [unfolded n]
  moreover have "set (set_jids u (grId g)) = set (set_jids s (grId g)) \<union> set jids"
    by (simp only: u(2) t(3))
  moreover have "\<forall>k. k \<noteq> grId g \<longrightarrow> set_jids u k = set_jids s k"
    using u(2) t(4) by simp
  moreover have "dbJobs u = dbJobs s" by (simp only: u(3) t(5))
  ultimately show ?thesis using d by blast
qed

text \<open>
  Adding members to a set is a union: afterwards the set holds the old members and the
  requested ones, each once; the reported count is the number of requested JIDs that were new;
  no other set and no job is touched.
\<close>

theorem addMembers_union:
  assumes ok: "db_ok s" and g: "select_set name s = Some g"
  shows "\<exists>t. addMembers name jids actor now s =
      (Inr (Some \<lparr>mcChanged = card (set jids - set (set_jids s (grId g))),
                  mcUnchanged = length jids - card (set jids - set (set_jids s (grId g)))\<rparr>), t) \<and>
    set (set_jids t (grId g)) = set (set_jids s (grId g)) \<union> set jids \<and>
    distinct (set_jids t (grId g)) \<and>
    (\<forall>k. k \<noteq> grId g \<longrightarrow> set_jids t k = set_jids s k) \<and> dbJobs t = dbJobs s"
  by (rule addMembers_result [OF assms])

lemma removeMembers_result:
  assumes ok: "db_ok s" and g: "select_set name s = Some g"
  shows "\<exists>t. removeMembers name jids actor now s =
      (Inr (Some \<lparr>mcChanged = card (set jids \<inter> set (set_jids s (grId g))),
                  mcUnchanged = length jids - card (set jids \<inter> set (set_jids s (grId g)))\<rparr>), t) \<and>
    set_jids t (grId g) = filter (\<lambda>x. x \<notin> set jids) (set_jids s (grId g)) \<and>
    (\<forall>k. k \<noteq> grId g \<longrightarrow> set_jids t k = set_jids s k) \<and> dbJobs t = dbJobs s"
proof -
  obtain ns t where t: "forE jids (remove_member (grId g)) s = (Inr ns, t)"
    "sum_list ns + length (set_jids t (grId g)) = length (set_jids s (grId g))"
    "set_jids t (grId g) = filter (\<lambda>x. x \<notin> set jids) (set_jids s (grId g))"
    "\<forall>k. k \<noteq> grId g \<longrightarrow> set_jids t k = set_jids s k" "dbJobs t = dbJobs s"
    using forE_remove [of jids "grId g" s] by blast
  obtain u where u: "removeMembers name jids actor now s =
      (Inr (Some \<lparr>mcChanged = sum_list ns, mcUnchanged = length jids - sum_list ns\<rparr>), u)"
    "\<forall>k. set_jids u k = set_jids t k" "dbJobs u = dbJobs t"
    using gs_change_run [OF g, where step = remove_member] t(1)
    unfolding removeMembers_def by blast
  have "length (filter (\<lambda>x. x \<in> set jids) xs) + length (filter (\<lambda>x. x \<notin> set jids) xs) = length xs"
    for xs :: "string list" by (rule sum_length_filter_compl)
  with t(2,3) have "sum_list ns = length (filter (\<lambda>x. x \<in> set jids) (set_jids s (grId g)))"
    by (metis add_right_cancel)
  also have "\<dots> = card (set jids \<inter> set (set_jids s (grId g)))"
    using distinct_card [OF distinct_filter [OF distinct_set_jids [OF ok]], of "\<lambda>x. x \<in> set jids" "grId g"]
    by (simp add: Int_def conj_commute)
  finally have n: "sum_list ns = card (set jids \<inter> set (set_jids s (grId g)))" .
  note u(1) [unfolded n]
  moreover have "set_jids u (grId g) = filter (\<lambda>x. x \<notin> set jids) (set_jids s (grId g))"
    by (simp only: u(2) t(3))
  moreover have "\<forall>k. k \<noteq> grId g \<longrightarrow> set_jids u k = set_jids s k"
    using u(2) t(4) by simp
  moreover have "dbJobs u = dbJobs s" by (simp only: u(3) t(5))
  ultimately show ?thesis by blast
qed

text \<open>
  Removing members is a difference, with the same accounting.
\<close>

theorem removeMembers_difference:
  assumes ok: "db_ok s" and g: "select_set name s = Some g"
  shows "\<exists>t. removeMembers name jids actor now s =
      (Inr (Some \<lparr>mcChanged = card (set jids \<inter> set (set_jids s (grId g))),
                  mcUnchanged = length jids - card (set jids \<inter> set (set_jids s (grId g)))\<rparr>), t) \<and>
    set_jids t (grId g) = filter (\<lambda>x. x \<notin> set jids) (set_jids s (grId g)) \<and>
    (\<forall>k. k \<noteq> grId g \<longrightarrow> set_jids t k = set_jids s k) \<and> dbJobs t = dbJobs s"
  by (rule removeMembers_result [OF assms])

definition sample_set :: group_set_row where
  "sample_set = \<lparr>grId = 1, grName = ''team'', grCreatedAt = ''2026-01-01'',
     grUpdatedAt = ''2026-01-01''\<rparr>"

definition sample_sets :: database where
  "sample_sets = sample_db\<lparr>
     dbGroupSets := [sample_set],
     dbGroupSetSeq := 1,
     dbGroupSetMembers := [\<lparr>mrSetId = 1, mrJid = ''1@g.us'', mrCreatedAt = ''2026-01-01''\<rparr>]\<rparr>"

lemma sample_sets_ok: "db_ok sample_sets"
  using sample_db_ok
  by (simp add: sample_sets_def sample_set_def db_ok_def jobs_ok_def destinations_ok_def media_ok_def
      others_ok_def group_sets_ok_def references_ok_def)

lemma sample_set_found: "select_set ''Team'' sample_sets = Some sample_set"
  by code_simp

theorem addMembers_union_witness:
  "\<exists>t. addMembers ''Team'' [''1@g.us'', ''2@g.us'', ''2@g.us''] ''cli'' ''2026-01-05'' sample_sets =
      (Inr (Some \<lparr>mcChanged = 1, mcUnchanged = 2\<rparr>), t) \<and> set (set_jids t 1) = {''1@g.us'', ''2@g.us''}"
proof -
  let ?js = "[''1@g.us'', ''2@g.us'', ''2@g.us'']"
  have old: "set_jids sample_sets 1 = [''1@g.us'']" and one: "grId sample_set = 1"
    by code_simp+
  have n: "card (set ?js - set [''1@g.us'']) = 1" and m: "length ?js - 1 = 2" by code_simp+
  have "set [''1@g.us''] \<union> set ?js = {''1@g.us'', ''2@g.us''}" by auto
  then show ?thesis
    using addMembers_union [OF sample_sets_ok sample_set_found, of ?js "''cli''" "''2026-01-05''",
        unfolded one old n m]
    by (elim exE conjE) (intro exI conjI, assumption, simp only:)
qed

theorem removeMembers_difference_witness:
  "\<exists>t. removeMembers ''Team'' [''1@g.us'', ''2@g.us''] ''cli'' ''2026-01-05'' sample_sets =
      (Inr (Some \<lparr>mcChanged = 1, mcUnchanged = 1\<rparr>), t) \<and> set_jids t 1 = []"
proof -
  let ?js = "[''1@g.us'', ''2@g.us'']"
  have old: "set_jids sample_sets 1 = [''1@g.us'']" and one: "grId sample_set = 1"
    by code_simp+
  have n: "card (set ?js \<inter> set [''1@g.us'']) = 1" and m: "length ?js - 1 = 1" by code_simp+
  have "filter (\<lambda>x. x \<notin> set ?js) [''1@g.us''] = []" by simp
  then show ?thesis
    using removeMembers_difference [OF sample_sets_ok sample_set_found, of ?js "''cli''"
        "''2026-01-05''", unfolded one old n m]
    by (elim exE conjE) (intro exI conjI, assumption, simp only:)
qed

end
