(* ===== verification/Stores.thy ===== *)
theory Stores
  imports Prelude
begin

text \<open>
  The two contracts the small key-value tables of the program keep, as locales over the state:
  a store whose last write wins, where writing nothing deletes, and a store whose first put
  wins (\<open>INSERT OR IGNORE\<close>, \<open>ON CONFLICT DO NOTHING\<close>).  What a sequence of writes leaves behind is
  proved once here; the repositories interpret the locales.
\<close>

section \<open>The last write wins\<close>

locale last_write_store =
  fixes fetch :: "'k \<Rightarrow> 's \<Rightarrow> 'v option"
    and put :: "'k \<Rightarrow> 'v option \<Rightarrow> 's \<Rightarrow> 's"
  assumes fetch_written: "fetch k (put k v s) = v"
    and fetch_unwritten: "k \<noteq> k' \<Longrightarrow> fetch k (put k' v s) = fetch k s"
begin

lemma fetch_put: "fetch k (put k' v s) = (if k = k' then v else fetch k s)"
  by (simp add: fetch_written fetch_unwritten)

lemma fetch_puts:
  "fetch k (fold (\<lambda>(k, v). put k v) ws s) =
    (case map_of (rev ws) k of None \<Rightarrow> fetch k s | Some v \<Rightarrow> v)"
  by (induction ws arbitrary: s) (auto simp: fetch_put map_add_def split: option.split)

lemma fetch_puts_distinct:
  assumes "distinct (map fst ws)"
  shows "fetch k (fold (\<lambda>(k, v). put k v) ws s) =
    (case map_of ws k of None \<Rightarrow> fetch k s | Some v \<Rightarrow> v)"
proof -
  have "map_of (rev ws) = map_of ws"
    using assms by (intro map_of_inject_set [THEN iffD2]) (simp_all add: rev_map [symmetric])
  then show ?thesis by (simp add: fetch_puts)
qed

lemma put_twice: "fetch k (put k' v (put k' w s)) = fetch k (put k' v s)"
  by (simp add: fetch_put)

end

text \<open>A store that also deletes a key.\<close>

locale removable_store = last_write_store fetch put
  for fetch :: "'k \<Rightarrow> 's \<Rightarrow> 'v option" and put :: "'k \<Rightarrow> 'v option \<Rightarrow> 's \<Rightarrow> 's" +
  fixes delete :: "'k \<Rightarrow> 's \<Rightarrow> 's"
  assumes fetch_deleted: "fetch k (delete k s) = None"
    and fetch_undeleted: "k \<noteq> k' \<Longrightarrow> fetch k (delete k' s) = fetch k s"
begin

lemma delete_as_put: "fetch k (delete k' s) = fetch k (put k' None s)"
  by (cases "k = k'") (simp_all add: fetch_deleted fetch_undeleted fetch_put)

lemma fetch_delete_written: "fetch k s = None \<Longrightarrow> fetch k' (delete k (put k v s)) = fetch k' s"
  by (cases "k' = k") (simp_all add: fetch_deleted fetch_undeleted fetch_unwritten)

end

section \<open>The first write wins\<close>

locale first_write_store =
  fixes fetch :: "'k \<Rightarrow> 's \<Rightarrow> 'v option"
    and save :: "'k \<Rightarrow> 'v \<Rightarrow> 's \<Rightarrow> 's"
  assumes fetch_saved: "fetch k (save k v s) = Some (case fetch k s of None \<Rightarrow> v | Some w \<Rightarrow> w)"
    and fetch_unsaved: "k \<noteq> k' \<Longrightarrow> fetch k (save k' v s) = fetch k s"
begin

lemma fetch_saves:
  "fetch k (fold (\<lambda>(k, v). save k v) ws s) =
    (case fetch k s of None \<Rightarrow> map_of ws k | Some w \<Rightarrow> Some w)"
proof (induction ws arbitrary: s)
  case (Cons w ws)
  obtain a b where w: "w = (a, b)" by (cases w)
  have "fetch k (save a b s) =
      (if k = a then Some (case fetch k s of None \<Rightarrow> b | Some w \<Rightarrow> w) else fetch k s)"
    by (simp add: fetch_saved fetch_unsaved)
  with Cons.IH [of "save a b s"] show ?case
    by (cases "fetch k s"; cases "k = a") (auto simp: w)
qed (simp split: option.split)

lemma saved_stays: "fetch k s = Some w \<Longrightarrow> fetch k (fold (\<lambda>(k, v). save k v) ws s) = Some w"
  by (simp add: fetch_saves)

end

end
