(* ===== verification/SmallRepos.thy ===== *)
theory SmallRepos
  imports JobRepo Stores
begin

text \<open>
  The small repositories of \<open>src/src/db/repositories/\<close>: \<open>StateRepository\<close>, \<open>AuthRepository\<close> and
  \<open>ControllerRepository\<close> (key-value tables, interpretations of the store contracts),
  \<open>ForwardSourceRepository\<close>, \<open>MediaRepository\<close>, \<open>BatchRepository\<close> and \<open>AuditRepository\<close>.
\<close>

section \<open>Application state\<close>

definition state_get :: "string \<Rightarrow> database \<Rightarrow> string option" where
  "state_get key s = (case dbAppState s key of None \<Rightarrow> None | Some row \<Rightarrow> stValue row)"

definition state_set :: "string \<Rightarrow> string option \<Rightarrow> string \<Rightarrow> unit db_io" where
  "state_set key v now =
     writeE (\<lambda>s. s\<lparr>dbAppState := (dbAppState s)(key \<mapsto> \<lparr>stValue = v, stUpdatedAt = now\<rparr>)\<rparr>)"

definition state_remove :: "string \<Rightarrow> unit db_io" where
  "state_remove key = writeE (\<lambda>s. s\<lparr>dbAppState := (dbAppState s)(key := None)\<rparr>)"

interpretation app_state: removable_store
  state_get "\<lambda>k v. after (state_set k v now)" "\<lambda>k. after (state_remove k)" for now
  by unfold_locales
    (auto simp: state_get_def state_set_def state_remove_def after_def)

section \<open>WhatsApp credentials\<close>

definition auth_getCredentials :: "database \<Rightarrow> string option" where
  "auth_getCredentials s = map_option avValueJson (dbAuthCreds s)"

definition auth_saveCredentials :: "string \<Rightarrow> string \<Rightarrow> unit db_io" where
  "auth_saveCredentials valueJson now =
     immediateTransaction
       (writeE (\<lambda>s. s\<lparr>dbAuthCreds := Some \<lparr>avValueJson = valueJson, avUpdatedAt = now\<rparr>\<rparr>))"

definition auth_getKeys :: "string \<Rightarrow> string list \<Rightarrow> database \<Rightarrow> string \<rightharpoonup> string" where
  "auth_getKeys category ids s =
     (\<lambda>i. if i \<in> set ids then map_option avValueJson (dbAuthKeys s (category, i)) else None)"

definition auth_key :: "string \<times> string \<Rightarrow> database \<Rightarrow> string option" where
  "auth_key k s = map_option avValueJson (dbAuthKeys s k)"

definition auth_write_key :: "string \<Rightarrow> string \<times> string \<Rightarrow> string option \<Rightarrow> database \<Rightarrow> database" where
  "auth_write_key now k v s =
     (case v of
        None \<Rightarrow> s\<lparr>dbAuthKeys := (dbAuthKeys s)(k := None)\<rparr>
      | Some x \<Rightarrow>
          s\<lparr>dbAuthKeys := (dbAuthKeys s)(k \<mapsto> \<lparr>avValueJson = x, avUpdatedAt = now\<rparr>)\<rparr>)"

text \<open>
  \<open>setKeys\<close>: the entries of the nested objects, in the order of the two loops.
\<close>

definition auth_entries ::
    "(string \<times> (string \<times> string option) list) list \<Rightarrow> ((string \<times> string) \<times> string option) list" where
  "auth_entries updates =
     concat (map (\<lambda>(category, vs). map (\<lambda>(i, v). ((category, i), v)) vs) updates)"

definition auth_setKeys ::
    "(string \<times> (string \<times> string option) list) list \<Rightarrow> string \<Rightarrow> unit db_io" where
  "auth_setKeys updates now =
     immediateTransaction
       (bindE (forE (auth_entries updates) (\<lambda>(k, v). writeE (auth_write_key now k v))) (\<lambda>_. ret ()))"

definition auth_clear :: "unit db_io" where
  "auth_clear =
     immediateTransaction
       (bindE (writeE (\<lambda>s. s\<lparr>dbAuthKeys := Map.empty\<rparr>)) (\<lambda>_.
        writeE (\<lambda>s. s\<lparr>dbAuthCreds := None\<rparr>)))"

interpretation auth_keys: last_write_store auth_key "auth_write_key now" for now
  by unfold_locales (auto simp: auth_key_def auth_write_key_def split: option.split)

section \<open>Controller messages\<close>

definition hasProcessed :: "string \<Rightarrow> database \<Rightarrow> bool" where
  "hasProcessed messageId s \<longleftrightarrow> dbControllerMessages s messageId \<noteq> None"

definition markProcessed :: "string \<Rightarrow> string \<Rightarrow> string \<Rightarrow> bool db_io" where
  "markProcessed messageId commandHash receivedAt =
     (\<lambda>s. if hasProcessed messageId s then (Inr False, s)
          else (Inr True, s\<lparr>dbControllerMessages := (dbControllerMessages s)
                 (messageId \<mapsto> \<lparr>cmReceivedAt = receivedAt, cmCommandHash = commandHash\<rparr>)\<rparr>))"

interpretation controller_log: first_write_store
  "\<lambda>k s. dbControllerMessages s k" "\<lambda>k v. after (markProcessed k (cmCommandHash v) (cmReceivedAt v))"
  by unfold_locales
    (auto simp: markProcessed_def hasProcessed_def after_def split: option.split)

section \<open>Forward sources\<close>

definition forward_save :: "forward_source \<Rightarrow> unit db_io" where
  "forward_save source =
     writeE (\<lambda>s. if fsSourceKey source \<in> set (map fsSourceKey (dbForwardSources s)) then s
                 else s\<lparr>dbForwardSources := dbForwardSources s @ [source]\<rparr>)"

definition forward_get :: "string \<Rightarrow> database \<Rightarrow> forward_source option" where
  "forward_get sourceKey s = find_first (\<lambda>f. fsSourceKey f = sourceKey) (dbForwardSources s)"

text \<open>
  \<open>source_key.slice(source_key.indexOf('|') + 1)\<close>, which is also
  \<open>substr(source_key, instr(source_key, '|') + 1)\<close>: the whole key where there is no bar.
\<close>

definition message_part :: "string \<Rightarrow> string" where
  "message_part key =
     (if CHR ''|'' \<in> set key then tl (dropWhile (\<lambda>c. c \<noteq> CHR ''|'') key) else key)"

record forward_summary =
  smSourceKey :: string
  smMessageId :: string
  smContentType :: string
  smReceivedAt :: string
  smExpiresAt :: "string option"

definition forward_list :: "int \<Rightarrow> database \<Rightarrow> forward_summary list" where
  "forward_list limit s =
     map (\<lambda>f. \<lparr>smSourceKey = fsSourceKey f, smMessageId = message_part (fsSourceKey f),
            smContentType = fsContentType f, smReceivedAt = fsReceivedAt f,
            smExpiresAt = fsExpiresAt f\<rparr>)
       (sql_limit limit (rev (sort_key (\<lambda>f. (fsReceivedAt f, fsSourceKey f)) (dbForwardSources s))))"

definition forward_resolve :: "string \<Rightarrow> forward_source option db_io" where
  "forward_resolve reference =
     (if CHR ''|'' \<in> set reference then readE (forward_get reference)
      else bindE (readE (\<lambda>s. sql_limit 2
               (filter (\<lambda>f. message_part (fsSourceKey f) = reference) (dbForwardSources s)))) (\<lambda>rows.
             if 1 < length rows
             then throw (PlainError
               ''Source message ID is ambiguous; use the full source key from forwardsources'')
             else case rows of
               [] \<Rightarrow> ret None
             | r # _ \<Rightarrow> readE (forward_get (fsSourceKey r))))"

definition source_content :: "forward_source \<Rightarrow> string \<times> string \<times> string \<times> string option" where
  "source_content f = (fsPayload f, fsContentType f, fsReceivedAt f, fsExpiresAt f)"

definition source_of :: "string \<Rightarrow> string \<times> string \<times> string \<times> string option \<Rightarrow> forward_source" where
  "source_of key c = (case c of (payload, kind, received, expires) \<Rightarrow>
     \<lparr>fsSourceKey = key, fsPayload = payload, fsContentType = kind, fsReceivedAt = received,
      fsExpiresAt = expires\<rparr>)"

interpretation forward_store: first_write_store
  "\<lambda>k s. map_option source_content (forward_get k s)" "\<lambda>k c. after (forward_save (source_of k c))"
proof
  fix k :: string and v s
  have "fsSourceKey (source_of k v) = k" "source_content (source_of k v) = v"
    by (simp_all add: source_of_def source_content_def split: prod.split)
  moreover have "k \<in> set (map fsSourceKey (dbForwardSources s)) \<longleftrightarrow> forward_get k s \<noteq> None"
    by (auto simp: forward_get_def find_first_None_iff)
  ultimately show "map_option source_content (forward_get k (after (forward_save (source_of k v)) s)) =
    Some (case map_option source_content (forward_get k s) of None \<Rightarrow> v | Some w \<Rightarrow> w)"
    by (cases "forward_get k s")
      (simp_all add: forward_save_def after_def, simp_all add: forward_get_def find_first_append)
next
  fix k k' :: string and v s
  assume "k \<noteq> k'"
  then show "map_option source_content (forward_get k (after (forward_save (source_of k' v)) s)) =
    map_option source_content (forward_get k s)"
    by (auto simp: forward_get_def forward_save_def after_def source_of_def find_first_append
        split: prod.split option.split)
qed

section \<open>Media assets\<close>

definition media_get :: "string \<Rightarrow> database \<Rightarrow> media_asset option" where
  "media_get hash s = find_first (\<lambda>m. maHash m = hash) (dbMedia s)"

definition upsert_media :: "media_asset \<Rightarrow> media_asset list \<Rightarrow> media_asset list" where
  "upsert_media a ms =
     (if maHash a \<in> set (map maHash ms)
      then update_where (\<lambda>m. maHash m = maHash a)
             (\<lambda>m. m\<lparr>maPath := maPath a, maByteSize := maByteSize a, maMimeType := maMimeType a\<rparr>) ms
      else ms @ [a])"

text \<open>The path is unique too, and the size is checked.\<close>

definition media_upsert ::
    "string \<Rightarrow> string \<Rightarrow> int \<Rightarrow> string option \<Rightarrow> string \<Rightarrow> media_asset db_io" where
  "media_upsert hash path byteSize mimeType now =
     bindE (\<lambda>s. let ms = upsert_media \<lparr>maHash = hash, maPath = path, maByteSize = byteSize,
                        maMimeType = mimeType, maCreatedAt = now\<rparr> (dbMedia s) in
              if byteSize < 0 then (Inl (SqliteError (CheckConstraint ''byte_size >= 0'')), s)
              else if distinct (map maPath ms) then (Inr (), s\<lparr>dbMedia := ms\<rparr>)
              else (Inl (SqliteError (UniqueConstraint ''media_assets.path'')), s)) (\<lambda>_.
     bindE (readE (media_get hash)) (\<lambda>saved.
       case saved of
         None \<Rightarrow> throw (PlainError ''Media asset disappeared after upsert'')
       | Some m \<Rightarrow> ret m))"

definition removeIfUnreferenced :: "string \<Rightarrow> bool db_io" where
  "removeIfUnreferenced hash =
     (\<lambda>s. if (\<exists>m \<in> set (dbMedia s). maHash m = hash) \<and>
            \<not> (\<exists>j \<in> set (dbJobs s). jMediaHash j = Some hash)
          then (Inr True, s\<lparr>dbMedia := filter (\<lambda>m. maHash m \<noteq> hash) (dbMedia s)\<rparr>)
          else (Inr False, s))"

section \<open>Batches\<close>

definition batch_create :: "string \<Rightarrow> batch_type \<Rightarrow> nat \<Rightarrow> string \<Rightarrow> string \<Rightarrow> message_batch db_io" where
  "batch_create i type targetCount actor now =
     immediateTransaction
       (let b = \<lparr>bId = i, bType = type, bTargetCount = targetCount, bCreatedAt = now\<rparr> in
        bindE (\<lambda>s. if i \<in> set (map bId (dbBatches s))
                  then (Inl (SqliteError (UniqueConstraint ''message_batches.id'')), s)
                  else (Inr (), s\<lparr>dbBatches := dbBatches s @ [b]\<rparr>)) (\<lambda>_.
        bindE (insertAudit ''message_batch_created''
                 \<lparr>aoActor = Some actor, aoEntityType = Some ''message_batch'', aoEntityId = Some i,
                  aoDetails = Some (JObj [(''type'', JStr (show_batch_type type)),
                    (''targetCount'', JNum (int targetCount))])\<rparr> now) (\<lambda>_.
        ret b)))"

definition batch_get ::
    "string \<Rightarrow> database \<Rightarrow> (message_batch \<times> (job_status \<times> nat) list) option" where
  "batch_get i s =
     (case find_first (\<lambda>b. bId b = i) (dbBatches s) of
        None \<Rightarrow> None
      | Some b \<Rightarrow> Some (b, group_counts (filter (\<lambda>j. jBatchId j = Some i) (dbJobs s))))"

section \<open>The audit log\<close>

definition audit_add :: "string \<Rightarrow> audit_options \<Rightarrow> string \<Rightarrow> unit db_io" where
  "audit_add eventType options now = immediateTransaction (insertAudit eventType options now)"

text \<open>The rows, newest first; the details as the stored text.\<close>

definition audit_list :: "int \<Rightarrow> database \<Rightarrow> audit_row list" where
  "audit_list limit s = sql_limit limit (rev (dbAudit s))"

section \<open>Soundness\<close>

lemma sound_state_set [keeps_intro]: "keeps sound (state_set k v now)"
  unfolding state_set_def by (rule keeps_sound_write) (simp_all add: db_ok_defs references_ok_def)

lemma sound_state_remove [keeps_intro]: "keeps sound (state_remove k)"
  unfolding state_remove_def by (rule keeps_sound_write) (simp_all add: db_ok_defs references_ok_def)

lemma sound_saveCredentials [keeps_intro]: "keeps sound (auth_saveCredentials v now)"
  unfolding auth_saveCredentials_def
  by (intro keeps_intro keeps_sound_write) (simp_all add: db_ok_defs references_ok_def)

lemma sound_write_key [keeps_intro]: "keeps sound (writeE (auth_write_key now k v))"
  by (rule keeps_sound_write)
    (simp_all add: auth_write_key_def db_ok_defs references_ok_def split: option.split)

lemma sound_setKeys [keeps_intro]: "keeps sound (auth_setKeys u now)"
  unfolding auth_setKeys_def by (intro keeps_intro) (auto intro: keeps_intro)

lemma sound_auth_clear [keeps_intro]: "keeps sound auth_clear"
  unfolding auth_clear_def
  by (intro keeps_intro keeps_sound_write) (simp_all add: db_ok_defs references_ok_def)

lemma keeps_soundI:
  "(\<And>s. db_ok s \<Longrightarrow> db_ok (after m s)) \<Longrightarrow> (\<And>s. dbJobs (after m s) = dbJobs s) \<Longrightarrow>
   (\<And>s. commands_kept s (after m s)) \<Longrightarrow> keeps sound m"
  by (simp add: keeps_def sound_def jobs_evolve_same)

lemma sound_markProcessed [keeps_intro]: "keeps sound (markProcessed m h r)"
  by (rule keeps_soundI)
    (auto simp: markProcessed_def after_def db_ok_defs references_ok_def)

lemma sound_forward_save [keeps_intro]: "keeps sound (forward_save f)"
  unfolding forward_save_def
  by (rule keeps_sound_write) (auto simp: db_ok_defs references_ok_def)

lemma sound_forward_resolve [keeps_intro]: "keeps sound (forward_resolve r)"
  unfolding forward_resolve_def
  by (auto intro!: keeps_intro split: list.split)

lemma upsert_media_hashes:
  "map maHash (upsert_media a ms) =
    (if maHash a \<in> set (map maHash ms) then map maHash ms else map maHash ms @ [maHash a])"
  by (auto simp: upsert_media_def map_update_where)

lemma keeps_sound_media_row:
  "keeps sound (\<lambda>s. let ms = upsert_media a (dbMedia s) in
     if b < 0 then (Inl e, s) else if distinct (map maPath ms) then (Inr (), s\<lparr>dbMedia := ms\<rparr>)
     else (Inl e', s))"
proof (rule keeps_soundI)
  fix s :: database
  assume "db_ok s"
  then have "db_ok (s\<lparr>dbMedia := upsert_media a (dbMedia s)\<rparr>)"
    if "distinct (map maPath (upsert_media a (dbMedia s)))"
    using that by (auto simp: db_ok_defs references_ok_def upsert_media_hashes)
  with \<open>db_ok s\<close> show "db_ok (after (\<lambda>s. let ms = upsert_media a (dbMedia s) in
     if b < 0 then (Inl e, s) else if distinct (map maPath ms) then (Inr (), s\<lparr>dbMedia := ms\<rparr>)
     else (Inl e', s)) s)"
    by (simp add: after_def Let_def)
qed (simp_all add: after_def Let_def)

lemma sound_media_upsert [keeps_intro]: "keeps sound (media_upsert h p b m now)"
  unfolding media_upsert_def by (intro keeps_intro keeps_sound_media_row)

lemma sound_removeIfUnreferenced [keeps_intro]: "keeps sound (removeIfUnreferenced h)"
proof (rule keeps_soundI)
  fix s :: database
  assume ok: "db_ok s"
  let ?ms = "filter (\<lambda>m. maHash m \<noteq> h) (dbMedia s)"
  have "db_ok (s\<lparr>dbMedia := ?ms\<rparr>)" if free: "\<forall>j \<in> set (dbJobs s). jMediaHash j \<noteq> Some h"
  proof -
    have "set (map maHash (dbMedia s)) - {h} \<subseteq> set (map maHash ?ms)" by auto
    with ok free have "\<forall>j \<in> set (dbJobs s). set_option (jMediaHash j) \<subseteq> set (map maHash ?ms)"
      by (auto simp: db_ok_defs references_ok_def subset_iff)
    with ok show ?thesis
      by (simp add: db_ok_defs references_ok_def distinct_map inj_on_def)
  qed
  with ok show "db_ok (after (removeIfUnreferenced h) s)"
    by (auto simp: removeIfUnreferenced_def after_def)
qed (simp_all add: removeIfUnreferenced_def after_def)

lemma sound_batch_create [keeps_intro]: "keeps sound (batch_create i t n a now)"
proof -
  have "keeps sound (\<lambda>s. if i \<in> set (map bId (dbBatches s)) then (Inl e, s)
      else (Inr (), s\<lparr>dbBatches := dbBatches s @ [b]\<rparr>))" if "bId b = i" for b and e :: error
    by (rule keeps_soundI) (use that in \<open>auto simp: after_def db_ok_defs references_ok_def\<close>)
  then show ?thesis
    unfolding batch_create_def Let_def by (intro keeps_intro) auto
qed

lemma sound_audit_add [keeps_intro]: "keeps sound (audit_add e a now)"
  unfolding audit_add_def by (intro keeps_intro)

end
