(* ===== verification/Config.thy ===== *)
theory Config
  imports Domain Complex_Main "HOL-Library.Monad_Syntax"
begin

text \<open>
  The configuration, \<open>src/src/config/schema.ts\<close> and \<open>load.ts\<close>: defaults, coercion, bounds and the
  checks after parsing.  The number grammar of JavaScript, the path resolution of Node and the
  time-zone names the runtime knows are arguments.
\<close>

section \<open>The schema\<close>

record app_config =
  cfgDatabasePath :: string
  cfgStateDir :: string
  cfgMediaDir :: string
  cfgLockPath :: string
  cfgLogLevel :: string
  cfgTimezone :: string
  cfgDryRun :: bool
  cfgWorkerPollMs :: int
  cfgSendIntervalMs :: int
  cfgMaxAttempts :: nat
  cfgRetryBaseMs :: int
  cfgRetryMaxMs :: int
  cfgMaxMediaBytes :: int
  cfgSelfControllerEnabled :: bool
  cfgPairingPhone :: "string option"

datatype raw_bool = RawBool bool | BoolText string

datatype raw_number = RawNumber int | NumberText string

definition booleanFromEnv :: "raw_bool \<Rightarrow> bool option" where
  "booleanFromEnv v =
     (case v of
        RawBool b \<Rightarrow> Some b
      | BoolText s \<Rightarrow>
          if s \<in> {''true'', ''false'', ''1'', ''0'', ''yes'', ''no''}
          then Some (s \<in> {''true'', ''1'', ''yes''}) else None)"

definition pathValue :: "string \<Rightarrow> string option" where
  "pathValue s = (if js_trim s = [] then None else Some (js_trim s))"

definition log_levels :: "string list" where
  "log_levels = [''fatal'', ''error'', ''warn'', ''info'', ''debug'', ''trace'', ''silent'']"

definition log_level :: "string \<Rightarrow> string option" where
  "log_level s = (if s \<in> set log_levels then Some s else None)"

text \<open>
  \<open>z.coerce.number().int().min(lo).max(hi)\<close>; \<open>number\<close> is \<open>Number(text)\<close>, nothing for \<open>NaN\<close> and
  the infinities.
\<close>

definition coerce_int :: "(string \<Rightarrow> rat option) \<Rightarrow> int \<Rightarrow> int option \<Rightarrow> raw_number \<Rightarrow> int option" where
  "coerce_int number lo hi v =
     (case (case v of RawNumber n \<Rightarrow> Some (of_int n) | NumberText s \<Rightarrow> number s) of
        None \<Rightarrow> None
      | Some q \<Rightarrow>
          if q = of_int \<lfloor>q\<rfloor> \<and> lo \<le> \<lfloor>q\<rfloor> \<and> (case hi of None \<Rightarrow> True | Some h \<Rightarrow> \<lfloor>q\<rfloor> \<le> h)
          then Some \<lfloor>q\<rfloor> else None)"

section \<open>Loading\<close>

record config_overrides =
  ovDryRun :: "bool option"
  ovDatabasePath :: "string option"
  ovStateDir :: "string option"
  ovMediaDir :: "string option"
  ovLockPath :: "string option"

definition is_absolute :: "string \<Rightarrow> bool" where
  "is_absolute p \<longleftrightarrow> js_starts_with p ''/''"

definition absolutePath :: "(string \<Rightarrow> string \<Rightarrow> string) \<Rightarrow> string \<Rightarrow> string \<Rightarrow> string" where
  "absolutePath resolve v baseDir = (if is_absolute v then v else resolve baseDir v)"

definition or_default :: "'a option \<Rightarrow> 'a \<Rightarrow> 'a" where
  "or_default x d = (case x of None \<Rightarrow> d | Some y \<Rightarrow> y)"

definition number_of :: "(string \<rightharpoonup> string) \<Rightarrow> string \<Rightarrow> int \<Rightarrow> raw_number" where
  "number_of env name d = (case env name of None \<Rightarrow> RawNumber d | Some s \<Rightarrow> NumberText s)"

text \<open>\<open>configSchema.safeParse\<close> of the collected values: every field has to be valid.\<close>

definition path_value :: "(string \<rightharpoonup> string) \<Rightarrow> string option \<Rightarrow> string \<Rightarrow> string \<Rightarrow> string option" where
  "path_value env override name d = pathValue (or_default override (or_default (env name) d))"

definition number_value ::
    "(string \<Rightarrow> rat option) \<Rightarrow> (string \<rightharpoonup> string) \<Rightarrow> string \<Rightarrow> int \<Rightarrow> int \<Rightarrow> int option \<Rightarrow> int option" where
  "number_value number env name d lo hi = coerce_int number lo hi (number_of env name d)"

definition boolean_value :: "(string \<rightharpoonup> string) \<Rightarrow> bool option \<Rightarrow> string \<Rightarrow> bool option" where
  "boolean_value env override name =
     booleanFromEnv
       (case override of Some b \<Rightarrow> RawBool b
        | None \<Rightarrow> (case env name of None \<Rightarrow> RawBool False | Some s \<Rightarrow> BoolText s))"

definition parse_config ::
    "(string \<Rightarrow> rat option) \<Rightarrow> (string \<rightharpoonup> string) \<Rightarrow> config_overrides \<Rightarrow> app_config option" where
  "parse_config number env ov = do {
     db \<leftarrow> path_value env (ovDatabasePath ov) ''DATABASE_PATH'' ''./data/app.db'';
     st \<leftarrow> path_value env (ovStateDir ov) ''STATE_DIR'' ''./data'';
     media \<leftarrow> path_value env (ovMediaDir ov) ''MEDIA_DIR'' ''./data/media'';
     lock \<leftarrow> path_value env (ovLockPath ov) ''LOCK_PATH'' ''./data/daemon.lock'';
     level \<leftarrow> log_level (js_lower (or_default (env ''LOG_LEVEL'') ''info''));
     tz \<leftarrow> pathValue (or_default (env ''TIMEZONE'') ''UTC'');
     dry \<leftarrow> boolean_value env (ovDryRun ov) ''DRY_RUN'';
     poll \<leftarrow> number_value number env ''WORKER_POLL_MS'' 1000 50 (Some 60000);
     interval \<leftarrow> number_value number env ''SEND_INTERVAL_MS'' 8000 0 (Some 3600000);
     attempts \<leftarrow> number_value number env ''MAX_ATTEMPTS'' 5 1 (Some 100);
     base \<leftarrow> number_value number env ''RETRY_BASE_MS'' 5000 100 (Some 3600000);
     mx \<leftarrow> number_value number env ''RETRY_MAX_MS'' 300000 100 (Some 86400000);
     bytes \<leftarrow> number_value number env ''MAX_MEDIA_BYTES'' 2147483648 1 None;
     self \<leftarrow> boolean_value env None ''SELF_CONTROLLER_ENABLED'';
     Some \<lparr>cfgDatabasePath = db, cfgStateDir = st, cfgMediaDir = media, cfgLockPath = lock,
       cfgLogLevel = level, cfgTimezone = tz, cfgDryRun = dry, cfgWorkerPollMs = poll,
       cfgSendIntervalMs = interval, cfgMaxAttempts = nat attempts, cfgRetryBaseMs = base,
       cfgRetryMaxMs = mx, cfgMaxMediaBytes = bytes, cfgSelfControllerEnabled = self,
       cfgPairingPhone = (case env ''PAIRING_PHONE'' of None \<Rightarrow> None
         | Some p \<Rightarrow> if p = [] then None else Some (js_trim p))\<rparr> }"

text \<open>
  \<open>env\<close> is \<open>process.env\<close> after \<open>dotenv\<close> has added the file's variables; \<open>report\<close> is the message
  the schema library composes.
\<close>

definition loadConfig ::
    "(string \<Rightarrow> rat option) \<Rightarrow> (string \<Rightarrow> string \<Rightarrow> string) \<Rightarrow> (string \<Rightarrow> bool) \<Rightarrow> string \<Rightarrow>
     (string \<rightharpoonup> string) \<Rightarrow> config_overrides \<Rightarrow> string \<Rightarrow> error + app_config" where
  "loadConfig number resolve known_zone report env ov cwd =
     (case parse_config number env ov of
        None \<Rightarrow> Inl (ConfigurationError (''Invalid configuration: '' @ report))
      | Some c \<Rightarrow>
          if \<not> known_zone (cfgTimezone c)
          then Inl (ConfigurationError (''Unknown TIMEZONE: '' @ cfgTimezone c))
          else if cfgRetryMaxMs c < cfgRetryBaseMs c
          then Inl (ConfigurationError ''RETRY_MAX_MS must be greater than or equal to RETRY_BASE_MS'')
          else Inr (c\<lparr>cfgDatabasePath := absolutePath resolve (cfgDatabasePath c) cwd,
                      cfgStateDir := absolutePath resolve (cfgStateDir c) cwd,
                      cfgMediaDir := absolutePath resolve (cfgMediaDir c) cwd,
                      cfgLockPath := absolutePath resolve (cfgLockPath c) cwd\<rparr>))"

text \<open>
  The file that is read and what it adds: \<open>dotenv\<close>, whose parser is an argument, leaves the variables
  alone that the environment has already, and an unreadable file adds nothing.
\<close>

definition env_path :: "(string \<Rightarrow> string \<Rightarrow> string) \<Rightarrow> string option \<Rightarrow> string \<Rightarrow> string" where
  "env_path resolve envFile cwd =
     (case envFile of
        None \<Rightarrow> resolve cwd ''.env''
      | Some f \<Rightarrow> if f = [] then resolve cwd ''.env'' else absolutePath resolve f cwd)"

definition dotenv_config ::
    "(string \<Rightarrow> (string \<rightharpoonup> string)) \<Rightarrow> (string \<rightharpoonup> string) \<Rightarrow> string \<Rightarrow> (string \<rightharpoonup> string) \<Rightarrow> (string \<rightharpoonup> string)" where
  "dotenv_config parse files path env =
     (case files path of None \<Rightarrow> env | Some content \<Rightarrow> parse content ++ env)"

section \<open>What a loaded configuration guarantees\<close>

definition config_ok :: "app_config \<Rightarrow> bool" where
  "config_ok c \<longleftrightarrow>
     50 \<le> cfgWorkerPollMs c \<and> cfgWorkerPollMs c \<le> 60000 \<and>
     0 \<le> cfgSendIntervalMs c \<and> cfgSendIntervalMs c \<le> 3600000 \<and>
     1 \<le> cfgMaxAttempts c \<and> cfgMaxAttempts c \<le> 100 \<and>
     100 \<le> cfgRetryBaseMs c \<and> cfgRetryBaseMs c \<le> 3600000 \<and>
     cfgRetryBaseMs c \<le> cfgRetryMaxMs c \<and> cfgRetryMaxMs c \<le> 86400000 \<and>
     0 < cfgMaxMediaBytes c \<and> cfgLogLevel c \<in> set log_levels"

lemma number_value_bounds:
  "number_value number env name d lo hi = Some n \<Longrightarrow>
   lo \<le> n \<and> (case hi of None \<Rightarrow> True | Some h \<Rightarrow> n \<le> h)"
  by (auto simp: number_value_def coerce_int_def split: option.splits if_splits raw_number.splits)

lemma log_level_known: "log_level s = Some l \<Longrightarrow> l \<in> set log_levels"
  by (simp add: log_level_def split: if_splits)

lemma parse_config_bounds:
  "parse_config number env ov = Some c \<Longrightarrow>
   50 \<le> cfgWorkerPollMs c \<and> cfgWorkerPollMs c \<le> 60000 \<and>
   0 \<le> cfgSendIntervalMs c \<and> cfgSendIntervalMs c \<le> 3600000 \<and>
   1 \<le> cfgMaxAttempts c \<and> cfgMaxAttempts c \<le> 100 \<and>
   100 \<le> cfgRetryBaseMs c \<and> cfgRetryBaseMs c \<le> 3600000 \<and>
   cfgRetryMaxMs c \<le> 86400000 \<and> 0 < cfgMaxMediaBytes c \<and> cfgLogLevel c \<in> set log_levels"
  by (clarsimp simp: parse_config_def bind_eq_Some_conv)
    (auto dest!: number_value_bounds log_level_known)

text \<open>
  A configuration the program starts with is within its bounds, whatever the environment
  and the overrides: intervals, attempts and back-off are in range, the back-off maximum is not
  below its base, the time zone is known and every path is absolute.
\<close>

theorem loadConfig_ok:
  assumes "\<And>b v. is_absolute (resolve b v)"
    and "loadConfig number resolve known_zone report env ov cwd = Inr c"
  shows "config_ok c \<and> known_zone (cfgTimezone c) \<and>
    (\<forall>p \<in> {cfgDatabasePath c, cfgStateDir c, cfgMediaDir c, cfgLockPath c}. is_absolute p)"
proof -
  obtain d where d: "parse_config number env ov = Some d" "known_zone (cfgTimezone d)"
    "cfgRetryBaseMs d \<le> cfgRetryMaxMs d"
    and c: "c = d\<lparr>cfgDatabasePath := absolutePath resolve (cfgDatabasePath d) cwd,
                  cfgStateDir := absolutePath resolve (cfgStateDir d) cwd,
                  cfgMediaDir := absolutePath resolve (cfgMediaDir d) cwd,
                  cfgLockPath := absolutePath resolve (cfgLockPath d) cwd\<rparr>"
    using assms(2) by (auto simp: loadConfig_def split: option.splits if_splits)
  have "is_absolute (absolutePath resolve v b)" for v b
    using assms(1) by (simp add: absolutePath_def)
  then show ?thesis
    using parse_config_bounds [OF d(1)] d(2,3) by (simp add: c config_ok_def)
qed

definition sample_number :: "string \<Rightarrow> rat option" where
  "sample_number s = (if s = ''7'' then Some 7 else None)"

definition sample_resolve :: "string \<Rightarrow> string \<Rightarrow> string" where
  "sample_resolve b v = CHR ''/'' # v"

definition no_overrides :: config_overrides where
  "no_overrides = \<lparr>ovDryRun = None, ovDatabasePath = None, ovStateDir = None, ovMediaDir = None,
     ovLockPath = None\<rparr>"

theorem loadConfig_ok_witness:
  "\<exists>c. loadConfig sample_number sample_resolve (\<lambda>z. z = ''UTC'') []
         [''MAX_ATTEMPTS'' \<mapsto> ''7''] no_overrides ''/srv'' = Inr c \<and>
       cfgMaxAttempts c = 7 \<and> config_ok c"
proof -
  let ?r = "loadConfig sample_number sample_resolve (\<lambda>z. z = ''UTC'') []
         [''MAX_ATTEMPTS'' \<mapsto> ''7''] no_overrides ''/srv''"
  have "(case ?r of Inl _ \<Rightarrow> False | Inr c \<Rightarrow> cfgMaxAttempts c = 7)" by code_simp
  then obtain c where c: "?r = Inr c" "cfgMaxAttempts c = 7" by (cases ?r) auto
  have "is_absolute (sample_resolve b v)" for b v
    by (simp add: is_absolute_def sample_resolve_def js_starts_with_def)
  from loadConfig_ok [OF this c(1)] c show ?thesis by blast
qed

end
