(* ===== verification/Clock.thy ===== *)
theory Clock
  imports Prelude
begin

text \<open>
  Times.  A clock reading is a number of milliseconds since 1970; what the program stores and
  what SQLite compares is the text of \<open>Date.prototype.toISOString\<close>.  The text is computed here
  as ECMAScript does (\<open>DayFromYear\<close>, \<open>YearFromTime\<close>, the month table), and the main fact is that
  for the years 0 to 9999 the order of the texts is the order of the times, so that the
  comparisons of the queue's SQL statements mean what they should.
\<close>

section \<open>The calendar of ECMAScript\<close>

definition day_ms :: int where
  "day_ms = 86400000"

definition day_from_year :: "int \<Rightarrow> int" where
  "day_from_year y =
     365 * (y - 1970) + (y - 1969) div 4 - (y - 1901) div 100 + (y - 1601) div 400"

definition leap :: "int \<Rightarrow> bool" where
  "leap y \<longleftrightarrow> 4 dvd y \<and> (\<not> 100 dvd y \<or> 400 dvd y)"

lemma div_Suc: "0 < n \<Longrightarrow> (a + 1) div n = a div n + (if n dvd a + 1 then 1 else 0)" for a n :: int
proof -
  assume n: "0 < n"
  show ?thesis
  proof (cases "n dvd a + 1")
    case True
    then obtain k where k: "a + 1 = n * k" by auto
    then have "a = n * k - 1" by linarith
    then have "a = n * (k - 1) + (n - 1)" by (simp add: right_diff_distrib)
    with n have "a div n = k - 1" by (intro int_div_pos_eq [of a n "k - 1" "n - 1"]) simp_all
    with k n show ?thesis by simp
  next
    case False
    have m: "a mod n + 1 \<noteq> n"
    proof
      assume "a mod n + 1 = n"
      then have "(a + 1) mod n = 0" by (metis mod_add_left_eq mod_self)
      with False show False by auto
    qed
    have "a mod n < n" "0 \<le> a mod n" using n by auto
    with m have "0 \<le> a mod n + 1" "a mod n + 1 < n" by auto
    moreover have "a + 1 = n * (a div n) + (a mod n + 1)" by simp
    ultimately have "(a + 1) div n = a div n" by (intro int_div_pos_eq) auto
    with False show ?thesis by simp
  qed
qed

lemma dvd_shift: "n dvd c \<Longrightarrow> n dvd y - c \<longleftrightarrow> n dvd y" for n c y :: int
  by (metis diff_add_cancel dvd_add_left_iff)

lemma day_from_year_Suc: "day_from_year (y + 1) = day_from_year y + (if leap y then 366 else 365)"
proof -
  have "4 dvd y - 1968 \<longleftrightarrow> 4 dvd y" "100 dvd y - 1900 \<longleftrightarrow> 100 dvd y" "400 dvd y - 1600 \<longleftrightarrow> 400 dvd y"
    by (rule dvd_shift; simp)+
  then have step: "(y + 1 - 1969) div 4 = (y - 1969) div 4 + (if 4 dvd y then 1 else 0)"
    "(y + 1 - 1901) div 100 = (y - 1901) div 100 + (if 100 dvd y then 1 else 0)"
    "(y + 1 - 1601) div 400 = (y - 1601) div 400 + (if 400 dvd y then 1 else 0)"
    using div_Suc [of 4 "y - 1969"] div_Suc [of 100 "y - 1901"] div_Suc [of 400 "y - 1601"]
    by simp_all
  have "(4::int) dvd 100" "(100::int) dvd 400" by simp_all
  then have "100 dvd y \<Longrightarrow> 4 dvd y" "400 dvd y \<Longrightarrow> 100 dvd y"
    by (blast intro: dvd_trans)+
  then have "(if 4 dvd y then 1 else 0) - (if 100 dvd y then 1 else 0) + (if 400 dvd y then 1 else 0)
      = (if leap y then 1 else 0 :: int)"
    unfolding leap_def by presburger
  moreover have "(if leap y then 366 else 365) = 365 + (if leap y then 1 else 0 :: int)" by simp
  moreover have "365 * (y + 1 - 1970) = 365 * (y - 1970) + 365" by simp
  moreover have "e * (y + 1 - 1970) + (a + i) - (b + j) + (c + k) = e * (y - 1970) + a - b + c + l"
    if "i - j + k = m" "l = 365 + m" "e * (y + 1 - 1970) = e * (y - 1970) + 365"
    for a b c e i j k l m :: int
    using that by linarith
  ultimately show ?thesis
    unfolding day_from_year_def step by blast
qed

lemma day_from_year_less: "day_from_year y < day_from_year (y + 1)"
  by (simp add: day_from_year_Suc)

text \<open>The largest year that starts on or before a day, searched upwards.\<close>

function year_search :: "int \<Rightarrow> int \<Rightarrow> int" where
  "year_search d y = (if day_from_year (y + 1) \<le> d then year_search d (y + 1) else y)"
  by auto
termination
proof (relation "measure (\<lambda>(d, y). nat (d - day_from_year y))")
  fix d y
  assume "day_from_year (y + 1) \<le> d"
  with day_from_year_less [of y]
  show "((d, y + 1), d, y) \<in> measure (\<lambda>(d, y). nat (d - day_from_year y))" by simp
qed simp

declare year_search.simps [simp del]

definition year_from_day :: "int \<Rightarrow> int" where
  "year_from_day d = year_search d (if 0 \<le> d then 1970 + d div 366 else 1970 + d div 365)"

definition month_days :: "int \<Rightarrow> int list" where
  "month_days y = [31, if leap y then 29 else 28, 31, 30, 31, 30, 31, 31, 30, 31, 30, 31]"

text \<open>The month of a day of the year (from 0) and the days before it.\<close>

fun month_search :: "int list \<Rightarrow> int \<Rightarrow> int \<Rightarrow> int \<times> int" where
  "month_search [] m d = (m, d)"
| "month_search (l # ls) m d = (if d < l then (m, d) else month_search ls (m + 1) (d - l))"

record datetime =
  dtYear :: int
  dtMonth :: int
  dtDay :: int
  dtHour :: int
  dtMinute :: int
  dtSecond :: int
  dtMillis :: int

definition datetime_of :: "int \<Rightarrow> datetime" where
  "datetime_of t =
     (let d = t div day_ms; ms = t mod day_ms; y = year_from_day d;
          (m, day) = month_search (month_days y) 1 (d - day_from_year y)
      in \<lparr>dtYear = y, dtMonth = m, dtDay = day + 1, dtHour = ms div 3600000,
          dtMinute = ms div 60000 mod 60, dtSecond = ms div 1000 mod 60, dtMillis = ms mod 1000\<rparr>)"

text \<open>Decimal digits padded to a width.\<close>

fun pad :: "nat \<Rightarrow> int \<Rightarrow> string" where
  "pad 0 n = []"
| "pad (Suc k) n = pad k (n div 10) @ [digit_char (nat (n mod 10))]"

definition iso_year :: "int \<Rightarrow> string" where
  "iso_year y =
     (if 0 \<le> y \<and> y \<le> 9999 then pad 4 y
      else if y < 0 then CHR ''-'' # pad 6 (- y) else CHR ''+'' # pad 6 y)"

definition toISOString :: "int \<Rightarrow> string" where
  "toISOString t =
     (let d = datetime_of t in
      iso_year (dtYear d) @ ''-'' @ pad 2 (dtMonth d) @ ''-'' @ pad 2 (dtDay d) @ ''T'' @
      pad 2 (dtHour d) @ '':'' @ pad 2 (dtMinute d) @ '':'' @ pad 2 (dtSecond d) @ ''.'' @
      pad 3 (dtMillis d) @ ''Z'')"

text \<open>The first and the first absent moment of the years with four digits.\<close>

definition four_digit_time :: "int \<Rightarrow> bool" where
  "four_digit_time t \<longleftrightarrow> -62167219200000 \<le> t \<and> t < 253402300800000"

section \<open>The calendar is correct\<close>

lemma year_search_correct:
  "day_from_year y \<le> d \<Longrightarrow>
   day_from_year (year_search d y) \<le> d \<and> d < day_from_year (year_search d y + 1)"
proof (induction d y rule: year_search.induct)
  case (1 d y)
  show ?case
  proof (cases "day_from_year (y + 1) \<le> d")
    case True
    with "1.IH" show ?thesis by (simp add: year_search.simps [of d y])
  next
    case False
    with "1.prems" show ?thesis by (simp add: year_search.simps [of d y])
  qed
qed

lemma day_from_year_bounds:
  "0 \<le> k \<Longrightarrow> day_from_year (1970 + k) \<le> 366 * k" "0 \<le> k \<Longrightarrow> day_from_year (1970 - k) \<le> - 365 * k"
proof -
  show "0 \<le> k \<Longrightarrow> day_from_year (1970 + k) \<le> 366 * k"
  proof (induction k rule: int_ge_induct)
    case base
    show ?case by (simp add: day_from_year_def)
  next
    case (step i)
    then show ?case using day_from_year_Suc [of "1970 + i"] by (auto simp: add.assoc split: if_splits)
  qed
  show "0 \<le> k \<Longrightarrow> day_from_year (1970 - k) \<le> - 365 * k"
  proof (induction k rule: int_ge_induct)
    case base
    show ?case by (simp add: day_from_year_def)
  next
    case (step i)
    then show ?case using day_from_year_Suc [of "1970 - (i + 1)"] by (auto split: if_splits)
  qed
qed

lemma year_from_day_correct:
  "day_from_year (year_from_day d) \<le> d \<and> d < day_from_year (year_from_day d + 1)"
proof -
  have "day_from_year (1970 + d div 366) \<le> d" if "0 \<le> d"
  proof -
    have "366 * (d div 366) \<le> d" by simp
    moreover have "day_from_year (1970 + d div 366) \<le> 366 * (d div 366)"
      by (rule day_from_year_bounds(1)) (use that in simp)
    ultimately show ?thesis by linarith
  qed
  moreover have "day_from_year (1970 + d div 365) \<le> d" if "\<not> 0 \<le> d"
  proof -
    have "365 * (d div 365) \<le> d" by simp
    moreover have "day_from_year (1970 - (- (d div 365))) \<le> - 365 * (- (d div 365))"
      by (rule day_from_year_bounds(2)) (use that in \<open>simp add: div_int_pos_iff\<close>)
    ultimately show ?thesis by simp
  qed
  ultimately show ?thesis
    unfolding year_from_day_def by (auto intro!: year_search_correct)
qed

lemma day_from_year_mono: "y \<le> z \<Longrightarrow> day_from_year y \<le> day_from_year z"
proof (induction z rule: int_ge_induct)
  case (step i)
  then show ?case using day_from_year_Suc [of i] by (auto split: if_splits)
qed simp

lemma year_from_day_mono: "d \<le> e \<Longrightarrow> year_from_day d \<le> year_from_day e"
  using year_from_day_correct [of d] year_from_day_correct [of e]
    day_from_year_mono [of "year_from_day e + 1" "year_from_day d"]
  by linarith

lemma month_search_strict:
  assumes "list_all (\<lambda>l. 0 < l) ls" and "0 \<le> d" and "d < e" and "e < sum_list ls"
  shows "m \<le> fst (month_search ls m d) \<and> 0 \<le> snd (month_search ls m d) \<and>
    (fst (month_search ls m d) < fst (month_search ls m e) \<or>
     fst (month_search ls m d) = fst (month_search ls m e) \<and>
     snd (month_search ls m d) < snd (month_search ls m e))"
proof -
  have low: "m \<le> fst (month_search ls m d)" for ls m d
  proof (induction ls m d rule: month_search.induct)
    case (2 l ls m d)
    then show ?case by (cases "d < l") simp_all
  qed simp
  show ?thesis
    using assms
  proof (induction ls m d arbitrary: e rule: month_search.induct)
    case (2 l ls m d)
    show ?case
    proof (cases "d < l")
      case True
      with "2.prems" low [of "m + 1" ls "e - l"] show ?thesis by auto
    next
      case False
      with "2.prems" "2.IH" [of "e - l"] show ?thesis by auto
    qed
  qed simp
qed

lemma month_search_range:
  assumes "list_all (\<lambda>l. 0 < l \<and> l \<le> 31) ls" and "0 \<le> d" and "d < sum_list ls"
  shows "m \<le> fst (month_search ls m d) \<and> fst (month_search ls m d) < m + int (length ls) \<and>
    0 \<le> snd (month_search ls m d) \<and> snd (month_search ls m d) < 31"
  using assms
proof (induction ls m d rule: month_search.induct)
  case (2 l ls m d)
  then show ?case by (cases "d < l") auto
qed simp

lemma month_days_year:
  "list_all (\<lambda>l. 0 < l \<and> l \<le> 31) (month_days y)" "length (month_days y) = 12"
  "sum_list (month_days y) = (if leap y then 366 else 365)"
  by (simp_all add: month_days_def)

lemma day_of_year_range:
  "0 \<le> d - day_from_year (year_from_day d) \<and>
   d - day_from_year (year_from_day d) < sum_list (month_days (year_from_day d))"
  using year_from_day_correct [of d] day_from_year_Suc [of "year_from_day d"]
  unfolding month_days_year by linarith

lemma div_mod_less: "a < b \<Longrightarrow> a div n < b div n \<or> a div n = b div n \<and> a mod n < b mod n"
  if "0 < n" for a b n :: int
proof -
  assume ab: "a < b"
  have "a div n \<le> b div n" using ab that by (simp add: zdiv_mono1)
  moreover have "a mod n < b mod n" if "a div n = b div n"
    using ab that by (metis add_less_cancel_left div_mult_mod_eq)
  ultimately show ?thesis by linarith
qed

text \<open>The fields of the date, and of the time of the day, increase lexicographically.\<close>

definition date_key :: "int \<Rightarrow> int \<times> int \<times> int" where
  "date_key d =
     (let y = year_from_day d; (m, day) = month_search (month_days y) 1 (d - day_from_year y)
      in (y, m, day + 1))"

definition date_text :: "int \<times> int \<times> int \<Rightarrow> string" where
  "date_text k = (case k of (y, m, d) \<Rightarrow> iso_year y @ ''-'' @ pad 2 m @ ''-'' @ pad 2 d)"

definition fields_text :: "int \<Rightarrow> int \<Rightarrow> int \<Rightarrow> int \<Rightarrow> string" where
  "fields_text h mi s ms = pad 2 h @ '':'' @ pad 2 mi @ '':'' @ pad 2 s @ ''.'' @ pad 3 ms"

definition time_text :: "int \<Rightarrow> string" where
  "time_text x =
     fields_text (x div 3600000) (x div 60000 mod 60) (x div 1000 mod 60) (x mod 1000)"

lemma toISOString_texts:
  "toISOString t = date_text (date_key (t div day_ms)) @ ''T'' @ time_text (t mod day_ms) @ ''Z''"
  by (simp add: toISOString_def datetime_of_def date_key_def date_text_def time_text_def
      fields_text_def Let_def
      split: prod.split)

lemma date_key_strict:
  assumes "d < e" and "date_key d = (y, m, x)" and "date_key e = (y', m', x')"
  shows "y < y' \<or> y = y' \<and> (m < m' \<or> m = m' \<and> x < x')"
proof (cases "year_from_day d = year_from_day e")
  case True
  have pos: "list_all (\<lambda>l. 0 < l) (month_days z)" for z by (simp add: month_days_def)
  have "d - day_from_year (year_from_day d) < e - day_from_year (year_from_day d)"
    using assms(1) by simp
  then show ?thesis
    using month_search_strict [OF pos, of "d - day_from_year (year_from_day d)"
        "e - day_from_year (year_from_day d)" "year_from_day d" 1]
      day_of_year_range [of d] day_of_year_range [of e] assms(2,3) True
    by (auto simp: date_key_def Let_def split: prod.splits)
next
  case False
  with year_from_day_mono [of d e] assms show ?thesis
    by (auto simp: date_key_def Let_def split: prod.splits)
qed

lemma date_key_range:
  assumes "date_key d = (y, m, x)"
  shows "y = year_from_day d \<and> 1 \<le> m \<and> m \<le> 12 \<and> 1 \<le> x \<and> x \<le> 31"
proof -
  obtain m' x' where s: "month_search (month_days y) 1 (d - day_from_year y) = (m', x')"
    by fastforce
  have y: "y = year_from_day d"
    using assms by (auto simp: date_key_def Let_def split: prod.splits)
  have "m = m' \<and> x = x' + 1"
    using assms s y by (simp add: date_key_def Let_def)
  moreover have "1 \<le> m' \<and> m' < 13 \<and> 0 \<le> x' \<and> x' < 31"
    using month_search_range [OF month_days_year(1), of "d - day_from_year y" y 1] s y
      day_of_year_range [of d]
    by (simp add: month_days_year(2))
  ultimately show ?thesis using y by auto
qed

section \<open>The order of the texts\<close>

lemma less_append: "length a = length b \<Longrightarrow> a < b \<Longrightarrow> a @ x < b @ y"
  for a b x y :: "'a :: linorder list"
  by (induction a b rule: list_induct2) auto

lemma append_less_same [simp]: "a @ x < a @ y \<longleftrightarrow> x < y"
  for a x y :: "'a :: linorder list"
  by (induction a) auto

lemma length_pad [simp]: "length (pad k n) = k"
  by (induction k n rule: pad.induct) simp_all

lemma digit_char_less: "0 \<le> a \<Longrightarrow> a < b \<Longrightarrow> b < 10 \<Longrightarrow> digit_char (nat a) < digit_char (nat b)"
  by (simp add: less_char_def of_char_digit_char nat_less_iff)

lemma pad_less: "0 \<le> n \<Longrightarrow> n < m \<Longrightarrow> m < 10 ^ k \<Longrightarrow> pad k n < pad k m"
proof (induction k arbitrary: n m)
  case (Suc k)
  from div_mod_less [of 10 n m] Suc.prems
  consider "n div 10 < m div 10" | "n div 10 = m div 10" "n mod 10 < m mod 10" by auto
  then show ?case
  proof cases
    case 1
    have "m div 10 < 10 ^ k" using Suc.prems by (simp add: div_less_iff_less_mult)
    with 1 Suc have "pad k (n div 10) < pad k (m div 10)" by simp
    then show ?thesis by (simp add: less_append)
  next
    case 2
    have "digit_char (nat (n mod 10)) < digit_char (nat (m mod 10))"
      by (rule digit_char_less) (use 2 in simp_all)
    with 2 show ?thesis by simp
  qed
qed simp

lemma fields_text_less:
  assumes "0 \<le> h" "h' < 100" "0 \<le> mi" "mi' < 60" "0 \<le> s" "s' < 60" "0 \<le> ms" "ms' < 1000"
    and "h < h' \<or> h = h' \<and> (mi < mi' \<or> mi = mi' \<and> (s < s' \<or> s = s' \<and> ms < ms'))"
  shows "fields_text h mi s ms < fields_text h' mi' s' ms'"
proof -
  have "h < h' \<Longrightarrow> pad 2 h < pad 2 h'" "mi < mi' \<Longrightarrow> pad 2 mi < pad 2 mi'"
    "s < s' \<Longrightarrow> pad 2 s < pad 2 s'" "ms < ms' \<Longrightarrow> pad 3 ms < pad 3 ms'"
    by (intro pad_less; use assms(1-8) in simp)+
  with assms(9) show ?thesis by (auto simp: fields_text_def less_append)
qed

lemma length_fields_text [simp]: "length (fields_text h mi s ms) = 12"
  by (simp add: fields_text_def)

lemma time_text_less:
  assumes "0 \<le> x" and "x < y" and "y < day_ms"
  shows "time_text x < time_text y"
proof -
  have e: "z div 1000 div 60 = z div 60000" "z div 60000 div 60 = z div 3600000" for z :: int
    by (simp_all add: zdiv_zmult2_eq [symmetric])
  have f1: "x div 1000 < y div 1000 \<or> x div 1000 = y div 1000 \<and> x mod 1000 < y mod 1000"
    using div_mod_less [of 1000 x y] assms(2) by simp
  have f2: "x div 60000 < y div 60000 \<or>
      x div 60000 = y div 60000 \<and> x div 1000 mod 60 < y div 1000 mod 60"
    if "x div 1000 < y div 1000"
    using div_mod_less [of 60 "x div 1000" "y div 1000"] that by (simp add: e)
  have f3: "x div 3600000 < y div 3600000 \<or>
      x div 3600000 = y div 3600000 \<and> x div 60000 mod 60 < y div 60000 mod 60"
    if "x div 60000 < y div 60000"
    using div_mod_less [of 60 "x div 60000" "y div 60000"] that by (simp add: e)
  have q: "x div 1000 = y div 1000 \<Longrightarrow> x div 60000 = y div 60000"
    "x div 60000 = y div 60000 \<Longrightarrow> x div 3600000 = y div 3600000" by (metis e)+
  have b: "0 \<le> x div 3600000" "y div 3600000 < 100"
    using assms by (simp_all add: day_ms_def)
  have lex: "x div 3600000 < y div 3600000 \<or>
      x div 3600000 = y div 3600000 \<and>
      (x div 60000 mod 60 < y div 60000 mod 60 \<or>
       x div 60000 mod 60 = y div 60000 mod 60 \<and>
       (x div 1000 mod 60 < y div 1000 mod 60 \<or>
        x div 1000 mod 60 = y div 1000 mod 60 \<and> x mod 1000 < y mod 1000))"
    using f1 f2 f3 q by metis
  show ?thesis
    unfolding time_text_def
    by (rule fields_text_less [OF b(1) b(2) _ _ _ _ _ _ lex]) simp_all
qed

lemma four_digit_year:
  assumes "four_digit_time t"
  shows "0 \<le> year_from_day (t div day_ms) \<and> year_from_day (t div day_ms) \<le> 9999"
proof -
  have d: "-719528 \<le> t div day_ms" "t div day_ms < 2932897"
    using zdiv_mono1 [of "-62167219200000" t day_ms] zdiv_mono1 [of t "253402300799999" day_ms] assms
    by (simp_all add: four_digit_time_def day_ms_def)
  have c: "day_from_year 0 = -719528" "day_from_year 10000 = 2932897"
    by (simp_all add: day_from_year_def)
  let ?y = "year_from_day (t div day_ms)"
  note y = year_from_day_correct [of "t div day_ms"]
  have "0 \<le> ?y"
  proof (rule ccontr)
    assume "\<not> 0 \<le> ?y"
    then have "day_from_year (?y + 1) \<le> day_from_year 0" by (intro day_from_year_mono) simp
    with y d c show False by simp
  qed
  moreover have "?y \<le> 9999"
  proof (rule ccontr)
    assume "\<not> ?y \<le> 9999"
    then have "day_from_year 10000 \<le> day_from_year ?y" by (intro day_from_year_mono) simp
    with y d c show False by simp
  qed
  ultimately show ?thesis by simp
qed

lemma date_text_less:
  assumes "d < e" and "0 \<le> year_from_day d" and "year_from_day e \<le> 9999"
  shows "date_text (date_key d) < date_text (date_key e)"
proof -
  obtain y m x where k: "date_key d = (y, m, x)" by (cases "date_key d")
  obtain y' m' x' where k': "date_key e = (y', m', x')" by (cases "date_key e")
  note r = date_key_range [OF k] and r' = date_key_range [OF k']
  have yy: "y \<le> y'" using r r' year_from_day_mono [of d e] assms(1) by simp
  then have i: "iso_year y = pad 4 y" "iso_year y' = pad 4 y'"
    using assms r r' by (simp_all add: iso_year_def)
  from date_key_strict [OF assms(1) k k']
  consider "y < y'" | "y = y'" "m < m'" | "y = y'" "m = m'" "x < x'" by blast
  then show ?thesis
  proof cases
    case 1
    then have "pad 4 y < pad 4 y'" by (intro pad_less) (use assms r r' in auto)
    then show ?thesis unfolding k k' date_text_def prod.case i by (intro less_append) simp_all
  next
    case 2
    then have "pad 2 m < pad 2 m'" by (intro pad_less) (use r r' in auto)
    with 2 show ?thesis
      unfolding k k' date_text_def prod.case i by (simp add: less_append)
  next
    case 3
    then have "pad 2 x < pad 2 x'" by (intro pad_less) (use r r' in auto)
    with 3 show ?thesis
      unfolding k k' date_text_def prod.case i by (simp add: less_append)
  qed
qed

lemma length_date_text:
  assumes "0 \<le> year_from_day d" and "year_from_day d \<le> 9999"
  shows "length (date_text (date_key d)) = 10"
proof -
  obtain y m x where k: "date_key d = (y, m, x)" by (cases "date_key d")
  with date_key_range [OF k] assms show ?thesis by (simp add: date_text_def iso_year_def)
qed

lemma toISOString_less:
  assumes "four_digit_time s" and "four_digit_time t" and "s < t"
  shows "toISOString s < toISOString t"
proof -
  note ys = four_digit_year [OF assms(1)] and yt = four_digit_year [OF assms(2)]
  have len: "length (date_text (date_key (s div day_ms))) = length (date_text (date_key (t div day_ms)))"
    using ys yt by (simp add: length_date_text)
  from div_mod_less [of day_ms s t] assms(3)
  consider "s div day_ms < t div day_ms"
    | "s div day_ms = t div day_ms" "s mod day_ms < t mod day_ms" by (auto simp: day_ms_def)
  then show ?thesis
  proof cases
    case 1
    then have "date_text (date_key (s div day_ms)) < date_text (date_key (t div day_ms))"
      using ys yt by (intro date_text_less) simp_all
    with len show ?thesis unfolding toISOString_texts by (intro less_append) simp_all
  next
    case 2
    have "time_text (s mod day_ms) < time_text (t mod day_ms)"
      by (rule time_text_less) (use 2 in \<open>simp_all add: day_ms_def\<close>)
    then have "time_text (s mod day_ms) @ ''Z'' < time_text (t mod day_ms) @ ''Z''"
      by (intro less_append) (simp_all add: time_text_def)
    with 2 len show ?thesis unfolding toISOString_texts by (simp add: less_append)
  qed
qed

text \<open>
  Up to the year 9999 the text SQLite compares orders like the time it denotes: a job is
  due by text exactly when it is due by the clock.
\<close>

theorem toISOString_order:
  assumes "four_digit_time s" and "four_digit_time t"
  shows "toISOString s \<le> toISOString t \<longleftrightarrow> s \<le> t"
  using toISOString_less [OF assms] toISOString_less [OF assms(2,1)]
  by (metis leD le_less_linear less_le order_less_imp_le order_refl)

theorem toISOString_order_witness:
  "toISOString 1770000000000 = ''2026-02-02T02:40:00.000Z'' \<and>
   (toISOString 1770000000000 \<le> toISOString 1893456000000 \<longleftrightarrow> (1770000000000 :: int) \<le> 1893456000000)"
proof
  show "toISOString 1770000000000 = ''2026-02-02T02:40:00.000Z''" by code_simp
  have "four_digit_time 1770000000000" "four_digit_time 1893456000000"
    by (simp_all add: four_digit_time_def)
  then show "toISOString 1770000000000 \<le> toISOString 1893456000000 \<longleftrightarrow> (1770000000000 :: int) \<le> 1893456000000"
    by (rule toISOString_order)
qed

text \<open>
  From the year 10000 on the text starts with a plus sign, which is below every digit: such a
  time is due at once.
\<close>

lemma toISOString_far_future: "toISOString 253402300800000 < toISOString 0"
  by code_simp

section \<open>Reading the text back\<close>

definition digits_value :: "string \<Rightarrow> int" where
  "digits_value s = foldl (\<lambda>n c. 10 * n + (of_char c - 48)) 0 s"

definition days_before_month :: "int \<Rightarrow> int \<Rightarrow> int" where
  "days_before_month y m = sum_list (take (nat (m - 1)) (month_days y))"

definition iso_fields :: "string \<Rightarrow> int" where
  "iso_fields s =
     (let f = (\<lambda>i n. digits_value (take n (drop i s)));
          d = day_from_year (f 0 4) + days_before_month (f 0 4) (f 5 2) + f 8 2 - 1
      in day_ms * d + 3600000 * f 11 2 + 60000 * f 14 2 + 1000 * f 17 2 + f 20 3)"

text \<open>\<open>Date.parse\<close> on the format \<open>toISOString\<close> writes, for the years 0 to 9999.\<close>

definition parse_iso :: "string \<Rightarrow> int option" where
  "parse_iso s = (let t = iso_fields s in if toISOString t = s then Some t else None)"

text \<open>What the program needs of \<open>Date.parse\<close>: it reads back what \<open>toISOString\<close> wrote.\<close>

definition reads_iso :: "(string \<Rightarrow> int option) \<Rightarrow> bool" where
  "reads_iso p \<longleftrightarrow> (\<forall>t. four_digit_time t \<longrightarrow> p (toISOString t) = Some t)"

lemma digits_value_pad: "0 \<le> n \<Longrightarrow> n < 10 ^ k \<Longrightarrow> digits_value (pad k n) = n"
proof (induction k arbitrary: n)
  case (Suc k)
  then have "n div 10 < 10 ^ k" by (simp add: div_less_iff_less_mult)
  with Suc have "digits_value (pad k (n div 10)) = n div 10" by simp
  moreover have "(of_char (digit_char (nat (n mod 10))) :: nat) = 48 + nat (n mod 10)"
    by (rule of_char_digit_char) simp
  then have "(of_char (digit_char (nat (n mod 10))) :: int) = 48 + n mod 10"
    by (metis of_nat_add of_nat_numeral of_nat_of_char nat_0_le pos_mod_sign zero_less_numeral)
  ultimately show ?case by (simp add: digits_value_def)
qed (simp add: digits_value_def)

lemma month_search_sum:
  "0 \<le> d \<Longrightarrow> d < sum_list ls \<Longrightarrow> month_search ls m d = (m', x) \<Longrightarrow>
   sum_list (take (nat (m' - m)) ls) + x = d \<and> m \<le> m'"
proof (induction ls m d rule: month_search.induct)
  case (2 l ls m d)
  show ?case
  proof (cases "d < l")
    case True
    with "2.prems" show ?thesis by simp
  next
    case False
    with 2 have IH: "sum_list (take (nat (m' - (m + 1))) ls) + x = d - l" "m + 1 \<le> m'" by simp_all
    then have "nat (m' - m) = Suc (nat (m' - (m + 1)))" by simp
    with IH show ?thesis by simp
  qed
qed simp

lemma date_key_inverse:
  assumes "date_key d = (y, m, x)"
  shows "day_from_year y + days_before_month y m + x - 1 = d"
proof -
  obtain m' x' where s: "month_search (month_days y) 1 (d - day_from_year y) = (m', x')"
    by fastforce
  have y: "y = year_from_day d"
    using assms by (auto simp: date_key_def Let_def split: prod.splits)
  have "m = m' \<and> x = x' + 1" using assms s y by (simp add: date_key_def Let_def)
  moreover have "sum_list (take (nat (m' - 1)) (month_days y)) + x' = d - day_from_year y"
    using month_search_sum [OF _ _ s] day_of_year_range [of d] y by simp
  ultimately show ?thesis by (simp add: days_before_month_def)
qed

lemma iso_fields_texts:
  "iso_fields (pad 4 y @ CHR ''-'' # pad 2 mo @ CHR ''-'' # pad 2 d @ CHR ''T'' #
     pad 2 h @ CHR '':'' # pad 2 mi @ CHR '':'' # pad 2 s @ CHR ''.'' # pad 3 ms @ [CHR ''Z'']) =
   day_ms * (day_from_year (digits_value (pad 4 y)) +
     days_before_month (digits_value (pad 4 y)) (digits_value (pad 2 mo)) +
     digits_value (pad 2 d) - 1) + 3600000 * digits_value (pad 2 h) +
   60000 * digits_value (pad 2 mi) + 1000 * digits_value (pad 2 s) + digits_value (pad 3 ms)"
  by (simp add: iso_fields_def Let_def)

lemma hms_value:
  "3600000 * (x div 3600000) + 60000 * (x div 60000 mod 60) + 1000 * (x div 1000 mod 60) + x mod 1000 = x"
  for x :: int
proof -
  have "x div 60000 div 60 = x div 3600000" "x div 1000 div 60 = x div 60000"
    by (simp_all add: zdiv_zmult2_eq [symmetric])
  then show ?thesis
    using div_mult_mod_eq [of "x div 60000" 60] div_mult_mod_eq [of "x div 1000" 60]
      div_mult_mod_eq [of x 1000]
    by linarith
qed

lemma iso_fields_toISOString:
  assumes "four_digit_time t"
  shows "iso_fields (toISOString t) = t"
proof -
  let ?d = "t div day_ms" and ?x = "t mod day_ms"
  obtain y m x where k: "date_key ?d = (y, m, x)" by (cases "date_key ?d")
  note r = date_key_range [OF k] and yr = four_digit_year [OF assms]
  have x: "0 \<le> ?x" "?x < 86400000" by (simp_all add: day_ms_def)
  have "?x div 3600000 < 24" using x(2) by (simp add: div_less_iff_less_mult)
  moreover have "0 \<le> ?x div 3600000" using x(1) by simp
  ultimately have v: "digits_value (pad 4 y) = y" "digits_value (pad 2 m) = m"
    "digits_value (pad 2 x) = x" "digits_value (pad 2 (?x div 3600000)) = ?x div 3600000"
    using r yr by (simp_all add: digits_value_pad)
  have w: "digits_value (pad 2 (?x div 60000 mod 60)) = ?x div 60000 mod 60"
    "digits_value (pad 2 (?x div 1000 mod 60)) = ?x div 1000 mod 60"
    "digits_value (pad 3 (?x mod 1000)) = ?x mod 1000"
    by (rule digits_value_pad; simp add: order_less_trans [OF pos_mod_bound])+
  have "toISOString t = pad 4 y @ CHR ''-'' # pad 2 m @ CHR ''-'' # pad 2 x @ CHR ''T'' #
      pad 2 (?x div 3600000) @ CHR '':'' # pad 2 (?x div 60000 mod 60) @ CHR '':'' #
      pad 2 (?x div 1000 mod 60) @ CHR ''.'' # pad 3 (?x mod 1000) @ [CHR ''Z'']"
    using r yr by (simp add: toISOString_texts k date_text_def iso_year_def time_text_def fields_text_def)
  moreover have "day_ms * (day_from_year y + days_before_month y m + x - 1) + ?x = t"
    unfolding date_key_inverse [OF k] by simp
  ultimately show ?thesis
    using hms_value [of ?x] by (simp only: iso_fields_texts v w)
qed

lemma parse_iso_reads: "reads_iso parse_iso"
  by (simp add: reads_iso_def parse_iso_def iso_fields_toISOString Let_def)

end
