(* ===== verification/Scheduler.thy ===== *)
theory Scheduler
  imports Clock Domain
begin

text \<open>
  \<open>src/src/messaging/scheduler.ts\<close>: reading the time an operator schedules a message for,
  and showing one.  The runtime's date parser is an argument, nothing for an invalid date.
\<close>

text \<open>The test of \<open>/(?:Z|[+-]\d{2}:\d{2})$/i\<close>.\<close>

definition has_offset :: "string \<Rightarrow> bool" where
  "has_offset s \<longleftrightarrow>
     (case rev s of
        z # _ \<Rightarrow> z = CHR ''Z'' \<or> z = CHR ''z'' | [] \<Rightarrow> False) \<or>
     (case rev s of
        m2 # m1 # colon # h2 # h1 # sign # _ \<Rightarrow>
          sign \<in> {CHR ''+'', CHR ''-''} \<and> is_digit h1 \<and> is_digit h2 \<and> colon = CHR '':'' \<and>
          is_digit m1 \<and> is_digit m2
      | _ \<Rightarrow> False)"

definition parseSchedule :: "(string \<Rightarrow> int option) \<Rightarrow> string \<Rightarrow> int \<Rightarrow> error + int" where
  "parseSchedule date_parse s now =
     (if \<not> has_offset s
      then Inl (PlainError ''Schedule must be ISO-8601 with an explicit UTC offset or Z'')
      else case date_parse s of
        None \<Rightarrow> Inl (PlainError ''Invalid schedule timestamp'')
      | Some t \<Rightarrow>
          if t \<le> now then Inl (PlainError ''Schedule must be in the future'') else Inr t)"

text \<open>
  \<open>Intl.DateTimeFormat\<close> is an argument: for a time zone, nothing when it has no such zone, and
  otherwise the text of a time.
\<close>

definition formatInTimezone ::
    "(string \<Rightarrow> (int \<Rightarrow> string) option) \<Rightarrow> (string \<Rightarrow> int option) \<Rightarrow> string \<Rightarrow> string \<Rightarrow> error + string" where
  "formatInTimezone intl date_parse s timezone =
     (case intl timezone of
        None \<Rightarrow> Inl (PlainError (''Invalid time zone specified: '' @ timezone))
      | Some format \<Rightarrow>
          (case date_parse s of
             None \<Rightarrow> Inl (PlainError ''Invalid time value'')
           | Some t \<Rightarrow> Inr (format t)))"

lemma formatInTimezone_answers:
  "reads_iso p \<Longrightarrow> four_digit_time t \<Longrightarrow> intl tz = Some format \<Longrightarrow>
   formatInTimezone intl p (toISOString t) tz = Inr (format t)"
  by (simp add: formatInTimezone_def reads_iso_def)

lemma parseSchedule_future: "parseSchedule p s now = Inr t \<Longrightarrow> now < t \<and> has_offset s"
  by (auto simp: parseSchedule_def split: if_splits option.splits)

lemma has_offset_Z: "has_offset (s @ ''Z'')"
  by (simp add: has_offset_def)

lemma has_offset_iso: "has_offset (toISOString t)"
proof -
  obtain s where "toISOString t = s @ ''Z''"
    by (simp add: toISOString_def Let_def)
  then show ?thesis by (simp add: has_offset_Z)
qed

text \<open>
  The text the program prints for a time is accepted as a schedule exactly when the time is
  still to come, and denotes that time; and nothing accepted is in the past or leaves the offset
  to the server's time zone.
\<close>

theorem parseSchedule_roundtrip:
  assumes "reads_iso p" and "four_digit_time t"
  shows "(parseSchedule p (toISOString t) now = Inr t \<longleftrightarrow> now < t) \<and>
    (parseSchedule p (toISOString t) now = Inl (PlainError ''Schedule must be in the future'') \<longleftrightarrow>
       t \<le> now) \<and>
    (\<forall>s. case parseSchedule p s now of Inl e \<Rightarrow> True | Inr u \<Rightarrow> now < u \<and> has_offset s)"
proof (intro conjI allI)
  have "p (toISOString t) = Some t" using assms by (simp add: reads_iso_def)
  then show "parseSchedule p (toISOString t) now = Inr t \<longleftrightarrow> now < t"
    "parseSchedule p (toISOString t) now = Inl (PlainError ''Schedule must be in the future'') \<longleftrightarrow> t \<le> now"
    by (simp_all add: parseSchedule_def has_offset_iso)
  show "case parseSchedule p s now of Inl e \<Rightarrow> True | Inr u \<Rightarrow> now < u \<and> has_offset s" for s
    using parseSchedule_future by (cases "parseSchedule p s now") fastforce+
qed

theorem parseSchedule_roundtrip_witness:
  "parseSchedule parse_iso ''2026-02-02T02:40:00.000Z'' 1769999999999 = Inr 1770000000000 \<and>
   parseSchedule parse_iso ''2026-02-02T02:40:00'' 0 =
     Inl (PlainError ''Schedule must be ISO-8601 with an explicit UTC offset or Z'') \<and>
   has_offset ''2026-02-02T02:40:00+03:30''"
proof (intro conjI)
  have "toISOString 1770000000000 = ''2026-02-02T02:40:00.000Z''" by code_simp
  moreover have "four_digit_time 1770000000000" by (simp add: four_digit_time_def)
  note parseSchedule_roundtrip [OF parse_iso_reads this, of 1769999999999]
  ultimately show "parseSchedule parse_iso ''2026-02-02T02:40:00.000Z'' 1769999999999 = Inr 1770000000000"
    by simp
qed code_simp+

end
