(* ===== verification/Health.thy ===== *)
theory Health
  imports SmallRepos Config
begin

text \<open>
  The health report of \<open>src/src/health/health-service.ts\<close> and the test for usable credentials of
  \<open>auth-repository.ts\<close>.  The JSON reader and the journal mode of SQLite are arguments.
\<close>

section \<open>Credentials\<close>

text \<open>A property of a parsed object; the last of two equal keys wins.\<close>

definition json_field :: "string \<Rightarrow> json \<Rightarrow> json option" where
  "json_field k j = (case j of JObj fs \<Rightarrow> map_of (rev fs) k | _ \<Rightarrow> None)"

definition json_truthy :: "json option \<Rightarrow> bool" where
  "json_truthy j \<longleftrightarrow>
     (case j of
        None \<Rightarrow> False
      | Some v \<Rightarrow>
          (case v of
             JNull \<Rightarrow> False | JBool b \<Rightarrow> b | JNum n \<Rightarrow> n \<noteq> 0 | JStr s \<Rightarrow> s \<noteq> []
           | JArr _ \<Rightarrow> True | JObj _ \<Rightarrow> True))"

definition hasCredentials :: "(string \<Rightarrow> json option) \<Rightarrow> database \<Rightarrow> bool" where
  "hasCredentials json_parse s \<longleftrightarrow>
     (case auth_getCredentials s of
        None \<Rightarrow> False
      | Some stored \<Rightarrow>
          stored \<noteq> [] \<and>
          (case json_parse stored of
             None \<Rightarrow> False
           | Some c \<Rightarrow>
               json_field ''registered'' c = Some (JBool True) \<or>
               json_truthy (json_field ''me'' c) \<and> json_truthy (json_field ''account'' c)))"

section \<open>The report\<close>

datatype auth_availability = AuthAvailable | AuthRequired

record health_report =
  hrHealthy :: bool
  hrDatabaseReachable :: bool
  hrJournalMode :: string
  hrConnectionState :: string
  hrAuthState :: auth_availability
  hrOwnJid :: "string option"
  hrQueueCounts :: "(job_status \<times> nat) list"
  hrOldestPending :: "string option"
  hrReviewRequired :: nat
  hrFailed :: nat
  hrLastSuccessfulSend :: "string option"
  hrLastConnectionAt :: "string option"
  hrDryRun :: bool
  hrWorkerState :: string
  hrControllerState :: string

definition counted :: "job_status \<Rightarrow> (job_status \<times> nat) list \<Rightarrow> nat" where
  "counted st cs = (case map_of cs st of None \<Rightarrow> 0 | Some n \<Rightarrow> n)"

definition health_of ::
    "(string \<Rightarrow> json option) \<Rightarrow> string \<Rightarrow> app_config \<Rightarrow> database \<Rightarrow> health_report" where
  "health_of json_parse journal cfg s =
     (let connection = or_else (state_get ''connectivity'' s) ''DISCONNECTED'';
          available = hasCredentials json_parse s;
          serious = connection \<in> {''AUTH_REQUIRED'', ''LOGGED_OUT'', ''FATAL''}
      in \<lparr>hrHealthy = (\<not> serious \<and> (available \<or> cfgDryRun cfg)), hrDatabaseReachable = True,
          hrJournalMode = journal, hrConnectionState = connection,
          hrAuthState = (if available then AuthAvailable else AuthRequired),
          hrOwnJid = state_get ''own_jid'' s, hrQueueCounts = counts s,
          hrOldestPending = oldestPending s, hrReviewRequired = counted REVIEW_REQUIRED (counts s),
          hrFailed = counted FAILED (counts s), hrLastSuccessfulSend = lastSuccessfulSend s,
          hrLastConnectionAt = state_get ''last_connection_at'' s, hrDryRun = cfgDryRun cfg,
          hrWorkerState = or_else (state_get ''worker_state'' s) ''STOPPED'',
          hrControllerState = or_else (state_get ''controller_state'' s) ''DISABLED''\<rparr>)"

section \<open>The counts\<close>

lemma all_statuses_complete: "st \<in> set all_statuses"
  by (cases st) (simp_all add: all_statuses_def)

lemma all_statuses_distinct: "distinct (sort all_statuses)"
  unfolding distinct_sort by (simp add: all_statuses_def)

lemma map_of_pairs: "map_of (map (\<lambda>x. (x, f x)) xs) x = (if x \<in> set xs then Some (f x) else None)"
  by (induction xs) auto

lemma counted_group_counts: "counted st (group_counts js) = count_status st js"
  using all_statuses_complete [of st]
  by (simp add: counted_def group_counts_def map_of_pairs)

lemma group_counts_exact: "(st, n) \<in> set (group_counts js) \<Longrightarrow> n = count_status st js \<and> 0 < n"
  by (auto simp: group_counts_def)

lemma sum_count_status:
  "sum_list (map (\<lambda>st. count_status st js) (sort all_statuses)) = length js"
proof -
  have "(\<Sum>st \<in> set (sort all_statuses). count_status st js) = length js" for js :: "queue_job list"
  proof (induction js)
    case (Cons j js)
    have "count_status st (j # js) = (if st = jStatus j then 1 else 0) + count_status st js" for st
      by (auto simp: count_status_def)
    then show ?case
      using Cons all_statuses_complete [of "jStatus j"] by (simp add: sum.distrib)
  qed (simp add: count_status_def)
  then show ?thesis by (simp add: sum_list_distinct_conv_sum_set [OF all_statuses_distinct])
qed

lemma sum_list_filter_pos: "sum_list (map f (filter (\<lambda>x. 0 < f x) xs)) = sum_list (map f xs)"
  for f :: "'a \<Rightarrow> nat"
  by (induction xs) auto

text \<open>
  The report tells the queue as it is: the counts by status add up to all jobs, the number of
  jobs to review and of failed ones are the true numbers, no status is listed with zero; and the
  service calls itself healthy exactly when it neither lost its authorisation nor is beyond
  recovery, and has credentials or runs dry.
\<close>

theorem health_report_true:
  "sum_list (map snd (hrQueueCounts (health_of p jm cfg s))) = length (dbJobs s) \<and>
   (\<forall>(st, n) \<in> set (hrQueueCounts (health_of p jm cfg s)). n = count_status st (dbJobs s) \<and> 0 < n) \<and>
   hrReviewRequired (health_of p jm cfg s) = count_status REVIEW_REQUIRED (dbJobs s) \<and>
   hrFailed (health_of p jm cfg s) = count_status FAILED (dbJobs s) \<and>
   (hrHealthy (health_of p jm cfg s) \<longleftrightarrow>
      hrConnectionState (health_of p jm cfg s) \<notin> {''AUTH_REQUIRED'', ''LOGGED_OUT'', ''FATAL''} \<and>
      (hrAuthState (health_of p jm cfg s) = AuthAvailable \<or> cfgDryRun cfg))"
proof (intro conjI)
  show "sum_list (map snd (hrQueueCounts (health_of p jm cfg s))) = length (dbJobs s)"
    using sum_list_filter_pos [of "\<lambda>st. count_status st (dbJobs s)" "sort all_statuses"]
      sum_count_status [of "dbJobs s"]
    by (simp add: health_of_def Let_def counts_def group_counts_def comp_def)
qed (auto simp: health_of_def Let_def counts_def counted_group_counts dest: group_counts_exact)

definition dry_config :: app_config where
  "dry_config = \<lparr>cfgDatabasePath = [], cfgStateDir = [], cfgMediaDir = [],
     cfgLockPath = [], cfgLogLevel = [], cfgTimezone = [], cfgDryRun = True, cfgWorkerPollMs = 0,
     cfgSendIntervalMs = 0, cfgMaxAttempts = 1, cfgRetryBaseMs = 0, cfgRetryMaxMs = 0,
     cfgMaxMediaBytes = 0, cfgSelfControllerEnabled = False, cfgPairingPhone = None\<rparr>"

theorem health_report_true_witness:
  "hrQueueCounts (health_of (\<lambda>_. None) ''wal'' dry_config sample_db) =
     [(FAILED, 1), (PENDING, 2), (PROCESSING, 1), (RETRY, 1), (SCHEDULED, 1)] \<and>
   sum_list (map snd (hrQueueCounts (health_of (\<lambda>_. None) ''wal'' dry_config sample_db))) =
     length (dbJobs sample_db) \<and>
   hrFailed (health_of (\<lambda>_. None) ''wal'' dry_config sample_db) = count_status FAILED (dbJobs sample_db)"
proof (intro conjI)
  show "hrQueueCounts (health_of (\<lambda>_. None) ''wal'' dry_config sample_db) =
     [(FAILED, 1), (PENDING, 2), (PROCESSING, 1), (RETRY, 1), (SCHEDULED, 1)]" by code_simp
qed (use health_report_true [of "\<lambda>_. None" "''wal''" dry_config sample_db] in blast)+

end
