(* ===== verification/MediaStaging.thy ===== *)
theory MediaStaging
  imports Domain
begin

text \<open>
  \<open>src/src/messaging/media-staging.ts\<close>: the staging of a media file into content-addressed
  storage.  The file system is a map from paths to nodes.  The digest, the Unicode form NFKC and
  the resolution of a path are arguments, and so is the outcome of the copy, which may fail or
  find that another process has put the file in place.
\<close>

section \<open>File names\<close>

definition safe_char :: "char \<Rightarrow> bool" where
  "safe_char c \<longleftrightarrow> is_lower_letter c \<or> is_upper_letter c \<or> is_digit c \<or>
     c = CHR ''.'' \<or> c = CHR ''_'' \<or> c = CHR ''-''"

text \<open>\<open>replace(/[^a-zA-Z0-9._-]+/g, '_')\<close>: each run of other characters becomes one underscore.\<close>

fun replace_runs :: "bool \<Rightarrow> string \<Rightarrow> string" where
  "replace_runs inside [] = []"
| "replace_runs inside (c # cs) =
     (if safe_char c then c # replace_runs False cs
      else if inside then replace_runs True cs else CHR ''_'' # replace_runs True cs)"

text \<open>\<open>basename\<close> of Node's POSIX paths.\<close>

definition basename :: "string \<Rightarrow> string" where
  "basename p =
     rev (takeWhile (\<lambda>c. c \<noteq> CHR ''/'') (dropWhile (\<lambda>c. c = CHR ''/'') (rev p)))"

definition sanitizeFilename :: "(string \<Rightarrow> string) \<Rightarrow> string \<Rightarrow> string" where
  "sanitizeFilename nfkc v =
     (let cleaned = take 120
            (dropWhile (\<lambda>c. c = CHR ''.'') (replace_runs False (nfkc (basename v))))
      in if cleaned = [] then ''attachment.bin'' else cleaned)"

text \<open>\<open>extname\<close> of a name without a slash: from the last dot, unless that is the first character.\<close>

definition extname :: "string \<Rightarrow> string" where
  "extname name =
     (let t = takeWhile (\<lambda>c. c \<noteq> CHR ''.'') (rev name)
      in if length name \<le> Suc (length t) then [] else CHR ''.'' # rev t)"

definition mime_by_extension :: "(string \<times> string \<times> payload_type) list" where
  "mime_by_extension =
     [(''.jpg'', ''image/jpeg'', PT_image), (''.jpeg'', ''image/jpeg'', PT_image),
      (''.png'', ''image/png'', PT_image), (''.webp'', ''image/webp'', PT_image),
      (''.gif'', ''image/gif'', PT_video), (''.mp4'', ''video/mp4'', PT_video),
      (''.mov'', ''video/quicktime'', PT_video), (''.mkv'', ''video/x-matroska'', PT_video),
      (''.mp3'', ''audio/mpeg'', PT_audio), (''.ogg'', ''audio/ogg'', PT_audio),
      (''.opus'', ''audio/ogg; codecs=opus'', PT_audio), (''.wav'', ''audio/wav'', PT_audio),
      (''.pdf'', ''application/pdf'', PT_document), (''.txt'', ''text/plain'', PT_document),
      (''.zip'', ''application/zip'', PT_document)]"

definition detect :: "string \<Rightarrow> string \<times> payload_type" where
  "detect extension =
     (case map_of mime_by_extension extension of
        None \<Rightarrow> (''application/octet-stream'', PT_document)
      | Some d \<Rightarrow> d)"

section \<open>Staging\<close>

datatype fs_node = RegularFile string | Directory

type_synonym files = "string \<rightharpoonup> fs_node"

record staged_media =
  smPath :: string
  smHash :: string
  smByteSize :: nat
  smMimeType :: string
  smPayloadType :: payload_type
  smCreated :: bool
  smSafeFilename :: string

text \<open>What the copy to a temporary file and the rename did.\<close>

datatype copy_outcome = Copied | CopyFailed error | CopyRaced error

record stager =
  sgMediaDir :: string
  sgMaxBytes :: int
  sgResolve :: "string \<Rightarrow> string"
  sgDigest :: "string \<Rightarrow> string"
  sgNfkc :: "string \<Rightarrow> string"

definition make_directory :: "string \<Rightarrow> files \<Rightarrow> files" where
  "make_directory d fs = (case fs d of None \<Rightarrow> fs(d \<mapsto> Directory) | Some _ \<Rightarrow> fs)"

definition staged_path :: "stager \<Rightarrow> string \<Rightarrow> string \<Rightarrow> string" where
  "staged_path sg hash extension =
     sgMediaDir sg @ ''/'' @ take 2 hash @ ''/'' @ hash @
     (if extension = [] then ''.bin'' else extension)"

definition stage ::
    "stager \<Rightarrow> copy_outcome \<Rightarrow> string \<Rightarrow> string option \<Rightarrow> (files, error, staged_media) io" where
  "stage sg outcome sourcePath requestedFilename =
     (let source = sgResolve sg sourcePath in
      bindE (readE (\<lambda>fs. fs source)) (\<lambda>node.
        case node of
          None \<Rightarrow> throw (PlainError (''ENOENT: no such file or directory, stat '' @ source))
        | Some Directory \<Rightarrow> throw (PlainError ''Media path must be a regular file'')
        | Some (RegularFile content) \<Rightarrow>
            if sgMaxBytes sg < int (length content)
            then throw (PlainError (''Media exceeds configured maximum of '' @
                   show_int (sgMaxBytes sg) @ '' bytes''))
            else
              (let safeFilename = sanitizeFilename (sgNfkc sg)
                     (case requestedFilename of Some f \<Rightarrow> f | None \<Rightarrow> basename source);
                   extension = js_lower (extname safeFilename);
                   detected = detect extension;
                   hash = sgDigest sg content;
                   target = staged_path sg hash extension;
                   result = (\<lambda>created. \<lparr>smPath = target, smHash = hash,
                     smByteSize = length content, smMimeType = fst detected,
                     smPayloadType = snd detected, smCreated = created,
                     smSafeFilename = safeFilename\<rparr>)
               in bindE (writeE (make_directory (sgMediaDir sg @ ''/'' @ take 2 hash))) (\<lambda>_.
                  bindE (readE (\<lambda>fs. fs target)) (\<lambda>existing.
                    case existing of
                      Some _ \<Rightarrow> ret (result False)
                    | None \<Rightarrow>
                        (case outcome of
                           Copied \<Rightarrow>
                             bindE (writeE (\<lambda>fs. fs(target \<mapsto> RegularFile content)))
                               (\<lambda>_. ret (result True))
                         | CopyRaced e \<Rightarrow>
                             bindE (writeE (\<lambda>fs. fs(target \<mapsto> RegularFile content)))
                               (\<lambda>_. ret (result True))
                         | CopyFailed e \<Rightarrow> throw e))))))"

definition remove_file :: "string \<Rightarrow> (files, error, unit) io" where
  "remove_file path = writeE (\<lambda>fs. fs(path := None))"

section \<open>Safe names\<close>

lemma replace_runs_safe: "c \<in> set (replace_runs b s) \<Longrightarrow> safe_char c"
  by (induction b s rule: replace_runs.induct) (auto simp: safe_char_def split: if_splits)

lemma replace_runs_id: "list_all safe_char s \<Longrightarrow> replace_runs False s = s"
  by (induction s) auto

lemma slash_not_safe: "\<not> safe_char (CHR ''/'')"
  by (simp add: safe_char_def is_lower_letter_def is_upper_letter_def is_digit_def)

text \<open>
  Whatever name is asked for, the name a document is sent under is 1 to 120 characters
  from letters, digits, dot, underscore and hyphen, does not start with a dot and contains no
  path separator.
\<close>

theorem sanitizeFilename_safe:
  "sanitizeFilename nfkc v \<noteq> [] \<and> length (sanitizeFilename nfkc v) \<le> 120 \<and>
   list_all safe_char (sanitizeFilename nfkc v) \<and>
   hd (sanitizeFilename nfkc v) \<noteq> CHR ''.'' \<and> CHR ''/'' \<notin> set (sanitizeFilename nfkc v)"
proof -
  let ?s = "replace_runs False (nfkc (basename v))"
  let ?c = "take 120 (dropWhile (\<lambda>c. c = CHR ''.'') ?s)"
  have "list_all safe_char ?c"
    by (auto simp: list_all_iff dest!: in_set_takeD set_dropWhileD replace_runs_safe)
  moreover have "hd ?c \<noteq> CHR ''.''" if "?c \<noteq> []"
    using that hd_dropWhile [of "\<lambda>c. c = CHR ''.''" ?s] by auto
  moreover have "list_all safe_char ''attachment.bin''" by code_simp
  ultimately have all: "list_all safe_char (sanitizeFilename nfkc v)"
    and "hd (sanitizeFilename nfkc v) \<noteq> CHR ''.''"
    by (auto simp: sanitizeFilename_def Let_def)
  moreover have "CHR ''/'' \<notin> set (sanitizeFilename nfkc v)"
    using all slash_not_safe by (auto simp: list_all_iff)
  ultimately show ?thesis by (simp add: sanitizeFilename_def Let_def)
qed

lemma extname_safe: "list_all safe_char s \<Longrightarrow> CHR ''/'' \<notin> set (extname s)"
  using slash_not_safe
  by (auto simp: extname_def Let_def list_all_iff dest!: set_takeWhileD)

section \<open>What staging does\<close>

definition other_paths_kept :: "files \<Rightarrow> files \<Rightarrow> string set \<Rightarrow> bool" where
  "other_paths_kept fs fs' ps \<longleftrightarrow> (\<forall>p. p \<notin> ps \<longrightarrow> fs' p = fs p)"

lemma shard_not_target: "sgMediaDir sg @ ''/'' @ take 2 h \<noteq> staged_path sg h ext"
  by (simp add: staged_path_def)

text \<open>
  A staged file exists afterwards, with the digest and the size of the source, under a path
  determined by its content and extension; it is written only when nothing was there, existing
  files are never overwritten, and a failed copy leaves no file behind.
\<close>

theorem stage_outcome:
  assumes run: "stage sg outcome src name fs = (res, fs')"
    and src: "fs (sgResolve sg src) = Some (RegularFile content)"
    and ext: "ext = js_lower (extname (sanitizeFilename (sgNfkc sg)
        (case name of Some f \<Rightarrow> f | None \<Rightarrow> basename (sgResolve sg src))))"
  shows "(case res of
      Inr m \<Rightarrow> smPath m = staged_path sg (sgDigest sg content) ext \<and>
        smHash m = sgDigest sg content \<and> int (smByteSize m) \<le> sgMaxBytes sg \<and>
        smCreated m = (fs (smPath m) = None) \<and> smPayloadType m \<noteq> PT_text \<and>
        fs' (smPath m) = (if smCreated m then Some (RegularFile content) else fs (smPath m)) \<and>
        other_paths_kept fs fs' {smPath m, sgMediaDir sg @ ''/'' @ take 2 (sgDigest sg content)}
    | Inl e \<Rightarrow>
        other_paths_kept fs fs' {sgMediaDir sg @ ''/'' @ take 2 (sgDigest sg content)})"
proof -
  have pt: "snd (detect x) \<noteq> PT_text" for x
    by (auto simp: detect_def mime_by_extension_def split: option.split)
  show ?thesis
    using run shard_not_target [of sg "sgDigest sg content" ext] pt [of ext]
    unfolding stage_def Let_def ext [symmetric]
    by (auto simp: src run_bind make_directory_def other_paths_kept_def
        split: if_splits option.splits copy_outcome.splits)
qed

definition sample_stager :: stager where
  "sample_stager = \<lparr>sgMediaDir = ''/m'', sgMaxBytes = 10, sgResolve = (\<lambda>p. p),
     sgDigest = (\<lambda>c. ''ab'' @ c), sgNfkc = (\<lambda>s. s)\<rparr>"

definition sample_files :: files where
  "sample_files = [''/tmp/a b.JPG'' \<mapsto> RegularFile ''xyz'']"

theorem stage_outcome_witness:
  "fst (stage sample_stager Copied ''/tmp/a b.JPG'' None sample_files) =
     Inr \<lparr>smPath = ''/m/ab/abxyz.jpg'', smHash = ''abxyz'', smByteSize = 3,
          smMimeType = ''image/jpeg'', smPayloadType = PT_image, smCreated = True,
          smSafeFilename = ''a_b.JPG''\<rparr> \<and>
   snd (stage sample_stager Copied ''/tmp/a b.JPG'' None sample_files) ''/m/ab/abxyz.jpg'' =
     Some (RegularFile ''xyz'')"
proof -
  let ?run = "stage sample_stager Copied ''/tmp/a b.JPG'' None sample_files"
  have res: "fst ?run = Inr \<lparr>smPath = ''/m/ab/abxyz.jpg'', smHash = ''abxyz'', smByteSize = 3,
          smMimeType = ''image/jpeg'', smPayloadType = PT_image, smCreated = True,
          smSafeFilename = ''a_b.JPG''\<rparr>" by code_simp
  have ext: "''.jpg'' = js_lower (extname (sanitizeFilename (sgNfkc sample_stager)
        (case None of Some f \<Rightarrow> f | None \<Rightarrow> basename (sgResolve sample_stager ''/tmp/a b.JPG''))))"
    and src: "sample_files (sgResolve sample_stager ''/tmp/a b.JPG'') = Some (RegularFile ''xyz'')"
    by code_simp+
  have run: "?run = (fst ?run, snd ?run)" by simp
  note eff = stage_outcome [OF run src ext, unfolded res sum.case]
  have "snd ?run ''/m/ab/abxyz.jpg'' = Some (RegularFile ''xyz'')"
    by (rule eff [unfolded staged_media.select_convs if_True, THEN conjunct2, THEN conjunct2,
          THEN conjunct2, THEN conjunct2, THEN conjunct2, THEN conjunct1])
  with res show ?thesis by blast
qed

end
