(* ===== verification/Idempotency.thy ===== *)
theory Idempotency
  imports Domain "HOL-Library.Multiset"
begin

text \<open>
  \<open>src/src/messaging/idempotency.ts\<close>: the canonical form of a request and its key.  The digest of
  Node's \<open>crypto\<close> is the parameter \<open>sha256\<close>, the locale-sensitive sort of the option names (and
  the order in which an object then enumerates them) the parameter \<open>sort_options\<close>.  On
  characters below 256 the normal form NFC is the identity.
\<close>

section \<open>Definitions\<close>

fun crlf_to_lf :: "string \<Rightarrow> string" where
  "crlf_to_lf (a # b # s) =
     (if a = CHR 13 \<and> b = CHR 10 then CHR 10 # crlf_to_lf s else a # crlf_to_lf (b # s))"
| "crlf_to_lf s = s"

definition normalizeMessage :: "string option \<Rightarrow> string" where
  "normalizeMessage v = js_trim (crlf_to_lf (case v of None \<Rightarrow> [] | Some s \<Rightarrow> s))"

record idempotency_input =
  iiDestinationJid :: string
  iiPayloadType :: payload_type
  iiText :: string
  iiMediaHash :: "string option"
  iiScheduleIdentity :: string
  iiFilename :: "string option"
  iiOptions :: "(string \<times> json) list"
  iiForceNonce :: "string option"
  iiDryRun :: bool

definition json_text :: "string option \<Rightarrow> json" where
  "json_text x = (case x of None \<Rightarrow> JNull | Some s \<Rightarrow> JStr s)"

definition canonical ::
    "((string \<times> json) list \<Rightarrow> (string \<times> json) list) \<Rightarrow> idempotency_input \<Rightarrow> json" where
  "canonical sort_options i = JObj
     ([(''destinationJid'', JStr (iiDestinationJid i)),
       (''payloadType'', JStr (show_payload (iiPayloadType i))),
       (''text'', JStr (iiText i)),
       (''mediaHash'', json_text (iiMediaHash i)),
       (''scheduleIdentity'', JStr (iiScheduleIdentity i)),
       (''filename'', json_text (iiFilename i)),
       (''options'', JObj (sort_options (iiOptions i))),
       (''forceNonce'', json_text (iiForceNonce i))] @
      (if iiDryRun i then [(''dryRun'', JBool True)] else []))"

definition buildIdempotencyKey ::
    "(string \<Rightarrow> string) \<Rightarrow> ((string \<times> json) list \<Rightarrow> (string \<times> json) list) \<Rightarrow>
     idempotency_input \<Rightarrow> string" where
  "buildIdempotencyKey sha256 sort_options i = sha256 (stringify (canonical sort_options i))"

section \<open>The key determines the request\<close>

text \<open>Two inputs that stand for the same delivery: options up to their order, all else equal.\<close>

definition same_delivery :: "idempotency_input \<Rightarrow> idempotency_input \<Rightarrow> bool" where
  "same_delivery i j \<longleftrightarrow>
     iiDestinationJid i = iiDestinationJid j \<and> iiPayloadType i = iiPayloadType j \<and>
     iiText i = iiText j \<and> iiMediaHash i = iiMediaHash j \<and>
     iiScheduleIdentity i = iiScheduleIdentity j \<and> iiFilename i = iiFilename j \<and>
     mset (iiOptions i) = mset (iiOptions j) \<and> iiForceNonce i = iiForceNonce j \<and>
     iiDryRun i = iiDryRun j"

lemma json_text_inj: "json_text a = json_text b \<longleftrightarrow> a = b"
  by (cases a; cases b) (simp_all add: json_text_def)

lemma show_payload_inj: "show_payload a = show_payload b \<longleftrightarrow> a = b"
  by (cases a; cases b) simp_all

text \<open>
  What the sort does: it permutes, and on names of ASCII letters, digits and underscores, which
  every collation tells apart, the result depends only on which options there are.
\<close>

definition plain_names :: "(string \<times> json) list \<Rightarrow> bool" where
  "plain_names xs \<longleftrightarrow>
     distinct (map fst xs) \<and>
     list_all (\<lambda>kv. list_all (\<lambda>c. is_lower_letter c \<or> is_upper_letter c \<or> is_digit c \<or> c = CHR ''_'')
       (fst kv)) xs"

definition sorts_options :: "((string \<times> json) list \<Rightarrow> (string \<times> json) list) \<Rightarrow> bool" where
  "sorts_options so \<longleftrightarrow>
     (\<forall>xs. mset (so xs) = mset xs) \<and>
     (\<forall>xs ys. plain_names xs \<longrightarrow> mset xs = mset ys \<longrightarrow> so xs = so ys)"

lemma canonical_eq_iff:
  assumes "sorts_options so" and "plain_names (iiOptions i)"
  shows "canonical so i = canonical so j \<longleftrightarrow> same_delivery i j"
proof -
  have "so (iiOptions i) = so (iiOptions j) \<longleftrightarrow> mset (iiOptions i) = mset (iiOptions j)"
    using assms by (metis sorts_options_def)
  then show ?thesis
    by (cases "iiDryRun i"; cases "iiDryRun j")
      (auto simp: canonical_def same_delivery_def json_text_inj show_payload_inj)
qed

text \<open>
  C39.  The idempotency key identifies the delivery: requests for the same delivery have the same
  key, whatever the order of their options, and two requests with the same key are the same
  delivery unless their canonical texts are a collision of the digest.
\<close>

theorem idempotency_key_identifies:
  assumes "sorts_options so" and "plain_names (iiOptions i)"
  shows "(same_delivery i j \<longrightarrow> buildIdempotencyKey sha so i = buildIdempotencyKey sha so j) \<and>
    (buildIdempotencyKey sha so i = buildIdempotencyKey sha so j \<longrightarrow>
       same_delivery i j \<or>
       stringify (canonical so i) \<noteq> stringify (canonical so j) \<and>
       sha (stringify (canonical so i)) = sha (stringify (canonical so j)))"
  using canonical_eq_iff [OF assms, of j] by (auto simp: buildIdempotencyKey_def stringify_inj)

text \<open>An instance of the sort: by the text of the name.\<close>

definition by_name :: "(string \<times> json) list \<Rightarrow> (string \<times> json) list" where
  "by_name xs = sort_key fst xs"

lemma by_name_sorts: "sorts_options by_name"
proof -
  have "sort_key fst xs = sort_key fst ys"
    if p: "plain_names xs" and m: "mset xs = mset ys" for xs ys :: "(string \<times> json) list"
  proof (rule map_sorted_distinct_set_unique [where f = fst])
    have d: "distinct (map fst xs)" using p by (simp add: plain_names_def)
    moreover have "mset (map fst ys) = mset (map fst xs)" using m by simp
    ultimately have d': "distinct (map fst ys)" by (metis mset_eq_imp_distinct_iff)
    have st: "set xs = set ys" using m by (metis set_mset_mset)
    show "inj_on fst (set (sort_key fst xs) \<union> set (sort_key fst ys))"
      using d st by (simp add: distinct_map)
    show "distinct (map fst (sort_key fst xs))" "distinct (map fst (sort_key fst ys))"
      using d d' by (simp_all add: distinct_map)
    show "set (sort_key fst xs) = set (sort_key fst ys)" using st by simp
  qed simp_all
  then show ?thesis by (simp add: sorts_options_def by_name_def)
qed

definition sample_input :: "(string \<times> json) list \<Rightarrow> bool \<Rightarrow> idempotency_input" where
  "sample_input opts dry =
     \<lparr>iiDestinationJid = ''1@g.us'', iiPayloadType = PT_text, iiText = ''hi'', iiMediaHash = None,
      iiScheduleIdentity = ''IMMEDIATE'', iiFilename = None, iiOptions = opts,
      iiForceNonce = None, iiDryRun = dry\<rparr>"

theorem idempotency_key_identifies_witness:
  "buildIdempotencyKey id by_name (sample_input [(''b'', JNum 1), (''a'', JNull)] False) =
     buildIdempotencyKey id by_name (sample_input [(''a'', JNull), (''b'', JNum 1)] False) \<and>
   buildIdempotencyKey id by_name (sample_input [(''b'', JNum 1), (''a'', JNull)] False) \<noteq>
     buildIdempotencyKey id by_name (sample_input [(''b'', JNum 1), (''a'', JNull)] True)"
proof -
  let ?i = "sample_input [(''b'', JNum 1), (''a'', JNull)] False"
  let ?j = "sample_input [(''a'', JNull), (''b'', JNum 1)] False"
  let ?k = "sample_input [(''b'', JNum 1), (''a'', JNull)] True"
  have d: "plain_names (iiOptions ?i)" by code_simp
  have s: "same_delivery ?i ?j" and n: "\<not> same_delivery ?i ?k"
    by (simp_all add: same_delivery_def sample_input_def)
  note key = idempotency_key_identifies [OF by_name_sorts d, of _ id]
  show ?thesis
    using key [of ?j, THEN conjunct1] key [of ?k, THEN conjunct2] s n by (metis id_apply)
qed

section \<open>Normalised messages\<close>

lemma crlf_idem: "CHR 13 \<notin> set s \<Longrightarrow> crlf_to_lf s = s"
  by (induction s rule: crlf_to_lf.induct) auto

lemma crlf_length: "length (crlf_to_lf s) \<le> length s"
  by (induction s rule: crlf_to_lf.induct) auto

end
