(* ===== verification/MessageService.thy ===== *)
theory MessageService
  imports DestinationRepo SmallRepos MediaStaging Idempotency Clock Config
begin

text \<open>
  \<open>MessageService\<close> of \<open>src/src/messaging/message-service.ts\<close>: the checks before a message is
  queued, its idempotency key, and the reuse of the job a duplicate request finds.  The state is
  the database beside the file system.  A request without media has no suspension point; with
  media, the file is staged before the checks on the text.
\<close>

section \<open>Requests\<close>

record message_env =
  meConfig :: app_config
  meStager :: stager
  meSha256 :: "string \<Rightarrow> string"
  meSortOptions :: "(string \<times> json) list \<Rightarrow> (string \<times> json) list"

text \<open>What one call reads from its surroundings: the fresh UUID, the clock, the copy.\<close>

record call_env =
  ceUuid :: string
  ceNow :: int
  ceMediaNow :: int
  ceCreateNow :: int
  ceCopy :: copy_outcome

record queue_request =
  rqDestination :: string
  rqText :: "string option"
  rqMediaPath :: "string option"
  rqFilename :: "string option"
  rqScheduledAt :: "int option"
  rqForce :: bool
  rqActor :: "string option"
  rqOptions :: "(string \<times> json) list"
  rqBatchId :: "string option"
  rqDryRun :: "bool option"

record queue_result =
  qrJob :: queue_job
  qrDuplicate :: bool

type_synonym world = "database \<times> files"
type_synonym 'a world_io = "(world, error, 'a) io"

definition demand :: "bool \<Rightarrow> error \<Rightarrow> ('s, error, unit) io" where
  "demand ok e = (if ok then ret () else throw e)"

definition truthy :: "string option \<Rightarrow> bool" where
  "truthy s \<longleftrightarrow> (case s of None \<Rightarrow> False | Some t \<Rightarrow> t \<noteq> [])"

definition in_future :: "int option \<Rightarrow> int \<Rightarrow> bool" where
  "in_future scheduled now \<longleftrightarrow> (case scheduled of None \<Rightarrow> True | Some t \<Rightarrow> now < t)"

definition schedule_identity :: "int option \<Rightarrow> string" where
  "schedule_identity scheduled =
     (case scheduled of None \<Rightarrow> ''IMMEDIATE'' | Some t \<Rightarrow> toISOString t)"

definition scheduled_text :: "int option \<Rightarrow> int \<Rightarrow> string" where
  "scheduled_text scheduled now = toISOString (case scheduled of None \<Rightarrow> now | Some t \<Rightarrow> t)"

definition initial_status :: "int option \<Rightarrow> new_job_status" where
  "initial_status scheduled = (if scheduled = None then NEW_PENDING else NEW_SCHEDULED)"

text \<open>
  The creation and the handling of a duplicate: the job that already stands for the request is
  returned; other errors go on to \<open>otherwise\<close>.
\<close>

definition create_or_reuse ::
    "new_queue_job \<Rightarrow> string \<Rightarrow> string \<Rightarrow> (error \<Rightarrow> queue_result world_io) \<Rightarrow> queue_result world_io" where
  "create_or_reuse job actor now otherwise =
     catchE
       (bindE (on_fst (create job actor now)) (\<lambda>row. ret \<lparr>qrJob = row, qrDuplicate = False\<rparr>))
       (\<lambda>e. case e of
              DuplicateJobError existing \<Rightarrow>
                bindE (on_fst (job_get existing)) (\<lambda>found.
                  case found of
                    None \<Rightarrow> throw e
                  | Some row \<Rightarrow> ret \<lparr>qrJob = row, qrDuplicate = True\<rparr>)
            | _ \<Rightarrow> otherwise e)"

section \<open>Forwarding\<close>

record forward_request =
  frDestination :: string
  frSourceKey :: string
  frScheduledAt :: "int option"
  frActor :: "string option"
  frBatchId :: "string option"

definition forward_input :: "message_env \<Rightarrow> forward_request \<Rightarrow> string \<Rightarrow> idempotency_input" where
  "forward_input me r jid =
     \<lparr>iiDestinationJid = jid, iiPayloadType = PT_text, iiText = [], iiMediaHash = None,
      iiScheduleIdentity = schedule_identity (frScheduledAt r), iiFilename = None,
      iiOptions = [(''forwardSourceKey'', JStr (frSourceKey r))], iiForceNonce = None,
      iiDryRun = cfgDryRun (meConfig me)\<rparr>"

definition forward_job ::
    "message_env \<Rightarrow> call_env \<Rightarrow> forward_request \<Rightarrow> string \<Rightarrow> new_queue_job" where
  "forward_job me ce r jid =
     \<lparr>nUuid = ceUuid ce, nDestinationJid = jid, nPayloadType = PT_text, nText = None,
      nMediaPath = None, nMediaHash = None, nMediaMime = None, nFilename = None,
      nScheduledAt = scheduled_text (frScheduledAt r) (ceNow ce),
      nStatus = initial_status (frScheduledAt r), nMaxAttempts = cfgMaxAttempts (meConfig me),
      nIdempotencyKey = buildIdempotencyKey (meSha256 me) (meSortOptions me) (forward_input me r jid),
      nOptionsJson = ''{}'', nRequestedBy = or_else (frActor r) ''self-controller'',
      nBatchId = frBatchId r, nDryRun = cfgDryRun (meConfig me),
      nForwardSourceKey = Some (frSourceKey r)\<rparr>"

definition enqueueForward ::
    "message_env \<Rightarrow> call_env \<Rightarrow> forward_request \<Rightarrow> queue_result world_io" where
  "enqueueForward me ce r =
     bindE (on_fst (readE (resolve (frDestination r)))) (\<lambda>found.
       case found of
         None \<Rightarrow> throw (NotFoundError (''Unknown destination: '' @ frDestination r))
       | Some d \<Rightarrow>
           bindE (demand (dEnabled d \<and> dCanSend d) (PlainError
             (''Destination \"'' @ dSubject d @ ''\" is not allowed to receive messages''))) (\<lambda>_.
           bindE (demand (in_future (frScheduledAt r) (ceNow ce))
             (PlainError ''Scheduled delivery must be in the future'')) (\<lambda>_.
           create_or_reuse (forward_job me ce r (dJid d)) (or_else (frActor r) ''self-controller'')
             (toISOString (ceCreateNow ce)) throw)))"

section \<open>Messages\<close>

definition text_limit :: "staged_media option \<Rightarrow> nat" where
  "text_limit staged = (if staged = None then 65536 else 1024)"

definition message_input ::
    "message_env \<Rightarrow> call_env \<Rightarrow> queue_request \<Rightarrow> string \<Rightarrow> string \<Rightarrow> staged_media option \<Rightarrow>
     idempotency_input" where
  "message_input me ce r jid text staged =
     \<lparr>iiDestinationJid = jid,
      iiPayloadType = (case staged of None \<Rightarrow> PT_text | Some m \<Rightarrow> smPayloadType m),
      iiText = text, iiMediaHash = map_option smHash staged,
      iiScheduleIdentity = schedule_identity (rqScheduledAt r),
      iiFilename = (if truthy (rqFilename r) then map_option smSafeFilename staged else None),
      iiOptions = rqOptions r,
      iiForceNonce = (if rqForce r then Some (ceUuid ce) else None),
      iiDryRun = or_else (rqDryRun r) (cfgDryRun (meConfig me))\<rparr>"

definition message_job ::
    "message_env \<Rightarrow> call_env \<Rightarrow> queue_request \<Rightarrow> string \<Rightarrow> string \<Rightarrow> staged_media option \<Rightarrow>
     new_queue_job" where
  "message_job me ce r jid text staged =
     \<lparr>nUuid = ceUuid ce, nDestinationJid = jid,
      nPayloadType = (case staged of None \<Rightarrow> PT_text | Some m \<Rightarrow> smPayloadType m),
      nText = (if text = [] then None else Some text),
      nMediaPath = map_option smPath staged, nMediaHash = map_option smHash staged,
      nMediaMime = map_option smMimeType staged, nFilename = map_option smSafeFilename staged,
      nScheduledAt = scheduled_text (rqScheduledAt r) (ceNow ce),
      nStatus = initial_status (rqScheduledAt r), nMaxAttempts = cfgMaxAttempts (meConfig me),
      nIdempotencyKey = buildIdempotencyKey (meSha256 me) (meSortOptions me)
        (message_input me ce r jid text staged),
      nOptionsJson = stringify (JObj (rqOptions r)),
      nRequestedBy = or_else (rqActor r) ''cli'', nBatchId = rqBatchId r,
      nDryRun = or_else (rqDryRun r) (cfgDryRun (meConfig me)), nForwardSourceKey = None\<rparr>"

text \<open>After an error of the creation, a file staged by this call and used by no job is removed.\<close>

definition discard_staged :: "staged_media option \<Rightarrow> error \<Rightarrow> queue_result world_io" where
  "discard_staged staged e =
     (case staged of
        None \<Rightarrow> throw e
      | Some m \<Rightarrow>
          if smCreated m
          then bindE (on_fst (removeIfUnreferenced (smHash m))) (\<lambda>removed.
                 if removed then bindE (on_snd (remove_file (smPath m))) (\<lambda>_. throw e)
                 else throw e)
          else throw e)"

definition stage_request ::
    "message_env \<Rightarrow> call_env \<Rightarrow> queue_request \<Rightarrow> staged_media option world_io" where
  "stage_request me ce r =
     (case rqMediaPath r of
        None \<Rightarrow> ret None
      | Some p \<Rightarrow>
          if p = [] then ret None
          else bindE (on_snd (stage (meStager me) (ceCopy ce) p (rqFilename r))) (\<lambda>m. ret (Some m)))"

definition save_staged :: "call_env \<Rightarrow> staged_media option \<Rightarrow> unit world_io" where
  "save_staged ce staged =
     (case staged of
        None \<Rightarrow> ret ()
      | Some m \<Rightarrow>
          bindE (on_fst (media_upsert (smHash m) (smPath m) (int (smByteSize m))
                   (Some (smMimeType m)) (toISOString (ceMediaNow ce)))) (\<lambda>_. ret ()))"

text \<open>The part of \<open>enqueue\<close> after the staging: the checks of the content, then the creation.\<close>

definition content_ok :: "call_env \<Rightarrow> queue_request \<Rightarrow> string \<Rightarrow> staged_media option \<Rightarrow> unit world_io" where
  "content_ok ce r text staged =
     bindE (demand (text \<noteq> [] \<or> staged \<noteq> None)
       (PlainError ''A message must contain text or a media file'')) (\<lambda>_.
     bindE (demand (length text \<le> text_limit staged) (PlainError
       ((if staged = None then ''Message'' else ''Media caption'') @ '' exceeds '' @
        show_nat (text_limit staged) @ '' characters''))) (\<lambda>_.
     demand (in_future (rqScheduledAt r) (ceNow ce))
       (PlainError ''Scheduled delivery must be in the future'')))"

definition queue_staged ::
    "message_env \<Rightarrow> call_env \<Rightarrow> queue_request \<Rightarrow> string \<Rightarrow> staged_media option \<Rightarrow>
     queue_result world_io" where
  "queue_staged me ce r jid staged =
     (let text = normalizeMessage (rqText r) in
      bindE (content_ok ce r text staged) (\<lambda>_.
      bindE (save_staged ce staged) (\<lambda>_.
      create_or_reuse (message_job me ce r jid text staged) (or_else (rqActor r) ''cli'')
        (toISOString (ceCreateNow ce)) (discard_staged staged))))"

definition enqueue :: "message_env \<Rightarrow> call_env \<Rightarrow> queue_request \<Rightarrow> queue_result world_io" where
  "enqueue me ce r =
     bindE (on_fst (readE (resolve (rqDestination r)))) (\<lambda>found.
       case found of
         None \<Rightarrow> throw (NotFoundError (''Unknown destination: '' @ rqDestination r @
                   ''. Refresh groups first.''))
       | Some d \<Rightarrow>
           bindE (demand (dEnabled d) (PlainError
             (''Destination \"'' @ dSubject d @ ''\" is not allowlisted''))) (\<lambda>_.
           bindE (demand (dCanSend d) (PlainError
             (''Destination \"'' @ dSubject d @ ''\" is not sendable''))) (\<lambda>_.
           bindE (stage_request me ce r) (\<lambda>staged. queue_staged me ce r (dJid d) staged))))"

section \<open>Soundness\<close>

abbreviation "world_sound \<equiv> on_first sound"

interpretation world_soundness: state_preorder world_sound
  by unfold_locales (auto simp: on_first_def soundness.refl intro: soundness.trans)

lemma world_sound_fst: "keeps sound m \<Longrightarrow> keeps world_sound (on_fst m)"
  by (rule keeps_on_fst)

lemma world_sound_snd: "keeps world_sound (on_snd m)"
  by (rule keeps_on_snd) (rule soundness.refl)

lemma world_sound_demand: "keeps world_sound (demand b e)"
  by (simp add: demand_def world_soundness.keeps_ret world_soundness.keeps_throw)

lemmas world_rules = world_soundness.keeps_rules world_sound_fst world_sound_snd
  world_sound_demand keeps_intro

lemma sound_create_or_reuse:
  assumes "\<And>e. keeps world_sound (h e)"
  shows "keeps world_sound (create_or_reuse job actor now h)"
  unfolding create_or_reuse_def
  by (intro world_soundness.keeps_catch world_rules)
    (auto split: error.split intro!: world_rules assms)

lemma sound_discard: "keeps world_sound (discard_staged staged e)"
  unfolding discard_staged_def by (auto split: option.split intro!: world_rules)

lemma sound_stage_request: "keeps world_sound (stage_request me ce r)"
  unfolding stage_request_def by (auto split: option.split intro!: world_rules)

lemma sound_enqueueForward: "keeps world_sound (enqueueForward me ce r)"
  unfolding enqueueForward_def
  by (intro world_rules sound_create_or_reuse)

lemma sound_queue_staged: "keeps world_sound (queue_staged me ce r jid staged)"
  unfolding queue_staged_def Let_def content_ok_def save_staged_def
  by (intro world_rules sound_create_or_reuse sound_discard)

lemma sound_enqueue: "keeps world_sound (enqueue me ce r)"
  unfolding enqueue_def
  by (intro world_rules sound_queue_staged sound_stage_request)

section \<open>What queueing does\<close>

lemma findByIdempotencyKey_SomeD:
  "findByIdempotencyKey k s = Some j \<Longrightarrow>
   j \<in> set (dbJobs s) \<and> jIdempotencyKey j = k \<and> is_active (jStatus j)"
  by (auto simp: findByIdempotencyKey_def dest!: find_first_SomeD)

lemma create_or_reuse_eq:
  assumes ok: "db_ok s" and u: "uuids_dashed s" and d: "dashed (nUuid n)"
  shows "create_or_reuse n actor now h (s, fs) =
    (if nMaxAttempts n = 0 then h (SqliteError (CheckConstraint ''max_attempts > 0'')) (s, fs)
     else case findByIdempotencyKey (nIdempotencyKey n) s of
       Some j \<Rightarrow> (Inr \<lparr>qrJob = j, qrDuplicate = True\<rparr>, (s, fs))
     | None \<Rightarrow>
         if nUuid n \<in> set (map jUuid (dbJobs s))
         then h (SqliteError (UniqueConstraint ''message_jobs.uuid'')) (s, fs)
         else if \<not> references_ok s (inserted_row n now s)
         then h (SqliteError ForeignKeyConstraint) (s, fs)
         else (Inr \<lparr>qrJob = inserted_row n now s, qrDuplicate = False\<rparr>,
               (after (create_audit n actor now)
                  (s\<lparr>dbJobs := dbJobs s @ [inserted_row n now s], dbJobSeq := Suc (dbJobSeq s)\<rparr>), fs)))"
proof -
  have get: "getByReference (jUuid j) s = Some j"
    if "findByIdempotencyKey (nIdempotencyKey n) s = Some j" for j
    using findByIdempotencyKey_SomeD [OF that] getByReference_own [OF ok u] by blast
  show ?thesis
    unfolding create_or_reuse_def run_catch run_bind run_on_fst after_def create_eq [OF ok u d]
    using get
    by (cases "findByIdempotencyKey (nIdempotencyKey n) s")
      (auto simp: run_bind run_on_fst job_get_def after_def)
qed

lemma discard_staged_error:
  "\<exists>t fs'. discard_staged staged e (s, fs) = (Inl e, (t, fs')) \<and> dbJobs t = dbJobs s"
  by (cases staged)
    (auto simp: discard_staged_def run_bind run_on_fst run_on_snd removeIfUnreferenced_def
      remove_file_def after_def)

lemma media_upsert_effect:
  assumes "media_upsert h p b m now s = (res, t)" and "db_ok s"
  shows "dbJobs t = dbJobs s \<and> dbDestinations t = dbDestinations s \<and> db_ok t"
proof
  show "dbJobs t = dbJobs s"
    using assms(1)
    by (auto simp: media_upsert_def run_bind Let_def split: if_splits option.splits)
  have "sound s t" using keepsD [OF sound_media_upsert, of s h p b m now] assms(1)
    by (simp add: after_def)
  then show "dbDestinations t = dbDestinations s \<and> db_ok t"
    using assms by (auto simp: soundD(1) media_upsert_def run_bind Let_def
        split: if_splits option.splits)
qed

text \<open>What an accepted request guarantees of the job it returns.\<close>

definition queued_as ::
    "new_queue_job \<Rightarrow> string \<Rightarrow> database \<Rightarrow> database \<Rightarrow> queue_result \<Rightarrow> bool" where
  "queued_as n now s t q \<longleftrightarrow>
     (if qrDuplicate q
      then qrJob q \<in> set (dbJobs s) \<and> is_active (jStatus (qrJob q)) \<and>
        jIdempotencyKey (qrJob q) = nIdempotencyKey n \<and> dbJobs t = dbJobs s
      else (\<forall>j \<in> set (dbJobs s). is_active (jStatus j) \<longrightarrow> jIdempotencyKey j \<noteq> nIdempotencyKey n) \<and>
        qrJob q = (new_row n now)\<lparr>jId := Suc (dbJobSeq s)\<rparr> \<and> dbJobs t = dbJobs s @ [qrJob q])"

lemma create_or_reuse_queued:
  assumes ok: "db_ok s" and u: "uuids_dashed s" and d: "dashed (nUuid n)"
    and h: "\<And>e. \<exists>t fs'. h e (s, fs) = (Inl e, (t, fs')) \<and> dbJobs t = dbJobs s"
    and run: "create_or_reuse n actor now h (s, fs) = (res, (t, fs'))"
  shows "case res of Inl e \<Rightarrow> dbJobs t = dbJobs s | Inr q \<Rightarrow> queued_as n now s t q"
proof -
  have err: "case r of Inl e \<Rightarrow> dbJobs t' = dbJobs s | Inr q \<Rightarrow> queued_as n now s t' q"
    if "h e (s, fs) = (r, (t', f))" for e r t' f
    using h [of e] that by auto
  show ?thesis
  proof (cases "findByIdempotencyKey (nIdempotencyKey n) s")
    case None
    then have free: "\<forall>j \<in> set (dbJobs s). is_active (jStatus j) \<longrightarrow> jIdempotencyKey j \<noteq> nIdempotencyKey n"
      by (auto simp: findByIdempotencyKey_def find_first_None_iff)
    show ?thesis
      using run free err unfolding create_or_reuse_eq [OF ok u d] None
      by (auto simp: queued_as_def inserted_row_def create_audit_def split: if_splits)
  next
    case (Some j)
    show ?thesis
      using run err findByIdempotencyKey_SomeD [OF Some]
      unfolding create_or_reuse_eq [OF ok u d] Some
      by (auto simp: queued_as_def split: if_splits)
  qed
qed

lemma demand_bind:
  "bindE (demand b e) f x = (if b then f () x else (Inl e, x))"
  by (simp add: demand_def)

lemma enqueueForward_result:
  assumes ok: "db_ok s" and u: "uuids_dashed s" and d: "dashed (ceUuid ce)"
    and run: "enqueueForward me ce r (s, fs) = (res, (t, fs'))"
  shows "case res of
      Inl e \<Rightarrow> dbJobs t = dbJobs s
    | Inr q \<Rightarrow> (\<exists>x. resolve (frDestination r) s = Some x \<and> dEnabled x \<and> dCanSend x \<and>
        in_future (frScheduledAt r) (ceNow ce) \<and>
        queued_as (forward_job me ce r (dJid x)) (toISOString (ceCreateNow ce)) s t q)"
proof (cases "resolve (frDestination r) s")
  case None
  with run show ?thesis
    by (auto simp: enqueueForward_def run_bind run_on_fst after_def)
next
  case (Some x)
  show ?thesis
  proof (cases "dEnabled x \<and> dCanSend x \<and> in_future (frScheduledAt r) (ceNow ce)")
    case True
    with run Some have "create_or_reuse (forward_job me ce r (dJid x))
        (or_else (frActor r) ''self-controller'') (toISOString (ceCreateNow ce)) throw (s, fs) =
        (res, (t, fs'))"
      by (simp add: enqueueForward_def run_bind run_on_fst after_def demand_def)
    from create_or_reuse_queued [OF ok u _ _ this] d True Some show ?thesis
      by (auto simp: forward_job_def split: sum.splits)
  next
    case False
    with run Some show ?thesis
      by (auto simp: enqueueForward_def run_bind run_on_fst after_def demand_def split: if_splits)
  qed
qed

text \<open>
  C24.  Forwarding: a job is queued only for a known destination that is enabled and sendable and
  for a time in the future; an equivalent active job is returned instead of a new one; and an
  error leaves the jobs as they were.
\<close>

theorem enqueueForward_outcome:
  assumes ok: "db_ok s" and u: "uuids_dashed s" and d: "dashed (ceUuid ce)"
    and run: "enqueueForward me ce r (s, fs) = (res, (t, fs'))"
  shows "case res of
      Inl e \<Rightarrow> dbJobs t = dbJobs s
    | Inr q \<Rightarrow> (\<exists>x. resolve (frDestination r) s = Some x \<and> dEnabled x \<and> dCanSend x \<and>
        in_future (frScheduledAt r) (ceNow ce) \<and>
        queued_as (forward_job me ce r (dJid x)) (toISOString (ceCreateNow ce)) s t q)"
  by (rule enqueueForward_result [OF assms])

lemma stage_request_db: "stage_request me ce r (s, fs) = (res, (t, fs')) \<Longrightarrow> t = s"
  by (auto simp: stage_request_def run_bind run_on_snd split: option.splits if_splits sum.splits)

lemma stage_request_truthy:
  "stage_request me ce r (s, fs) = (Inr staged, w) \<Longrightarrow> staged \<noteq> None \<longleftrightarrow> truthy (rqMediaPath r)"
  by (auto simp: stage_request_def truthy_def run_bind run_on_snd
      split: option.splits if_splits sum.splits)

lemma content_ok_eq:
  "content_ok ce r text staged x =
    (if (text \<noteq> [] \<or> staged \<noteq> None) \<and> length text \<le> text_limit staged \<and>
        in_future (rqScheduledAt r) (ceNow ce)
     then (Inr (), x) else (fst (content_ok ce r text staged x), x))"
  "fst (content_ok ce r text staged x) = Inr () \<longleftrightarrow>
    (text \<noteq> [] \<or> staged \<noteq> None) \<and> length text \<le> text_limit staged \<and>
    in_future (rqScheduledAt r) (ceNow ce)"
  by (auto simp: content_ok_def run_bind demand_def)

lemma save_staged_effect:
  assumes "save_staged ce staged (s, fs) = (res, (t, fs'))" and "db_ok s"
  shows "dbJobs t = dbJobs s \<and> dbJobSeq t = dbJobSeq s \<and> db_ok t"
proof (cases staged)
  case None
  with assms show ?thesis by (simp add: save_staged_def)
next
  case (Some m)
  let ?u = "media_upsert (smHash m) (smPath m) (int (smByteSize m)) (Some (smMimeType m))
      (toISOString (ceMediaNow ce)) s"
  have t: "t = snd ?u"
    using assms(1) by (auto simp: save_staged_def Some run_bind run_on_fst after_def split: sum.splits)
  have "dbJobSeq (snd ?u) = dbJobSeq s"
    by (auto simp: media_upsert_def run_bind Let_def split: option.split)
  with media_upsert_effect [OF prod.collapse [symmetric] assms(2)] t show ?thesis by simp
qed

definition acceptable :: "call_env \<Rightarrow> queue_request \<Rightarrow> staged_media option \<Rightarrow> bool" where
  "acceptable ce r staged \<longleftrightarrow>
     (normalizeMessage (rqText r) \<noteq> [] \<or> staged \<noteq> None) \<and>
     length (normalizeMessage (rqText r)) \<le> text_limit staged \<and>
     in_future (rqScheduledAt r) (ceNow ce)"

lemma queue_staged_outcome:
  assumes ok: "db_ok s" and u: "uuids_dashed s" and d: "dashed (ceUuid ce)"
    and run: "queue_staged me ce r jid staged (s, fs) = (res, (t, fs'))"
  shows "case res of
      Inl e \<Rightarrow> dbJobs t = dbJobs s
    | Inr q \<Rightarrow> acceptable ce r staged \<and>
        queued_as (message_job me ce r jid (normalizeMessage (rqText r)) staged)
          (toISOString (ceCreateNow ce)) s t q"
proof (cases "acceptable ce r staged")
  case False
  then have "content_ok ce r (normalizeMessage (rqText r)) staged (s, fs) =
      (fst (content_ok ce r (normalizeMessage (rqText r)) staged (s, fs)), (s, fs))"
    and "fst (content_ok ce r (normalizeMessage (rqText r)) staged (s, fs)) \<noteq> Inr ()"
    using content_ok_eq [of ce r "normalizeMessage (rqText r)" staged "(s, fs)"]
    by (auto simp: acceptable_def)
  then obtain e where "content_ok ce r (normalizeMessage (rqText r)) staged (s, fs) = (Inl e, (s, fs))"
    by (cases "fst (content_ok ce r (normalizeMessage (rqText r)) staged (s, fs))") auto
  with run show ?thesis by (auto simp: queue_staged_def Let_def run_bind)
next
  case True
  let ?n = "message_job me ce r jid (normalizeMessage (rqText r)) staged"
  have c: "content_ok ce r (normalizeMessage (rqText r)) staged (s, fs) = (Inr (), (s, fs))"
    using True content_ok_eq(1) [of ce r "normalizeMessage (rqText r)" staged "(s, fs)"]
    by (simp add: acceptable_def)
  obtain r2 s2 fs2 where up: "save_staged ce staged (s, fs) = (r2, (s2, fs2))"
    by (metis prod.collapse)
  note s2 = save_staged_effect [OF up ok]
  then have u2: "uuids_dashed s2" using u by (simp add: uuids_dashed_def)
  show ?thesis
  proof (cases r2)
    case (Inl e)
    with run up c s2 show ?thesis by (auto simp: queue_staged_def Let_def run_bind)
  next
    case (Inr v)
    with run up c have "create_or_reuse ?n (or_else (rqActor r) ''cli'')
        (toISOString (ceCreateNow ce)) (discard_staged staged) (s2, fs2) = (res, (t, fs'))"
      by (simp add: queue_staged_def Let_def run_bind)
    from create_or_reuse_queued [OF _ u2 _ discard_staged_error this] s2 d True
    show ?thesis by (cases res) (auto simp: message_job_def queued_as_def)
  qed
qed

lemma enqueue_result:
  assumes ok: "db_ok s" and u: "uuids_dashed s" and d: "dashed (ceUuid ce)"
    and run: "enqueue me ce r (s, fs) = (res, (t, fs'))"
  shows "case res of
      Inl e \<Rightarrow> dbJobs t = dbJobs s
    | Inr q \<Rightarrow> (\<exists>x staged. resolve (rqDestination r) s = Some x \<and> dEnabled x \<and> dCanSend x \<and>
        (staged \<noteq> None \<longleftrightarrow> truthy (rqMediaPath r)) \<and> acceptable ce r staged \<and>
        queued_as (message_job me ce r (dJid x) (normalizeMessage (rqText r)) staged)
          (toISOString (ceCreateNow ce)) s t q)"
proof (cases "resolve (rqDestination r) s")
  case None
  with run show ?thesis by (auto simp: enqueue_def run_bind run_on_fst after_def)
next
  case (Some x)
  obtain r1 s1 fs1 where st: "stage_request me ce r (s, fs) = (r1, (s1, fs1))"
    by (metis prod.collapse)
  note s1 = stage_request_db [OF st]
  show ?thesis
  proof (cases "dEnabled x \<and> dCanSend x")
    case False
    with run Some show ?thesis
      by (auto simp: enqueue_def run_bind run_on_fst after_def demand_def split: if_splits)
  next
    case en: True
    show ?thesis
    proof (cases r1)
      case (Inl e)
      with run Some en st s1 show ?thesis
        by (auto simp: enqueue_def run_bind run_on_fst after_def demand_def)
    next
      case (Inr staged)
      with run Some en st s1 have "queue_staged me ce r (dJid x) staged (s, fs1) = (res, (t, fs'))"
        by (simp add: enqueue_def run_bind run_on_fst after_def demand_def)
      note out = queue_staged_outcome [OF ok u d this]
      show ?thesis
      proof (cases res)
        case (Inr q)
        with out en Some stage_request_truthy [OF st [unfolded \<open>r1 = Inr staged\<close>]]
        show ?thesis by (simp only: sum.case) blast
      qed (use out in simp)
    qed
  qed
qed

text \<open>
  C11.  Queueing a message: it is accepted only for a known, enabled and sendable destination,
  with text or media, a text within the limit for its kind and a time in the future; the
  returned job is then either the new last row, with the fields of the request, or the active
  job with the same idempotency key; on every error no job has changed.
\<close>

theorem enqueue_outcome:
  assumes ok: "db_ok s" and u: "uuids_dashed s" and d: "dashed (ceUuid ce)"
    and run: "enqueue me ce r (s, fs) = (res, (t, fs'))"
  shows "case res of
      Inl e \<Rightarrow> dbJobs t = dbJobs s
    | Inr q \<Rightarrow> (\<exists>x staged. resolve (rqDestination r) s = Some x \<and> dEnabled x \<and> dCanSend x \<and>
        (staged \<noteq> None \<longleftrightarrow> truthy (rqMediaPath r)) \<and> acceptable ce r staged \<and>
        queued_as (message_job me ce r (dJid x) (normalizeMessage (rqText r)) staged)
          (toISOString (ceCreateNow ce)) s t q)"
  by (rule enqueue_result [OF assms])

definition sample_config :: app_config where
  "sample_config = \<lparr>cfgDatabasePath = ''/d/app.db'', cfgStateDir = ''/d'', cfgMediaDir = ''/m'',
     cfgLockPath = ''/d/lock'', cfgLogLevel = ''info'', cfgTimezone = ''UTC'', cfgDryRun = False,
     cfgWorkerPollMs = 1000, cfgSendIntervalMs = 8000, cfgMaxAttempts = 5,
     cfgRetryBaseMs = 5000, cfgRetryMaxMs = 300000, cfgMaxMediaBytes = 10,
     cfgSelfControllerEnabled = False, cfgPairingPhone = None\<rparr>"

definition sample_env :: message_env where
  "sample_env = \<lparr>meConfig = sample_config, meStager = sample_stager, meSha256 = (\<lambda>x. ''k9''),
     meSortOptions = by_name\<rparr>"

definition sample_call :: call_env where
  "sample_call = \<lparr>ceUuid = ''n-9'', ceNow = 1770000000000, ceMediaNow = 1770000000000,
     ceCreateNow = 1770000000001, ceCopy = Copied\<rparr>"

definition sample_request :: "string \<Rightarrow> string option \<Rightarrow> queue_request" where
  "sample_request dest text = \<lparr>rqDestination = dest, rqText = text, rqMediaPath = None,
     rqFilename = None, rqScheduledAt = None, rqForce = False, rqActor = None, rqOptions = [],
     rqBatchId = None, rqDryRun = None\<rparr>"

definition sample_forward :: forward_request where
  "sample_forward = \<lparr>frDestination = ''ops'', frSourceKey = ''me|m1'',
     frScheduledAt = Some 1770000000000, frActor = None, frBatchId = None\<rparr>"

theorem enqueueForward_outcome_witness:
  "dbJobs (fst (snd (enqueueForward sample_env sample_call sample_forward (sample_db, Map.empty)))) =
     dbJobs sample_db"
proof -
  let ?r = "enqueueForward sample_env sample_call sample_forward (sample_db, Map.empty)"
  have d: "dashed (ceUuid sample_call)" by (simp add: dashed_def sample_call_def)
  obtain e t fs where run: "?r = (Inl e, (t, fs))"
  proof -
    have "(case fst ?r of Inl _ \<Rightarrow> True | Inr _ \<Rightarrow> False)" by code_simp
    with that show thesis by (cases ?r; cases "fst ?r") auto
  qed
  from enqueueForward_outcome [OF sample_db_ok sample_db_dashed d run] run show ?thesis by simp
qed

theorem enqueue_outcome_witness:
  "\<exists>q t fs. enqueue sample_env sample_call (sample_request ''OPS'' (Some '' hi '')) (sample_db, Map.empty) =
      (Inr q, (t, fs)) \<and> qrDuplicate q = False \<and> dbJobs t = dbJobs sample_db @ [qrJob q]"
proof -
  let ?r = "enqueue sample_env sample_call (sample_request ''OPS'' (Some '' hi '')) (sample_db, Map.empty)"
  have d: "dashed (ceUuid sample_call)" by (simp add: dashed_def sample_call_def)
  let ?x = "sample_destination ''1@g.us'' (Some ''ops'') True"
  let ?n = "message_job sample_env sample_call (sample_request ''OPS'' (Some '' hi ''))
      (dJid ?x) ''hi'' None"
  have tx: "normalizeMessage (Some '' hi '') = ''hi''"
    and dest: "resolve ''OPS'' sample_db = Some ?x" "dEnabled ?x" "dCanSend ?x"
    and free: "findByIdempotencyKey ''k9'' sample_db = None" "''n-9'' \<notin> set (map jUuid (dbJobs sample_db))"
      "''1@g.us'' \<in> set (map dJid (dbDestinations sample_db))"
    by code_simp+
  have n: "nIdempotencyKey ?n = ''k9''" "nUuid ?n = ''n-9''" "nMaxAttempts ?n = 5"
    "dashed (nUuid ?n)" "references_ok sample_db (inserted_row ?n now sample_db)" for now
    using free(3) d
    by (simp_all add: message_job_def buildIdempotencyKey_def sample_env_def sample_config_def
        sample_call_def references_ok_def inserted_row_def new_row_def sample_destination_def
        sample_request_def)
  obtain q t fs where run: "?r = (Inr q, (t, fs))" and q: "\<not> qrDuplicate q"
  proof -
    have "\<exists>q t fs. ?r = (Inr q, (t, fs)) \<and> \<not> qrDuplicate q"
      using tx dest free n
      unfolding enqueue_def queue_staged_def Let_def
      by (simp add: sample_request_def run_bind run_on_fst after_def demand_def stage_request_def
          content_ok_def save_staged_def text_limit_def in_future_def
          create_or_reuse_eq [OF sample_db_ok sample_db_dashed])
    with that show thesis by blast
  qed
  obtain n now where "queued_as n now sample_db t q"
    using enqueue_outcome [OF sample_db_ok sample_db_dashed d run, unfolded sum.case] by blast
  with q have "dbJobs t = dbJobs sample_db @ [qrJob q]" unfolding queued_as_def by presburger
  with run q show ?thesis by blast
qed

end
