(* ===== verification/Transports.thy ===== *)
theory Transports
  imports SmallRepos Clock
begin

text \<open>
  The transports: the interface of \<open>src/src/messaging/transport.ts\<close>, the simulated ones of
  \<open>dry-run-transport.ts\<close> and \<open>fake-transport.ts\<close>, and \<open>BaileysTransport\<close> of
  \<open>src/src/whatsapp/transport.ts\<close> with the classification of what the socket throws
  (\<open>src/src/whatsapp/error-classifier.ts\<close>).  The socket library is the argument of the model: what
  \<open>sendMessage\<close> returns or throws and how a stored message decodes.

  What the worker relies on is stated in two locales, for a live and for a simulated transport.
\<close>

section \<open>The interface\<close>

record send_result =
  srRemoteMessageId :: "string option"
  srDryRun :: bool

record transport =
  trName :: string
  trSend :: "queue_job \<Rightarrow> database \<Rightarrow> error + send_result"

definition dry_run_send :: "queue_job \<Rightarrow> database \<Rightarrow> error + send_result" where
  "dry_run_send job s =
     Inr \<lparr>srRemoteMessageId = Some (''dryrun:'' @ jUuid job), srDryRun = True\<rparr>"

definition dry_run_transport :: transport where
  "dry_run_transport = \<lparr>trName = ''dry-run'', trSend = dry_run_send\<rparr>"

text \<open>The fake transport answers from a list of outcomes, then with a default.\<close>

datatype fake_outcome =
    FakeResult send_result
  | FakeError delivery_error
  | FakeCall "queue_job \<Rightarrow> send_result"

definition fake_send ::
    "queue_job \<Rightarrow> fake_outcome list \<Rightarrow> (error + send_result) \<times> fake_outcome list" where
  "fake_send job outcomes =
     (case outcomes of
        [] \<Rightarrow> (Inr \<lparr>srRemoteMessageId = Some (''fake:'' @ jUuid job), srDryRun = False\<rparr>, [])
      | outcome # rest \<Rightarrow>
          (case outcome of
             FakeResult r \<Rightarrow> (Inr r, rest)
           | FakeError e \<Rightarrow> (Inl (DeliveryError e), rest)
           | FakeCall f \<Rightarrow> (Inr (f job), rest)))"

section \<open>Classification\<close>

text \<open>What can be thrown: an error of the program, an object with some of the usual fields, a value.\<close>

record status_like =
  slOutputStatus :: "int option"
  slDataStatus :: "int option"
  slStatusCode :: "int option"
  slCode :: "string option"
  slMessage :: "string option"

datatype thrown = ThrownDelivery delivery_error | ThrownObject status_like | ThrownValue

definition statusOf :: "thrown \<Rightarrow> int option" where
  "statusOf x =
     (case x of
        ThrownObject v \<Rightarrow> coalesce (slOutputStatus v) (coalesce (slDataStatus v) (slStatusCode v))
      | _ \<Rightarrow> None)"

definition fresh_error :: "delivery_error_class \<Rightarrow> string \<Rightarrow> delivery_error" where
  "fresh_error c message = \<lparr>errorClass = c, safeMessage = message, retryAfterMs = None\<rparr>"

definition transient_statuses :: "int list" where
  "transient_statuses = [408, 428, 500, 502, 503, 504]"

definition network_codes :: "string list" where
  "network_codes = [''ECONNRESET'', ''ECONNREFUSED'', ''ETIMEDOUT'', ''ENETUNREACH'', ''EAI_AGAIN'']"

definition classify_object :: "int option \<Rightarrow> string \<Rightarrow> string \<Rightarrow> delivery_error" where
  "classify_object status code message =
     (if status = Some 401 \<or> js_includes message ''logged out''
      then fresh_error LOGGED_OUT ''WhatsApp linked-device authorization was revoked''
      else if status = Some 403 \<or> js_includes message ''not-authorized'' \<or>
              js_includes message ''forbidden''
      then fresh_error PERMISSION_ERROR ''The account cannot send to this destination''
      else if status = Some 404 \<or> js_includes message ''not found'' \<or>
              js_includes message ''no participants''
      then fresh_error DESTINATION_ERROR ''The WhatsApp destination is unavailable''
      else if status = Some 429 \<or> js_includes message ''rate limit''
      then (fresh_error RATE_LIMITED ''WhatsApp temporarily rate-limited delivery'')
             \<lparr>retryAfterMs := Some 60000\<rparr>
      else if or_else status 0 \<in> set transient_statuses \<or> code \<in> set network_codes
      then fresh_error TEMPORARY_NETWORK ''A temporary network error interrupted delivery''
      else if js_includes message ''connection closed'' \<or> js_includes message ''socket closed''
      then fresh_error CONNECTION_CLOSED ''The WhatsApp connection closed during delivery''
      else if js_includes message ''media'' \<or> js_includes message ''file''
      then fresh_error MEDIA_ERROR ''WhatsApp rejected the staged media''
      else fresh_error UNKNOWN_TRANSIENT ''Unexpected error while communicating with WhatsApp'')"

definition classifyWhatsAppError :: "thrown \<Rightarrow> delivery_error" where
  "classifyWhatsAppError x =
     (case x of
        ThrownDelivery e \<Rightarrow> e
      | ThrownObject v \<Rightarrow>
          classify_object (statusOf x) (or_else (slCode v) [])
            (case slMessage v of None \<Rightarrow> [] | Some m \<Rightarrow> js_lower m)
      | ThrownValue \<Rightarrow> classify_object None [] [])"

section \<open>Payloads\<close>

datatype 'm payload =
    ForwardPayload 'm
  | TextPayload string
  | ImagePayload string "string option"
  | VideoPayload string "string option"
  | AudioPayload string string
  | DocumentPayload string string string "string option"

text \<open>A decoded \<open>WebMessageInfo\<close>: its key id, whether it has a message, and the value itself.\<close>

record 'm decoded =
  dmKeyId :: "string option"
  dmHasMessage :: bool
  dmValue :: 'm

record 'm socket_library =
  slDecode :: "string \<Rightarrow> thrown + 'm decoded"
  slSendMessage :: "string \<Rightarrow> 'm payload \<Rightarrow> thrown + string option"
  slDateParse :: "string \<Rightarrow> int option"

definition nonempty :: "string option \<Rightarrow> bool" where
  "nonempty s \<longleftrightarrow> (case s of None \<Rightarrow> False | Some t \<Rightarrow> t \<noteq> [])"

definition fail_with :: "delivery_error_class \<Rightarrow> string \<Rightarrow> thrown + 'a" where
  "fail_with c m = Inl (ThrownDelivery (fresh_error c m))"

definition build_forward ::
    "'m socket_library \<Rightarrow> int \<Rightarrow> database \<Rightarrow> string \<Rightarrow> thrown + 'm payload" where
  "build_forward lib now s key =
     (case forward_get key s of
        None \<Rightarrow> fail_with INVALID_PAYLOAD ''Forward source is no longer stored''
      | Some f \<Rightarrow>
          if nonempty (fsExpiresAt f) \<and>
             (case slDateParse lib (or_else (fsExpiresAt f) []) of None \<Rightarrow> False | Some t \<Rightarrow> t \<le> now)
          then fail_with MEDIA_ERROR
            ''Forward source media reference expired; forward it to Message Yourself again''
          else (case slDecode lib (fsPayload f) of
                  Inl e \<Rightarrow> Inl e
                | Inr m \<Rightarrow>
                    if \<not> nonempty (dmKeyId m) \<or> \<not> dmHasMessage m
                    then fail_with INVALID_PAYLOAD ''Stored forward source is incomplete''
                    else Inr (ForwardPayload (dmValue m))))"

definition caption_of :: "queue_job \<Rightarrow> string option" where
  "caption_of job = (if nonempty (jText job) then jText job else None)"

definition buildPayload ::
    "'m socket_library \<Rightarrow> int \<Rightarrow> queue_job \<Rightarrow> database \<Rightarrow> thrown + 'm payload" where
  "buildPayload lib now job s =
     (if nonempty (jForwardSourceKey job)
      then build_forward lib now s (or_else (jForwardSourceKey job) [])
      else if jPayloadType job = PT_text then Inr (TextPayload (or_else (jText job) []))
      else if \<not> nonempty (jMediaPath job)
      then fail_with MEDIA_ERROR ''Queued media path is missing''
      else
        (let url = or_else (jMediaPath job) [] in
         case jPayloadType job of
           PT_image \<Rightarrow> Inr (ImagePayload url (caption_of job))
         | PT_video \<Rightarrow> Inr (VideoPayload url (caption_of job))
         | PT_audio \<Rightarrow> Inr (AudioPayload url (or_else (jMediaMime job) ''audio/mpeg''))
         | _ \<Rightarrow> Inr (DocumentPayload url (or_else (jMediaMime job) ''application/octet-stream'')
                 (or_else (jFilename job) ''attachment.bin'') (caption_of job))))"

section \<open>The live transport\<close>

definition attempt_send ::
    "'m socket_library \<Rightarrow> int \<Rightarrow> queue_job \<Rightarrow> database \<Rightarrow> thrown + send_result" where
  "attempt_send lib now job s =
     (case buildPayload lib now job s of
        Inl e \<Rightarrow> Inl e
      | Inr p \<Rightarrow>
          (case slSendMessage lib (jDestinationJid job) p of
             Inl e \<Rightarrow> Inl e
           | Inr i \<Rightarrow>
               if nonempty i then Inr \<lparr>srRemoteMessageId = i, srDryRun = False\<rparr>
               else fail_with UNKNOWN_TRANSIENT ''WhatsApp did not return a message identifier''))"

definition translate_failure :: "queue_job \<Rightarrow> thrown \<Rightarrow> delivery_error" where
  "translate_failure job e =
     (let classified = classifyWhatsAppError e in
      if nonempty (jForwardSourceKey job) \<and>
         errorClass classified \<in> {DESTINATION_ERROR, PERMISSION_ERROR}
      then fresh_error INVALID_PAYLOAD
        ''WhatsApp could not forward the source; it may be unavailable or protected''
      else classified)"

text \<open>\<open>connected\<close>: the socket provider has a socket.\<close>

definition baileys_send ::
    "'m socket_library \<Rightarrow> bool \<Rightarrow> int \<Rightarrow> queue_job \<Rightarrow> database \<Rightarrow> error + send_result" where
  "baileys_send lib connected now job s =
     (if \<not> connected
      then Inl (DeliveryError (fresh_error CONNECTION_CLOSED ''WhatsApp is not connected''))
      else case attempt_send lib now job s of
        Inl e \<Rightarrow> Inl (DeliveryError (translate_failure job e))
      | Inr r \<Rightarrow> Inr r)"

definition baileys_transport :: "'m socket_library \<Rightarrow> bool \<Rightarrow> int \<Rightarrow> transport" where
  "baileys_transport lib connected now =
     \<lparr>trName = ''baileys'', trSend = baileys_send lib connected now\<rparr>"

section \<open>What the worker relies on\<close>

locale message_transport =
  fixes t :: transport
  assumes delivery_errors: "trSend t job s = Inl e \<Longrightarrow> \<exists>d. e = DeliveryError d"
    and remote_id: "trSend t job s = Inr r \<Longrightarrow> nonempty (srRemoteMessageId r)"

locale live_transport = message_transport +
  assumes live_name: "trName t \<noteq> ''dry-run''"
    and live_result: "trSend t job s = Inr r \<Longrightarrow> \<not> srDryRun r"

locale simulated_transport = message_transport +
  assumes simulated_name: "trName t = ''dry-run''"
    and simulated_result: "trSend t job s = Inr r \<Longrightarrow> srDryRun r"

lemma attempt_send_result:
  "attempt_send lib now job s = Inr r \<Longrightarrow> nonempty (srRemoteMessageId r) \<and> \<not> srDryRun r"
  by (auto simp: attempt_send_def fail_with_def split: sum.splits if_splits)

interpretation baileys: live_transport "baileys_transport lib connected now"
  for lib :: "'m socket_library" and connected now
proof
  fix job s e r
  show "trSend (baileys_transport lib connected now) job s = Inl e \<Longrightarrow> \<exists>d. e = DeliveryError d"
    by (auto simp: baileys_transport_def baileys_send_def split: if_splits sum.splits)
  show "trSend (baileys_transport lib connected now) job s = Inr r \<Longrightarrow> nonempty (srRemoteMessageId r)"
    and "trSend (baileys_transport lib connected now) job s = Inr r \<Longrightarrow> \<not> srDryRun r"
    by (auto simp: baileys_transport_def baileys_send_def dest: attempt_send_result
        split: if_splits sum.splits)
qed (simp add: baileys_transport_def)

interpretation dry_run: simulated_transport dry_run_transport
  by unfold_locales (auto simp: dry_run_transport_def dry_run_send_def nonempty_def)

section \<open>The classification\<close>

lemma transient_status_iff:
  "or_else st 0 \<in> set transient_statuses \<longleftrightarrow> (\<exists>c \<in> {408, 428, 500, 502, 503, 504}. st = Some c)"
  by (cases st) (auto simp: or_else_def transient_statuses_def)

lemma network_code_iff:
  "or_else code [] \<in> set network_codes \<longleftrightarrow> (\<exists>c \<in> set network_codes. code = Some c)"
  by (cases code) (auto simp: or_else_def network_codes_def)

lemma first_row:
  "(if b then f c else snd (hd (filter fst rows))) = snd (hd (filter fst ((b, f c) # rows)))"
  by simp

text \<open>
  The classification is a table read in this order: an error of the program passes
  unchanged; then a loss of authorisation, of permission, of the destination, a rate limit of
  one minute, the transient statuses and network codes, a closed connection, the media, and last
  the unknown, which may be retried.  The earliest row that matches decides.
\<close>

theorem classification_table:
  "classifyWhatsAppError (ThrownObject v) =
    (let m = (case slMessage v of None \<Rightarrow> [] | Some x \<Rightarrow> js_lower x);
         st = statusOf (ThrownObject v);
         rows =
           [(st = Some 401 \<or> js_includes m ''logged out'', LOGGED_OUT),
            (st = Some 403 \<or> js_includes m ''not-authorized'' \<or> js_includes m ''forbidden'',
             PERMISSION_ERROR),
            (st = Some 404 \<or> js_includes m ''not found'' \<or> js_includes m ''no participants'',
             DESTINATION_ERROR),
            (st = Some 429 \<or> js_includes m ''rate limit'', RATE_LIMITED),
            ((\<exists>c \<in> {408, 428, 500, 502, 503, 504}. st = Some c) \<or>
             (\<exists>c \<in> set network_codes. slCode v = Some c), TEMPORARY_NETWORK),
            (js_includes m ''connection closed'' \<or> js_includes m ''socket closed'', CONNECTION_CLOSED),
            (js_includes m ''media'' \<or> js_includes m ''file'', MEDIA_ERROR),
            (True, UNKNOWN_TRANSIENT)];
         c = snd (hd (filter fst rows))
     in \<lparr>errorClass = c, safeMessage = safeMessage (classifyWhatsAppError (ThrownObject v)),
         retryAfterMs = (if c = RATE_LIMITED then Some 60000 else None)\<rparr>)"
  unfolding classifyWhatsAppError_def thrown.case classify_object_def Let_def
    transient_status_iff network_code_iff
  by (simp only: filter.simps fst_conv if_True list.sel snd_conv)
    (auto simp: fresh_error_def)

text \<open>
  Failing to forward never counts against the destination: for a job with a forward source
  the live transport reports neither a permission nor a destination error, so the worker does
  not take the destination off.
\<close>

theorem forward_failure_spares_destination:
  assumes "nonempty (jForwardSourceKey job)"
    and "baileys_send lib connected now job s = Inl (DeliveryError e)"
  shows "errorClass e \<noteq> PERMISSION_ERROR \<and> errorClass e \<noteq> DESTINATION_ERROR"
  using assms
  by (auto simp: baileys_send_def translate_failure_def fresh_error_def Let_def
      split: if_splits sum.splits)

definition sample_library :: "unit socket_library" where
  "sample_library = \<lparr>slDecode = (\<lambda>_. Inr \<lparr>dmKeyId = Some ''m1'', dmHasMessage = True, dmValue = ()\<rparr>),
     slSendMessage = (\<lambda>_ _. Inl (ThrownObject \<lparr>slOutputStatus = Some 403, slDataStatus = None,
       slStatusCode = None, slCode = None, slMessage = None\<rparr>)),
     slDateParse = (\<lambda>_. None)\<rparr>"

definition sample_forward_job :: queue_job where
  "sample_forward_job =
     (sample_job 7 ''g-7'' ''1@g.us'' ''k7'' PROCESSING None False)\<lparr>jForwardSourceKey := Some ''me|m1''\<rparr>"

definition sample_forward_db :: database where
  "sample_forward_db = sample_db\<lparr>dbForwardSources :=
     [\<lparr>fsSourceKey = ''me|m1'', fsPayload = ''xx'', fsContentType = ''conversation'',
       fsReceivedAt = ''2026-01-01'', fsExpiresAt = None\<rparr>]\<rparr>"

theorem forward_failure_spares_destination_witness:
  "baileys_send sample_library True 0 sample_forward_job sample_forward_db =
     Inl (DeliveryError (fresh_error INVALID_PAYLOAD
       ''WhatsApp could not forward the source; it may be unavailable or protected'')) \<and>
   errorClass (fresh_error INVALID_PAYLOAD
       ''WhatsApp could not forward the source; it may be unavailable or protected'')
     \<noteq> DESTINATION_ERROR"
proof
  show run: "baileys_send sample_library True 0 sample_forward_job sample_forward_db =
     Inl (DeliveryError (fresh_error INVALID_PAYLOAD
       ''WhatsApp could not forward the source; it may be unavailable or protected''))"
    by code_simp
  have "nonempty (jForwardSourceKey sample_forward_job)"
    by (simp add: sample_forward_job_def nonempty_def)
  from forward_failure_spares_destination [OF this run]
  show "errorClass (fresh_error INVALID_PAYLOAD
       ''WhatsApp could not forward the source; it may be unavailable or protected'')
     \<noteq> DESTINATION_ERROR" by blast
qed

end
