(* ===== verification/RetryPolicy.thy ===== *)
theory RetryPolicy
  imports Domain Complex_Main
begin

text \<open>
  \<open>src/src/messaging/retry-policy.ts\<close>: exponential back-off with jitter, and the decision after
  a failed delivery.  \<open>Math.random()\<close> is an argument, a rational in \<open>[0, 1)\<close>; the arithmetic is
  exact where the program's is in double precision.
\<close>

section \<open>The delay\<close>

text \<open>\<open>Math.round\<close>: to the nearest integer, halves upwards.\<close>

definition js_round :: "rat \<Rightarrow> int" where
  "js_round x = \<lfloor>x + 1 / 2\<rfloor>"

definition exponential :: "nat \<Rightarrow> int \<Rightarrow> int \<Rightarrow> int" where
  "exponential attempt baseMs maxMs = min maxMs (baseMs * 2 ^ (attempt - 1))"

definition retryDelayMs :: "nat \<Rightarrow> int \<Rightarrow> int \<Rightarrow> rat \<Rightarrow> int" where
  "retryDelayMs attempt baseMs maxMs random =
     (let jitter = 4 / 5 + random * (2 / 5)
      in max 100 (js_round (of_int (exponential attempt baseMs maxMs) * jitter)))"

section \<open>The decision\<close>

datatype retry_action = Retry | RateLimit | Fail | PauseAuth

record retry_decision =
  rdAction :: retry_action
  rdDelayMs :: "int option"

definition transient_classes :: "delivery_error_class list" where
  "transient_classes = [TEMPORARY_NETWORK, CONNECTION_CLOSED, SESSION_ERROR, UNKNOWN_TRANSIENT]"

definition decideRetry ::
    "delivery_error_class \<Rightarrow> nat \<Rightarrow> nat \<Rightarrow> int \<Rightarrow> int \<Rightarrow> int option \<Rightarrow> rat \<Rightarrow> retry_decision" where
  "decideRetry failure attempt maxAttempts baseMs maxMs retryAfter random =
     (let delay = retryDelayMs attempt baseMs maxMs random in
      if failure = AUTH_REQUIRED \<or> failure = LOGGED_OUT
      then \<lparr>rdAction = PauseAuth, rdDelayMs = Some delay\<rparr>
      else if maxAttempts \<le> attempt then \<lparr>rdAction = Fail, rdDelayMs = None\<rparr>
      else if failure = RATE_LIMITED
      then \<lparr>rdAction = RateLimit,
            rdDelayMs = Some (case retryAfter of Some ms \<Rightarrow> ms | None \<Rightarrow> delay)\<rparr>
      else if failure \<in> set transient_classes
      then \<lparr>rdAction = Retry, rdDelayMs = Some delay\<rparr>
      else \<lparr>rdAction = Fail, rdDelayMs = None\<rparr>)"

section \<open>Bounds of the delay\<close>

lemma js_round_mono: "x \<le> y \<Longrightarrow> js_round x \<le> js_round y"
  by (simp add: js_round_def floor_mono)

lemma js_round_of_int [simp]: "js_round (of_int n) = n"
  unfolding js_round_def by (rule floor_unique) simp_all

lemma js_round_near: "\<bar>of_int (js_round x) - x\<bar> \<le> 1 / 2"
  unfolding js_round_def by linarith

lemma exponential_mono:
  "0 \<le> baseMs \<Longrightarrow> a \<le> b \<Longrightarrow> exponential a baseMs maxMs \<le> exponential b baseMs maxMs"
  unfolding exponential_def
  by (intro min.mono mult_left_mono power_increasing) auto

lemma exponential_nonneg: "0 \<le> baseMs \<Longrightarrow> 0 \<le> maxMs \<Longrightarrow> 0 \<le> exponential a baseMs maxMs"
  by (simp add: exponential_def)

lemma retryDelay_within:
  assumes "0 \<le> baseMs" and "0 \<le> maxMs" and "0 \<le> random" and "random < 1"
  shows "max 100 (js_round (of_int (exponential a baseMs maxMs) * (4 / 5))) \<le>
      retryDelayMs a baseMs maxMs random \<and>
    retryDelayMs a baseMs maxMs random \<le>
      max 100 (js_round (of_int (exponential a baseMs maxMs) * (6 / 5)))"
proof -
  have "0 \<le> (of_int (exponential a baseMs maxMs) :: rat)"
    using exponential_nonneg [OF assms(1,2)] by simp
  then have "of_int (exponential a baseMs maxMs) * (4 / 5) \<le>
      of_int (exponential a baseMs maxMs) * (4 / 5 + random * (2 / 5))"
    and "of_int (exponential a baseMs maxMs) * (4 / 5 + random * (2 / 5)) \<le>
      of_int (exponential a baseMs maxMs) * (6 / 5)"
    using assms(3,4) by (intro mult_left_mono; simp)+
  then show ?thesis
    unfolding retryDelayMs_def Let_def by (intro conjI max.mono order_refl js_round_mono)
qed

lemma retryDelay_mono:
  assumes "0 \<le> baseMs" and "0 \<le> random" and "a \<le> b"
  shows "retryDelayMs a baseMs maxMs random \<le> retryDelayMs b baseMs maxMs random"
proof -
  have "(of_int (exponential a baseMs maxMs) :: rat) \<le> of_int (exponential b baseMs maxMs)"
    using exponential_mono [OF assms(1,3)] by simp
  then have "of_int (exponential a baseMs maxMs) * (4 / 5 + random * (2 / 5)) \<le>
      of_int (exponential b baseMs maxMs) * (4 / 5 + random * (2 / 5))"
    using assms(2) by (intro mult_right_mono) simp_all
  then show ?thesis
    unfolding retryDelayMs_def Let_def by (intro max.mono order_refl js_round_mono)
qed

lemma retryDelay_capped:
  assumes "0 \<le> baseMs" and "100 \<le> maxMs" and "0 \<le> random" and "random < 1"
  shows "of_int (retryDelayMs a baseMs maxMs random) \<le> of_int maxMs * (6 / 5) + (1 / 2 :: rat)"
proof -
  let ?x = "of_int (exponential a baseMs maxMs) * (6 / 5) :: rat"
  have "?x \<le> of_int maxMs * (6 / 5)" by (simp add: exponential_def)
  moreover have "of_int (js_round ?x) \<le> ?x + 1 / 2" using js_round_near [of ?x] by linarith
  moreover have "(100 :: rat) \<le> of_int maxMs * (6 / 5)"
    using assms(2) by (simp add: mult_le_cancel_right1)
  ultimately have "of_int (max 100 (js_round ?x)) \<le> of_int maxMs * (6 / 5) + (1 / 2 :: rat)"
    by (simp add: of_int_max max_def)
  with retryDelay_within [of baseMs maxMs random a] assms show ?thesis
    by (smt (verit) of_int_le_iff order_trans)
qed

text \<open>
  The back-off: the delay is at least 100 ms and lies within a fifth of the exponential
  value, whatever the random number; with the same random number more attempts never shorten
  it; and it exceeds the configured maximum by a fifth at most.
\<close>

theorem retryDelayMs_bounds:
  assumes "0 \<le> baseMs" and "100 \<le> maxMs" and "0 \<le> random" and "random < 1" and "a \<le> b"
  shows "100 \<le> retryDelayMs a baseMs maxMs random \<and>
    max 100 (js_round (of_int (exponential a baseMs maxMs) * (4 / 5))) \<le>
      retryDelayMs a baseMs maxMs random \<and>
    retryDelayMs a baseMs maxMs random \<le>
      max 100 (js_round (of_int (exponential a baseMs maxMs) * (6 / 5))) \<and>
    retryDelayMs a baseMs maxMs random \<le> retryDelayMs b baseMs maxMs random \<and>
    of_int (retryDelayMs a baseMs maxMs random) \<le> of_int maxMs * (6 / 5) + (1 / 2 :: rat)"
  using retryDelay_within [of baseMs maxMs random a] retryDelay_mono [of baseMs random a b maxMs]
    retryDelay_capped [of baseMs maxMs random a] assms
  by simp

theorem retryDelayMs_bounds_witness:
  "100 \<le> retryDelayMs 3 5000 300000 (1 / 4) \<and> retryDelayMs 3 5000 300000 (1 / 4) = 18000 \<and>
   retryDelayMs 3 5000 300000 (1 / 4) \<le> retryDelayMs 9 5000 300000 (1 / 4)"
proof -
  have "retryDelayMs 3 5000 300000 (1 / 4) = 18000" by code_simp
  then show ?thesis
    using retryDelayMs_bounds [of 5000 300000 "1 / 4" 3 9] by simp
qed

text \<open>The jitter comes after the cap, so the maximum itself can be exceeded.\<close>

lemma retryDelayMs_above_cap: "300000 < retryDelayMs 20 5000 300000 (9 / 10)"
  by code_simp

section \<open>The table of decisions\<close>

text \<open>
  What follows a failure, by class of error and attempts used: a loss of authorisation
  always pauses, keeping the job; otherwise the last attempt fails; before it rate limits wait
  as long as the server says, the transient classes retry after the back-off, and every other
  class fails at once.
\<close>

theorem decideRetry_table:
  "decideRetry e attempt maxAttempts baseMs maxMs retryAfter random =
    (case e of
       AUTH_REQUIRED \<Rightarrow>
         \<lparr>rdAction = PauseAuth, rdDelayMs = Some (retryDelayMs attempt baseMs maxMs random)\<rparr>
     | LOGGED_OUT \<Rightarrow>
         \<lparr>rdAction = PauseAuth, rdDelayMs = Some (retryDelayMs attempt baseMs maxMs random)\<rparr>
     | RATE_LIMITED \<Rightarrow>
         if attempt < maxAttempts
         then \<lparr>rdAction = RateLimit,
               rdDelayMs = (if retryAfter = None
                            then Some (retryDelayMs attempt baseMs maxMs random) else retryAfter)\<rparr>
         else \<lparr>rdAction = Fail, rdDelayMs = None\<rparr>
     | _ \<Rightarrow>
         if e \<in> {TEMPORARY_NETWORK, CONNECTION_CLOSED, SESSION_ERROR, UNKNOWN_TRANSIENT} \<and>
            attempt < maxAttempts
         then \<lparr>rdAction = Retry, rdDelayMs = Some (retryDelayMs attempt baseMs maxMs random)\<rparr>
         else \<lparr>rdAction = Fail, rdDelayMs = None\<rparr>)"
  by (cases e) (auto simp: decideRetry_def transient_classes_def Let_def split: option.split)

lemma decideRetry_delay:
  assumes "0 \<le> baseMs" "0 \<le> maxMs" "0 \<le> random" "random < 1"
    and "rdDelayMs (decideRetry e attempt maxAttempts baseMs maxMs retryAfter random) = Some ms"
    and "retryAfter = None \<or> e \<noteq> RATE_LIMITED"
  shows "100 \<le> ms"
  using assms retryDelay_within [OF assms(1-4), of attempt]
  by (auto simp: decideRetry_def Let_def split: if_splits option.splits)

end
