(* ===== verification/QueueWorker.thy ===== *)
theory QueueWorker
  imports MessageService Transports RetryPolicy
begin

text \<open>
  The queue worker, \<open>src/src/messaging/queue-worker.ts\<close>.  Its state is the database and its own
  fields; the list of transport invocations is kept beside them so that what was sent, to which
  transport and on which database can be stated.  An environment gives the readings of the clock
  by the place that takes them, what the pacing loop observes, and what other processes do to
  the database while the worker waits (in the pacing loop, in the transport, between rounds).

  The lemmas: the worker keeps the constraints of the database; it sends at most once per round
  and only a claimed job to an allowed destination; each result of a transport leads to one
  status of the job; a pause holds until its time and then ends; the pacing loop ends and keeps
  the configured distance.
\<close>

section \<open>State and environment\<close>

record send_event =
  seTransport :: string
  seJob :: queue_job
  seDb :: database

record worker =
  wkStopping :: bool
  wkRunning :: bool
  wkLastSend :: int
  wkSent :: "send_event list"

type_synonym 'a worker_io = "(database \<times> worker, error, 'a) io"

datatype reading =
    AtPause
  | AtClaim
  | AtSweep
  | AtPaceStart
  | AtDeadline
  | AtShutdown
  | AtMove
  | AtSent
  | AtNext
  | AtBlock
  | AtState
  | AtAudit
  | AtFinish

record worker_env =
  weTransport :: transport
  weConfig :: app_config
  weFileExists :: "string \<Rightarrow> bool"
  weParse :: "string \<Rightarrow> int option"
  weRandom :: rat
  weClock :: "reading \<Rightarrow> int"
  weTicks :: "(bool \<times> int) list"
  weDuringPace :: "database \<Rightarrow> database"
  weDuringSend :: "database \<Rightarrow> database"
  weBetween :: "database \<Rightarrow> database"
  weStopBetween :: bool

definition now_at :: "worker_env \<Rightarrow> reading \<Rightarrow> string" where
  "now_at env r = toISOString (weClock env r)"

definition requestStop :: "worker \<Rightarrow> worker" where
  "requestStop w = w\<lparr>wkStopping := True\<rparr>"

section \<open>The global pause\<close>

definition pause_reason :: string where
  "pause_reason = ''outgoing_pause_reason''"

definition pause_until :: string where
  "pause_until = ''outgoing_pause_until''"

definition later_than :: "int option \<Rightarrow> int \<Rightarrow> bool" where
  "later_than t now \<longleftrightarrow> (case t of None \<Rightarrow> False | Some v \<Rightarrow> now < v)"

definition isGloballyPaused :: "worker_env \<Rightarrow> bool db_io" where
  "isGloballyPaused env =
     (if trName (weTransport env) = ''dry-run'' then ret False
      else bindE (readE (state_get pause_reason)) (\<lambda>reason.
        if reason = Some ''AUTH_REQUIRED'' \<or> reason = Some ''LOGGED_OUT'' \<or> reason = Some ''FATAL''
        then ret True
        else bindE (readE (state_get pause_until)) (\<lambda>until.
          if \<not> truthy until then ret False
          else if later_than (weParse env (or_else until [])) (weClock env AtPause) then ret True
          else bindE (state_remove pause_until) (\<lambda>_.
               bindE (if reason = Some ''RATE_LIMITED'' then state_remove pause_reason else ret ())
                 (\<lambda>_. ret False)))))"

section \<open>Pacing\<close>

text \<open>
  The observations of the loop: whether a stop was requested by then, and the time.  Nothing is
  returned while they have not ended it.
\<close>

fun pace_loop :: "bool \<Rightarrow> int \<Rightarrow> (bool \<times> int) list \<Rightarrow> bool option" where
  "pace_loop stopping deadline [] = None"
| "pace_loop stopping deadline ((stop, now) # rest) =
     (if stopping \<or> stop then Some False
      else if deadline \<le> now then Some True
      else pace_loop False deadline rest)"

definition wait_ms :: "worker_env \<Rightarrow> worker \<Rightarrow> int" where
  "wait_ms env w =
     max 0 (cfgSendIntervalMs (weConfig env) - (weClock env AtPaceStart - wkLastSend w))"

definition pace :: "worker_env \<Rightarrow> worker \<Rightarrow> bool option" where
  "pace env w =
     (if cfgSendIntervalMs (weConfig env) \<le> 0 \<or> wkLastSend w = 0 then Some (\<not> wkStopping w)
      else if wait_ms env w = 0 then Some (\<not> wkStopping w)
      else pace_loop (wkStopping w) (weClock env AtDeadline + wait_ms env w) (weTicks env))"

section \<open>One round\<close>

definition claim_stage :: "worker_env \<Rightarrow> string option \<Rightarrow> queue_job option db_io" where
  "claim_stage env reference =
     bindE (promoteDueScheduled (now_at env AtClaim)) (\<lambda>_.
     bindE (cancelDisabled (now_at env AtSweep)) (\<lambda>_.
       if truthy reference
       then claimJob (now_at env AtClaim) (or_else reference []) (cfgDryRun (weConfig env))
       else claimNext (now_at env AtClaim) (cfgDryRun (weConfig env))))"

definition shutdown_options :: "worker_env \<Rightarrow> transition_options" where
  "shutdown_options env = no_options\<lparr>toNextAttemptAt := Some (now_at env AtShutdown),
     toErrorClass := Some ''SHUTDOWN_BEFORE_SEND'',
     toErrorMessage := Some ''Worker stopped before transport invocation''\<rparr>"

text \<open>The two checks after the pacing, on the database of that moment.\<close>

definition refusal :: "worker_env \<Rightarrow> queue_job \<Rightarrow> database \<Rightarrow> transition_options option" where
  "refusal env job s =
     (if (case resolve (jDestinationJid job) s of
            None \<Rightarrow> True | Some d \<Rightarrow> \<not> dEnabled d \<or> \<not> dCanSend d)
      then Some (no_options\<lparr>toErrorClass := Some ''DESTINATION_ERROR'',
             toErrorMessage := Some ''Destination was disabled before delivery'',
             toAuditEvent := Some ''delivery_permanent_failure''\<rparr>)
      else if truthy (jMediaPath job) \<and> \<not> weFileExists env (or_else (jMediaPath job) [])
      then Some (no_options\<lparr>toErrorClass := Some ''MEDIA_ERROR'',
             toErrorMessage := Some ''Staged media no longer exists'',
             toAuditEvent := Some ''delivery_permanent_failure''\<rparr>)
      else None)"

definition chosen_transport :: "worker_env \<Rightarrow> queue_job \<Rightarrow> transport" where
  "chosen_transport env job =
     (if jDryRun job \<and> trName (weTransport env) \<noteq> ''dry-run'' then dry_run_transport
      else weTransport env)"

definition send_stage :: "worker_env \<Rightarrow> queue_job \<Rightarrow> send_result worker_io" where
  "send_stage env job =
     bindE (readE fst) (\<lambda>s.
       case asSendableJob job of
         Inl e \<Rightarrow> throw e
       | Inr j \<Rightarrow>
           bindE (on_snd (writeE (\<lambda>w. w\<lparr>wkSent := wkSent w @
             [\<lparr>seTransport = trName (chosen_transport env job), seJob = j, seDb = s\<rparr>]\<rparr>))) (\<lambda>_.
           bindE (on_fst (writeE (weDuringSend env))) (\<lambda>_.
             case trSend (chosen_transport env job) j s of
               Inl e \<Rightarrow> throw e
             | Inr r \<Rightarrow> ret r)))"

definition sent_options :: "send_result \<Rightarrow> string \<Rightarrow> transition_options" where
  "sent_options r event =
     no_options\<lparr>toRemoteMessageId := srRemoteMessageId r, toAuditEvent := Some event\<rparr>"

definition settle :: "worker_env \<Rightarrow> queue_job \<Rightarrow> send_result \<Rightarrow> unit db_io" where
  "settle env job r =
     bindE
       (if srDryRun r
        then bindE (transition (jUuid job) DRY_RUN (sent_options r ''dry_run_executed'')
                     (now_at env AtMove)) (\<lambda>_. ret ())
        else bindE (transition (jUuid job) SENT (sent_options r ''delivery_succeeded'')
                     (now_at env AtMove)) (\<lambda>_.
             state_set ''last_successful_send_at'' (Some (now_at env AtSent)) (now_at env AtState)))
       (\<lambda>_.
        if trName (weTransport env) = ''dry-run''
        then state_set ''connectivity'' (Some ''OFFLINE_DRY_RUN'') (now_at env AtState)
        else if \<not> srDryRun r
        then state_set ''connectivity'' (Some ''CONNECTED'') (now_at env AtState)
        else ret ())"

definition as_delivery_error :: "error \<Rightarrow> delivery_error" where
  "as_delivery_error e =
     (case e of
        DeliveryError d \<Rightarrow> d
      | _ \<Rightarrow> fresh_error UNKNOWN_TRANSIENT ''Unexpected transport failure'')"

definition decision_for :: "worker_env \<Rightarrow> queue_job \<Rightarrow> delivery_error \<Rightarrow> retry_decision" where
  "decision_for env job e =
     decideRetry (errorClass e) (jAttemptCount job) (jMaxAttempts job)
       (cfgRetryBaseMs (weConfig env)) (cfgRetryMaxMs (weConfig env)) (retryAfterMs e)
       (weRandom env)"

definition next_time :: "worker_env \<Rightarrow> queue_job \<Rightarrow> delivery_error \<Rightarrow> int" where
  "next_time env job e = weClock env AtNext + or_else (rdDelayMs (decision_for env job e)) 0"

definition failure_options ::
    "delivery_error \<Rightarrow> string option \<Rightarrow> string \<Rightarrow> transition_options" where
  "failure_options e next event =
     no_options\<lparr>toNextAttemptAt := next, toErrorClass := Some (show_error_class (errorClass e)),
       toErrorMessage := Some (safeMessage e), toAuditEvent := Some event\<rparr>"

definition wait_for_retry :: "worker_env \<Rightarrow> queue_job \<Rightarrow> delivery_error \<Rightarrow> unit db_io" where
  "wait_for_retry env job e =
     (let next = toISOString (next_time env job e);
          limited = (rdAction (decision_for env job e) = RateLimit)
      in bindE (transition (jUuid job) (if limited then WAITING_RATE_LIMIT else RETRY)
             (failure_options e (Some next)
               (if limited then ''delivery_rate_limited'' else ''delivery_retry_scheduled''))
             (now_at env AtMove)) (\<lambda>_.
           if limited
           then bindE (state_set pause_until (Some next) (now_at env AtState)) (\<lambda>_.
                state_set pause_reason (Some ''RATE_LIMITED'') (now_at env AtState))
           else ret ()))"

definition pause_for_auth :: "worker_env \<Rightarrow> queue_job \<Rightarrow> delivery_error \<Rightarrow> unit db_io" where
  "pause_for_auth env job e =
     bindE (transition (jUuid job) RETRY
         (failure_options e (Some (toISOString (next_time env job e))) ''delivery_paused_auth'')
         (now_at env AtMove)) (\<lambda>_.
     bindE (state_set ''connectivity''
         (Some (if errorClass e = LOGGED_OUT then ''LOGGED_OUT'' else ''AUTH_REQUIRED''))
         (now_at env AtState)) (\<lambda>_.
     bindE (state_set pause_reason (Some (show_error_class (errorClass e))) (now_at env AtState)) (\<lambda>_.
     audit_add ''auth_required''
       \<lparr>aoActor = Some ''worker'', aoEntityType = Some ''job'', aoEntityId = Some (jUuid job),
        aoDetails = None\<rparr> (now_at env AtAudit))))"

definition fail_job :: "worker_env \<Rightarrow> queue_job \<Rightarrow> delivery_error \<Rightarrow> unit db_io" where
  "fail_job env job e =
     bindE (if errorClass e = PERMISSION_ERROR \<or> errorClass e = DESTINATION_ERROR
            then setCanSend (jDestinationJid job) False (now_at env AtBlock) else ret ()) (\<lambda>_.
     bindE (transition (jUuid job) FAILED (failure_options e None ''delivery_permanent_failure'')
       (now_at env AtMove)) (\<lambda>_. ret ()))"

definition handleError :: "worker_env \<Rightarrow> queue_job \<Rightarrow> delivery_error \<Rightarrow> unit worker_io" where
  "handleError env job e =
     (case rdAction (decision_for env job e) of
        Retry \<Rightarrow> on_fst (wait_for_retry env job e)
      | RateLimit \<Rightarrow> on_fst (wait_for_retry env job e)
      | PauseAuth \<Rightarrow>
          bindE (on_fst (pause_for_auth env job e)) (\<lambda>_. on_snd (writeE requestStop))
      | Fail \<Rightarrow> on_fst (fail_job env job e))"

definition attempt :: "worker_env \<Rightarrow> queue_job \<Rightarrow> unit worker_io" where
  "attempt env job =
     finallyE
       (catchE (bindE (send_stage env job) (\<lambda>r. on_fst (settle env job r)))
         (\<lambda>e. handleError env job (as_delivery_error e)))
       (\<lambda>(s, w). (s, w\<lparr>wkLastSend := weClock env AtFinish\<rparr>))"

text \<open>\<open>None\<close>: the pacing loop has not ended.\<close>

definition after_pace :: "worker_env \<Rightarrow> queue_job \<Rightarrow> bool option \<Rightarrow> bool option worker_io" where
  "after_pace env job go =
     (case go of
        None \<Rightarrow> ret None
      | Some False \<Rightarrow>
          bindE (on_snd (writeE requestStop)) (\<lambda>_.
          bindE (on_fst (transition (jUuid job) RETRY (shutdown_options env) (now_at env AtMove)))
            (\<lambda>_. ret (Some True)))
      | Some True \<Rightarrow>
          bindE (readE (\<lambda>(s, w). refusal env job s)) (\<lambda>no.
            case no of
              Some options \<Rightarrow>
                bindE (on_fst (transition (jUuid job) FAILED options (now_at env AtMove)))
                  (\<lambda>_. ret (Some True))
            | None \<Rightarrow> bindE (attempt env job) (\<lambda>_. ret (Some True))))"

definition processOnce :: "worker_env \<Rightarrow> string option \<Rightarrow> bool option worker_io" where
  "processOnce env reference =
     bindE (on_fst (isGloballyPaused env)) (\<lambda>paused.
       if paused then ret (Some False)
       else bindE (on_fst (claim_stage env reference)) (\<lambda>job.
         case job of
           None \<Rightarrow> ret (Some False)
         | Some job \<Rightarrow>
             bindE (readE (\<lambda>(s, w). pace env w)) (\<lambda>go.
             bindE (on_fst (writeE (weDuringPace env))) (\<lambda>_.
             after_pace env job go))))"

section \<open>The loop\<close>

text \<open>
  \<open>run\<close> over the environments of its rounds; \<open>True\<close> when the loop was left, \<open>False\<close> while it
  still goes on after them.
\<close>

definition between :: "worker_env \<Rightarrow> unit worker_io" where
  "between env = writeE (\<lambda>(s, w). (weBetween env s, if weStopBetween env then requestStop w else w))"

fun work :: "worker_env list \<Rightarrow> bool worker_io" where
  "work envs =
     bindE (readE (\<lambda>(s, w). wkStopping w)) (\<lambda>stop.
       if stop then ret True
       else case envs of
         [] \<Rightarrow> ret False
       | env # rest \<Rightarrow>
           bindE (processOnce env None) (\<lambda>r.
             case r of
               None \<Rightarrow> ret False
             | Some _ \<Rightarrow> bindE (between env) (\<lambda>_. work rest)))"

declare work.simps [simp del]

definition stopped :: "string \<Rightarrow> database \<times> worker \<Rightarrow> database \<times> worker" where
  "stopped now x = (case x of (s, w) \<Rightarrow>
     (after (state_set ''worker_state'' (Some ''STOPPED'') now) s, w\<lparr>wkRunning := False\<rparr>))"

definition run :: "worker_env list \<Rightarrow> string \<Rightarrow> string \<Rightarrow> bool worker_io" where
  "run envs startedAt stoppedAt =
     bindE (on_snd (writeE (\<lambda>w. w\<lparr>wkRunning := True\<rparr>))) (\<lambda>_.
     bindE (on_fst (state_set ''worker_state'' (Some ''RUNNING'') startedAt)) (\<lambda>_.
       (\<lambda>x. case work envs x of
              (Inr False, y) \<Rightarrow> (Inr False, y)
            | (r, y) \<Rightarrow> (r, stopped stoppedAt y))))"

section \<open>Soundness\<close>

definition others_sound :: "worker_env \<Rightarrow> bool" where
  "others_sound env \<longleftrightarrow>
     (\<forall>s. sound s (weDuringPace env s) \<and> sound s (weDuringSend env s) \<and> sound s (weBetween env s))"

lemma world_sound_others:
  "(\<And>s. sound s (f s)) \<Longrightarrow> keeps world_sound (on_fst (writeE f))"
  by (intro world_sound_fst soundness.keeps_write)

lemma sound_isGloballyPaused [keeps_intro]: "keeps sound (isGloballyPaused env)"
  unfolding isGloballyPaused_def by (intro keeps_intro)

lemma sound_claim_stage [keeps_intro]: "keeps sound (claim_stage env r)"
  unfolding claim_stage_def by (intro keeps_intro)

lemma sound_settle [keeps_intro]: "keeps sound (settle env job r)"
  unfolding settle_def by (intro keeps_intro)

lemma sound_wait_for_retry [keeps_intro]: "keeps sound (wait_for_retry env job e)"
  unfolding wait_for_retry_def Let_def by (intro keeps_intro)

lemma sound_pause_for_auth [keeps_intro]: "keeps sound (pause_for_auth env job e)"
  unfolding pause_for_auth_def by (intro keeps_intro)

lemma sound_fail_job [keeps_intro]: "keeps sound (fail_job env job e)"
  unfolding fail_job_def by (intro keeps_intro)

lemma sound_handleError: "keeps world_sound (handleError env job e)"
  unfolding handleError_def
  by (cases "rdAction (decision_for env job e)") (simp_all, (intro world_rules keeps_intro)+)

lemma sound_send_stage: "others_sound env \<Longrightarrow> keeps world_sound (send_stage env job)"
  unfolding send_stage_def
  by (intro world_rules)
    (auto simp: others_sound_def split: sum.split intro!: world_rules world_sound_others)

lemma sound_attempt: "others_sound env \<Longrightarrow> keeps world_sound (attempt env job)"
  unfolding attempt_def
  by (intro world_soundness.keeps_finally world_rules sound_send_stage sound_handleError sound_settle)
    (auto simp: on_first_def soundness.refl)

lemma sound_after_pace: "others_sound env \<Longrightarrow> keeps world_sound (after_pace env job go)"
  unfolding after_pace_def
  by (auto split: option.split bool.split intro!: world_rules sound_transition sound_attempt)

lemma sound_processOnce: "others_sound env \<Longrightarrow> keeps world_sound (processOnce env r)"
  unfolding processOnce_def
  by (intro world_rules sound_after_pace sound_isGloballyPaused sound_claim_stage
      soundness.keeps_write)
    (auto simp: others_sound_def)

lemma sound_between: "others_sound env \<Longrightarrow> keeps world_sound (between env)"
  unfolding between_def
  by (rule world_soundness.keeps_write) (auto simp: others_sound_def on_first_def)

lemma sound_work:
  "\<forall>env \<in> set envs. others_sound env \<Longrightarrow> keeps world_sound (work envs)"
proof (induction envs)
  case Nil
  show ?case
    unfolding work.simps [of "[]"] list.case by (intro world_rules)
next
  case (Cons env envs)
  then show ?case
    unfolding work.simps [of "env # envs"] list.case
    by (intro world_rules sound_processOnce sound_between) auto
qed

lemma sound_stopped: "world_sound x (stopped now x)"
  using keepsD [OF sound_state_set] by (cases x) (simp add: stopped_def on_first_def)

lemma sound_run:
  assumes "\<forall>env \<in> set envs. others_sound env"
  shows "keeps world_sound (run envs a b)"
  unfolding run_def
proof (intro world_rules keepsI)
  fix x
  have "world_sound x (after (work envs) x)" by (rule keepsD [OF sound_work [OF assms]])
  moreover have "world_sound y (stopped b y)" for y by (rule sound_stopped)
  ultimately show "world_sound x (after (\<lambda>x. case work envs x of
      (Inr False, y) \<Rightarrow> (Inr False, y) | (r, y) \<Rightarrow> (r, stopped b y)) x)"
    by (cases "work envs x"; cases "fst (work envs x)")
      (auto simp: after_def intro: world_soundness.trans split: bool.split)
qed

section \<open>What a round sends\<close>

text \<open>The sweeps before the claim rewrite statuses only.\<close>

abbreviation "same_uuids \<equiv> same_part (\<lambda>s. map jUuid (dbJobs s))"

lemma same_uuids_update_jobs:
  "(\<And>j. jUuid (f j) = jUuid j) \<Longrightarrow> keeps same_uuids (update_jobs P f)"
  by (auto simp: keeps_def same_part_def update_jobs_after map_update_where)

lemma same_uuids_promote: "keeps same_uuids (promoteDueScheduled now)"
  unfolding promoteDueScheduled_def immediateTransaction_def
  by (intro part_keep.keeps_rules same_uuids_update_jobs) simp

lemma same_uuids_cancelDisabled: "keeps same_uuids (cancelDisabled now)"
  unfolding cancelDisabled_def immediateTransaction_def
  by (intro part_keep.keeps_rules same_uuids_update_jobs) (simp add: cancelled_row_def)

lemma same_uuids_claim: "keeps same_uuids (claim now r d)"
  unfolding claim_def immediateTransaction_def assertJobTransition_def
  by (intro part_keep.keeps_rules same_uuids_update_jobs) (simp add: claimed_row_def)

lemma same_uuids_claim_stage: "keeps same_uuids (claim_stage env r)"
  unfolding claim_stage_def claimJob_def claimNext_def
  by (intro part_keep.keeps_rules same_uuids_promote same_uuids_cancelDisabled same_uuids_claim)

lemma same_jobs_isGloballyPaused: "keeps (same_part dbJobs) (isGloballyPaused env)"
  unfolding isGloballyPaused_def state_remove_def
  by (intro part_keep.keeps_rules part_keep.keeps_write) (simp_all add: same_part_def)

lemma same_destinations_isGloballyPaused: "keeps (same_part dbDestinations) (isGloballyPaused env)"
  unfolding isGloballyPaused_def state_remove_def
  by (intro part_keep.keeps_rules part_keep.keeps_write) (simp_all add: same_part_def)

lemma isGloballyPaused_runs: "\<exists>b. isGloballyPaused env s = (Inr b, after (isGloballyPaused env) s)"
  by (auto simp: isGloballyPaused_def state_remove_def run_bind after_def)

lemma isGloballyPaused_jobs [simp]: "dbJobs (after (isGloballyPaused env) s) = dbJobs s"
  using keepsD [OF same_jobs_isGloballyPaused] by (simp add: same_part_def)

lemma isGloballyPaused_ok:
  assumes "db_ok s" and "uuids_dashed s"
  shows "db_ok (after (isGloballyPaused env) s)" "uuids_dashed (after (isGloballyPaused env) s)"
  using keepsD [OF sound_isGloballyPaused] assms
  by (auto simp: sound_def uuids_dashed_def)

text \<open>The job a claim returns, and where it comes from.\<close>

lemma evolved_from:
  assumes "jobs_evolve s t" and "length (dbJobs t) = length (dbJobs s)" and "j \<in> set (dbJobs t)"
  shows "\<exists>i \<in> set (dbJobs s). job_evolves i j"
proof -
  from assms(3) obtain i where i: "i < length (dbJobs t)" "dbJobs t ! i = j"
    by (auto simp: in_set_conv_nth)
  from assms(1,2) have "list_all2 job_evolves (dbJobs s) (dbJobs t)" by (simp add: jobs_evolve_def)
  from list_all2_nthD2 [OF this i(1)] i assms(2) show ?thesis by (metis nth_mem)
qed

lemma named_claimed: "named r (claimed_row now j) = named r j"
  by (cases r) (simp_all add: named_def claimed_row_def)

lemma claim_SomeD:
  assumes "db_ok s" and "uuids_dashed s" and "claim now r d s = (Inr (Some job), t)"
  shows "job \<in> set (dbJobs t)" "jStatus job = PROCESSING" "d \<Longrightarrow> jDryRun job"
    "named r job" "sendable t (jDestinationJid job)"
proof -
  obtain j where j: "claim_candidate now r d s = Some j"
    and job: "job = claimed_row now j" and t: "t = with_row j (claimed_row now) s"
    using assms(3) by (auto simp: claim_eq [OF assms(1,2)] split: option.splits)
  note jm = claim_candidate_SomeD [OF j]
  show "job \<in> set (dbJobs t)" using jm(1) by (auto simp: t job set_update_where)
  show "jStatus job = PROCESSING" by (simp add: job)
  show "d \<Longrightarrow> jDryRun job" using jm(2) by (simp add: job claimable_def claimed_row_def)
  show "named r job" using jm(2) by (simp add: job claimable_def named_claimed)
  show "sendable t (jDestinationJid job)"
    using jm(2) by (simp add: job claimable_def claimed_row_def sendable_def destination_of_def t)
qed

lemma claim_stage_SomeD:
  assumes ok: "db_ok s" "uuids_dashed s" and c: "claim_stage env r s = (Inr (Some job), t)"
  shows "db_ok t" "uuids_dashed t" "job \<in> set (dbJobs t)" "jStatus job = PROCESSING"
    "cfgDryRun (weConfig env) \<Longrightarrow> jDryRun job" "truthy r \<Longrightarrow> named r job"
    "sendable t (jDestinationJid job)"
    "\<exists>j \<in> set (dbJobs s). job_evolves j job"
proof -
  have t: "t = after (claim_stage env r) s" using c by (simp add: after_def)
  have st: "sound s t" unfolding t by (rule keepsD [OF sound_claim_stage])
  have same: "map jUuid (dbJobs t) = map jUuid (dbJobs s)"
    using keepsD [OF same_uuids_claim_stage] by (simp add: t same_part_def)
  show "db_ok t" using st ok(1) by (rule soundD)
  show "uuids_dashed t" using ok(2) uuids_dashed_map [OF same] by simp
  define p where "p = after (promoteDueScheduled (now_at env AtClaim)) s"
  define q where "q = after (cancelDisabled (now_at env AtSweep)) p"
  have "sound s p" "sound p q"
    unfolding p_def q_def by (rule keepsD, intro keeps_intro)+
  then have q: "db_ok q" using ok(1) by (blast dest: soundD)
  have "map jUuid (dbJobs q) = map jUuid (dbJobs s)"
    using keepsD [OF same_uuids_promote] keepsD [OF same_uuids_cancelDisabled]
    by (simp add: p_def q_def same_part_def)
  with ok(2) have dq: "uuids_dashed q" using uuids_dashed_map [of q s] by simp
  define ref where "ref = (if truthy r then Some (or_else r []) else None)"
  have cl: "claim (now_at env AtClaim) ref (cfgDryRun (weConfig env)) q = (Inr (Some job), t)"
    using c unfolding claim_stage_def ref_def claimJob_def claimNext_def
    by (auto simp: run_bind after_def p_def q_def split: prod.splits sum.splits if_splits)
  note D = claim_SomeD [OF q dq cl]
  show job: "job \<in> set (dbJobs t)" and "jStatus job = PROCESSING"
    and "cfgDryRun (weConfig env) \<Longrightarrow> jDryRun job" and "sendable t (jDestinationJid job)"
    by (fact D)+
  show "truthy r \<Longrightarrow> named r job"
    using D(4) by (auto simp: ref_def truthy_def or_else_def named_def split: option.splits)
  show "\<exists>j \<in> set (dbJobs s). job_evolves j job"
    using job soundD(2) [OF st ok(1)] arg_cong [OF same, of length] by (intro evolved_from) auto
qed

text \<open>The shape of a round.\<close>

lemma processOnce_eq:
  "processOnce env r (s, w) =
     (let s' = after (isGloballyPaused env) s in
      if fst (isGloballyPaused env s) = Inr True then (Inr (Some False), (s', w))
      else case claim_stage env r s' of
        (Inl e, t) \<Rightarrow> (Inl e, (t, w))
      | (Inr None, t) \<Rightarrow> (Inr (Some False), (t, w))
      | (Inr (Some job), t) \<Rightarrow> after_pace env job (pace env w) (weDuringPace env t, w))"
proof -
  obtain b where "isGloballyPaused env s = (Inr b, after (isGloballyPaused env) s)"
    using isGloballyPaused_runs by blast
  then have "fst (isGloballyPaused env s) = Inr b" by (metis fst_conv)
  then show ?thesis
    by (auto simp: processOnce_def Let_def run_bind run_on_fst after_def
        split: prod.split sum.split option.split)
qed

text \<open>The trace after the pacing.\<close>

lemma handleError_trace: "wkSent (snd (after (handleError env job e) x)) = wkSent (snd x)"
  by (cases x; cases "rdAction (decision_for env job e)")
    (auto simp: handleError_def after_def run_bind run_on_fst run_on_snd requestStop_def
      split: prod.split sum.split)

lemma attempt_trace:
  assumes "jStatus job = PROCESSING"
  shows "wkSent (snd (after (attempt env job) (s, w))) = wkSent w @
    [\<lparr>seTransport = trName (chosen_transport env job), seJob = job, seDb = s\<rparr>]"
proof -
  let ?e = "\<lparr>seTransport = trName (chosen_transport env job), seJob = job, seDb = s\<rparr>"
  let ?x = "(weDuringSend env s, w\<lparr>wkSent := wkSent w @ [?e]\<rparr>)"
  have send: "send_stage env job (s, w) = (trSend (chosen_transport env job) job s, ?x)"
    using assms
    by (auto simp: send_stage_def asSendableJob_def run_bind run_on_snd run_on_fst after_def
        split: sum.split)
  have "snd (after (attempt env job) (s, w)) =
      (snd (after (catchE (bindE (send_stage env job) (\<lambda>r. on_fst (settle env job r)))
         (\<lambda>e. handleError env job (as_delivery_error e))) (s, w)))\<lparr>wkLastSend := weClock env AtFinish\<rparr>"
    by (simp add: attempt_def run_finally after_def split: prod.split)
  moreover have "wkSent (snd (after (catchE (bindE (send_stage env job) (\<lambda>r. on_fst (settle env job r)))
         (\<lambda>e. handleError env job (as_delivery_error e))) (s, w))) = wkSent w @ [?e]"
    using handleError_trace [where env = env and job = job]
    by (auto simp: run_catch run_bind send run_on_fst after_def split: sum.split prod.split)
  ultimately show ?thesis by simp
qed

lemma after_pace_trace:
  assumes "jStatus job = PROCESSING" and "after_pace env job go (s, w) = (res, (t, w'))"
  shows "wkSent w' = wkSent w \<or> go = Some True \<and> refusal env job s = None \<and>
    wkSent w' = wkSent w @ [\<lparr>seTransport = trName (chosen_transport env job), seJob = job, seDb = s\<rparr>]"
proof (cases "go = Some True \<and> refusal env job s = None")
  case True
  with assms(2) have "w' = snd (after (attempt env job) (s, w))"
    by (cases "attempt env job (s, w)"; cases "fst (attempt env job (s, w))")
      (auto simp: after_pace_def run_bind after_def)
  with True attempt_trace [OF assms(1)] show ?thesis by simp
next
  case False
  with assms(2) show ?thesis
    by (auto simp: after_pace_def run_bind run_on_fst run_on_snd requestStop_def after_def
        split: option.splits bool.splits sum.splits prod.splits)
qed

lemma pace_loop_True: "pace_loop st d ticks = Some True \<Longrightarrow> \<not> st"
  by (cases ticks) (auto split: if_splits)

lemma pace_True: "pace env w = Some True \<Longrightarrow> \<not> wkStopping w"
  by (auto simp: pace_def Let_def dest: pace_loop_True split: if_splits)

definition safe_send :: "worker_env \<Rightarrow> database \<Rightarrow> send_event \<Rightarrow> bool" where
  "safe_send env s ev \<longleftrightarrow>
     jStatus (seJob ev) = PROCESSING \<and>
     (\<exists>j \<in> set (dbJobs s). job_evolves j (seJob ev)) \<and>
     (\<exists>d. resolve (jDestinationJid (seJob ev)) (seDb ev) = Some d \<and> dEnabled d \<and> dCanSend d) \<and>
     (truthy (jMediaPath (seJob ev)) \<longrightarrow> weFileExists env (or_else (jMediaPath (seJob ev)) [])) \<and>
     (jDryRun (seJob ev) \<longrightarrow> seTransport ev = ''dry-run'') \<and>
     (cfgDryRun (weConfig env) \<longrightarrow> jDryRun (seJob ev))"

lemma processOnce_trace:
  assumes ok: "db_ok s" "uuids_dashed s" and run: "processOnce env r (s, w) = (res, (t, w'))"
  shows "wkSent w' = wkSent w \<or>
    fst (isGloballyPaused env s) = Inr False \<and> \<not> wkStopping w \<and>
    (\<exists>ev. wkSent w' = wkSent w @ [ev] \<and> safe_send env s ev \<and> (truthy r \<longrightarrow> named r (seJob ev)))"
proof -
  let ?s = "after (isGloballyPaused env) s"
  note ok' = isGloballyPaused_ok [OF ok, of env]
  show ?thesis
  proof (cases "\<exists>job u. fst (isGloballyPaused env s) = Inr False \<and>
      claim_stage env r ?s = (Inr (Some job), u)")
    case True
    then obtain job u where p: "fst (isGloballyPaused env s) = Inr False"
      and c: "claim_stage env r ?s = (Inr (Some job), u)" by blast
    note D = claim_stage_SomeD [OF ok' c]
    from run p c have "after_pace env job (pace env w) (weDuringPace env u, w) = (res, (t, w'))"
      by (simp add: processOnce_eq Let_def)
    from after_pace_trace [OF D(4) this] show ?thesis
    proof (elim disjE conjE)
      let ?e = "\<lparr>seTransport = trName (chosen_transport env job), seJob = job,
        seDb = weDuringPace env u\<rparr>"
      assume go: "pace env w = Some True" and ref: "refusal env job (weDuringPace env u) = None"
        and sent: "wkSent w' = wkSent w @ [?e]"
      have "safe_send env s ?e"
        using D ref
        by (auto simp: safe_send_def refusal_def chosen_transport_def dry_run_transport_def
            split: if_splits option.splits)
      with p pace_True [OF go] sent D(6) show ?thesis by auto
    qed simp
  next
    case False
    with run isGloballyPaused_runs [of env s] show ?thesis
      by (auto simp: processOnce_eq Let_def split: prod.splits sum.splits option.splits if_splits)
  qed
qed

section \<open>What becomes of the claimed job\<close>

text \<open>A job in flight, and other processes that leave it alone.\<close>

definition in_flight :: "queue_job \<Rightarrow> database \<Rightarrow> bool" where
  "in_flight j s \<longleftrightarrow>
     db_ok s \<and> uuids_dashed s \<and> j \<in> set (dbJobs s) \<and> jStatus j = PROCESSING"

definition spares_claimed :: "(database \<Rightarrow> database) \<Rightarrow> bool" where
  "spares_claimed f \<longleftrightarrow> (\<forall>s j. in_flight j s \<longrightarrow> in_flight j (f s))"

lemma move_claimed:
  assumes "in_flight j s" and "target \<in> set (transitions PROCESSING)"
  shows "\<exists>t. transition (jUuid j) target options now s = (Inr (moved_row target options now j), t) \<and>
    moved_row target options now j \<in> set (dbJobs t)"
proof -
  have j: "db_ok s" "uuids_dashed s" "j \<in> set (dbJobs s)" "jStatus j = PROCESSING"
    using assms(1) by (simp_all add: in_flight_def)
  have "\<not> key_taken j target s"
    using j(4) by (simp add: key_taken_def is_active_def)
  moreover have "can_transition (jStatus j) target"
    using assms(2) j(4) by (simp add: can_transition_def)
  ultimately show ?thesis
    using j by (auto simp: transition_eq getByReference_own set_update_where)
qed

lemma state_set_jobs [simp]: "dbJobs (after (state_set k v now) s) = dbJobs s"
  by (simp add: state_set_def after_def)

lemma run_state_set: "state_set k v now s = (Inr (), after (state_set k v now) s)"
  by (simp add: state_set_def after_def)

lemma run_audit_add: "audit_add e a now s = (Inr (), after (insertAudit e a now) s)"
  using insertAudit_eq [of e a now s]
  by (simp add: audit_add_def immediateTransaction_def run_atomically)

lemma settle_moves:
  assumes "in_flight j s"
  shows "\<exists>t options. settle env j r s = (Inr (), t) \<and>
    moved_row (if srDryRun r then DRY_RUN else SENT) options (now_at env AtMove) j \<in> set (dbJobs t)"
  using move_claimed [OF assms, of "if srDryRun r then DRY_RUN else SENT"
      "sent_options r (if srDryRun r then ''dry_run_executed'' else ''delivery_succeeded'')"
      "now_at env AtMove"]
  by (cases "srDryRun r")
    (auto simp: settle_def run_bind run_state_set)

lemma wait_for_retry_moves:
  assumes "in_flight j s"
  shows "\<exists>t options. wait_for_retry env j e s = (Inr (), t) \<and>
    moved_row (if rdAction (decision_for env j e) = RateLimit then WAITING_RATE_LIMIT else RETRY)
      options (now_at env AtMove) j \<in> set (dbJobs t)"
  using move_claimed [OF assms, of
      "if rdAction (decision_for env j e) = RateLimit then WAITING_RATE_LIMIT else RETRY"
      "failure_options e (Some (toISOString (next_time env j e)))
        (if rdAction (decision_for env j e) = RateLimit then ''delivery_rate_limited''
         else ''delivery_retry_scheduled'')" "now_at env AtMove"]
  by (cases "rdAction (decision_for env j e) = RateLimit")
    (auto simp: wait_for_retry_def Let_def run_bind run_state_set)

lemma pause_for_auth_moves:
  assumes "in_flight j s"
  shows "\<exists>t options. pause_for_auth env j e s = (Inr (), t) \<and>
    moved_row RETRY options (now_at env AtMove) j \<in> set (dbJobs t)"
  using move_claimed [OF assms, of RETRY
      "failure_options e (Some (toISOString (next_time env j e))) ''delivery_paused_auth''"
      "now_at env AtMove"]
  by (auto simp: pause_for_auth_def run_bind run_state_set run_audit_add)

lemma setCanSend_in_flight:
  assumes "in_flight j s"
  shows "\<exists>t. setCanSend jid False now s = (Inr (), t) \<and> in_flight j t"
proof -
  have j: "db_ok s" "uuids_dashed s" "j \<in> set (dbJobs s)" "jStatus j = PROCESSING"
    using assms by (simp_all add: in_flight_def)
  let ?f = "\<lambda>x. x\<lparr>dCanSend := False, dUpdatedAt := now\<rparr>"
  let ?u = "s\<lparr>dbDestinations := update_where (\<lambda>x. dJid x = jid) ?f (dbDestinations s)\<rparr>"
  let ?P = "\<lambda>j. jDestinationJid j = jid \<and> is_unsent (jStatus j)"
  let ?g = "cancelled_row now ''Destination no longer allows sending''"
  let ?t = "?u\<lparr>dbJobs := update_where ?P ?g (dbJobs s)\<rparr>"
  have "update_destinations (\<lambda>x. dJid x = jid) ?f s = (Inr (), ?u)"
    by (rule update_destinations_plain [OF j(1)]) simp
  moreover have "update_jobs ?P ?g ?u = (Inr (length (filter ?P (dbJobs s))), ?t)"
    by (subst update_jobs_passive)
      (auto simp: is_active_def cancelled_row_def jobs_ok_keys [OF j(1)])
  ultimately have run: "setCanSend jid False now s = (Inr (), ?t)"
    by (simp add: setCanSend_def immediateTransaction_def run_atomically run_bind)
  have "db_ok ?t"
    using keepsD [OF sound_setCanSend, of s jid False now] j(1)
    by (simp add: run sound_def after_def)
  moreover have "uuids_dashed ?t"
    using j(2) uuids_dashed_map [of ?t s] by (simp add: map_update_where cancelled_row_def)
  moreover have "j \<in> set (dbJobs ?t)"
    using j(3,4) by (force simp: set_update_where is_unsent_def unsent_statuses_def)
  ultimately show ?thesis using run j(4) by (simp add: in_flight_def)
qed

lemma fail_job_moves:
  assumes "in_flight j s"
  shows "\<exists>t options. fail_job env j e s = (Inr (), t) \<and>
    moved_row FAILED options (now_at env AtMove) j \<in> set (dbJobs t)"
proof -
  obtain u where u: "in_flight j u" and b: "(if errorClass e = PERMISSION_ERROR \<or>
      errorClass e = DESTINATION_ERROR
      then setCanSend (jDestinationJid j) False (now_at env AtBlock) else ret ()) s = (Inr (), u)"
  proof (cases "errorClass e = PERMISSION_ERROR \<or> errorClass e = DESTINATION_ERROR")
    case True
    with setCanSend_in_flight [OF assms, of "jDestinationJid j" "now_at env AtBlock"] that
    show thesis by auto
  qed (use assms that in simp)
  let ?o = "failure_options e None ''delivery_permanent_failure''"
  obtain t where m: "transition (jUuid j) FAILED ?o (now_at env AtMove) u =
      (Inr (moved_row FAILED ?o (now_at env AtMove) j), t)"
    and mem: "moved_row FAILED ?o (now_at env AtMove) j \<in> set (dbJobs t)"
    using move_claimed [OF u, of FAILED ?o "now_at env AtMove"] by auto
  have "fail_job env j e s = (Inr (), t)"
    unfolding fail_job_def run_bind [of _ _ s] b by (simp add: run_bind m)
  with mem show ?thesis by blast
qed

text \<open>The status each answer of a transport leads to.\<close>

fun failure_status :: "retry_action \<Rightarrow> job_status" where
  "failure_status Retry = RETRY"
| "failure_status PauseAuth = RETRY"
| "failure_status RateLimit = WAITING_RATE_LIMIT"
| "failure_status Fail = FAILED"

definition verdict :: "worker_env \<Rightarrow> queue_job \<Rightarrow> error + send_result \<Rightarrow> job_status" where
  "verdict env job answer =
     (case answer of
        Inr r \<Rightarrow> if srDryRun r then DRY_RUN else SENT
      | Inl e \<Rightarrow> failure_status (rdAction (decision_for env job (as_delivery_error e))))"

lemma handleError_moves:
  assumes "in_flight j s"
  shows "\<exists>t options. handleError env j e (s, w) = (Inr (), (t,
      if rdAction (decision_for env j e) = PauseAuth then requestStop w else w)) \<and>
    moved_row (failure_status (rdAction (decision_for env j e))) options (now_at env AtMove) j
      \<in> set (dbJobs t)"
proof (cases "rdAction (decision_for env j e)")
  case Retry
  with wait_for_retry_moves [OF assms, of env e] show ?thesis
    by (auto simp: handleError_def run_on_fst after_def)
next
  case RateLimit
  with wait_for_retry_moves [OF assms, of env e] show ?thesis
    by (auto simp: handleError_def run_on_fst after_def)
next
  case PauseAuth
  with pause_for_auth_moves [OF assms, of env e] show ?thesis
    by (auto simp: handleError_def run_bind run_on_fst run_on_snd after_def)
next
  case Fail
  with fail_job_moves [OF assms, of env e] show ?thesis
    by (auto simp: handleError_def run_on_fst after_def)
qed

definition auth_lost :: "worker_env \<Rightarrow> queue_job \<Rightarrow> error + send_result \<Rightarrow> bool" where
  "auth_lost env job answer \<longleftrightarrow>
     (case answer of
        Inr r \<Rightarrow> False
      | Inl e \<Rightarrow> errorClass (as_delivery_error e) \<in> {AUTH_REQUIRED, LOGGED_OUT})"

lemma pause_auth_iff:
  "rdAction (decision_for env job e) = PauseAuth \<longleftrightarrow> errorClass e \<in> {AUTH_REQUIRED, LOGGED_OUT}"
  by (auto simp: decision_for_def decideRetry_def Let_def split: option.split)

lemma attempt_moves:
  assumes "in_flight j s" and "spares_claimed (weDuringSend env)"
  shows "\<exists>t w' options. attempt env j (s, w) = (Inr (), (t, w')) \<and>
    moved_row (verdict env j (trSend (chosen_transport env j) j s)) options (now_at env AtMove) j
      \<in> set (dbJobs t) \<and>
    wkStopping w' = (wkStopping w \<or> auth_lost env j (trSend (chosen_transport env j) j s)) \<and>
    wkLastSend w' = weClock env AtFinish"
proof -
  let ?s = "weDuringSend env s"
  let ?w = "w\<lparr>wkSent := wkSent w @ [\<lparr>seTransport = trName (chosen_transport env j), seJob = j,
    seDb = s\<rparr>]\<rparr>"
  have fl: "in_flight j ?s" using assms by (simp add: spares_claimed_def)
  have send: "send_stage env j (s, w) = (trSend (chosen_transport env j) j s, (?s, ?w))"
    using assms(1)
    by (auto simp: in_flight_def send_stage_def asSendableJob_def run_bind run_on_snd run_on_fst
        after_def split: sum.split)
  show ?thesis
  proof (cases "trSend (chosen_transport env j) j s")
    case (Inl e)
    obtain t options where h: "handleError env j (as_delivery_error e) (?s, ?w) = (Inr (), (t,
        if rdAction (decision_for env j (as_delivery_error e)) = PauseAuth then requestStop ?w else ?w))"
      and m: "moved_row (failure_status (rdAction (decision_for env j (as_delivery_error e))))
        options (now_at env AtMove) j \<in> set (dbJobs t)"
      using handleError_moves [OF fl] by blast
    from h m show ?thesis
      by (auto simp: attempt_def run_finally run_catch run_bind send Inl after_def verdict_def
          auth_lost_def pause_auth_iff requestStop_def)
  next
    case (Inr r)
    obtain t options where h: "settle env j r ?s = (Inr (), t)"
      and m: "moved_row (if srDryRun r then DRY_RUN else SENT) options (now_at env AtMove) j
        \<in> set (dbJobs t)"
      using settle_moves [OF fl] by blast
    from h m show ?thesis
      by (auto simp: attempt_def run_finally run_catch run_bind run_on_fst send Inr after_def
          verdict_def auth_lost_def split: if_splits)
  qed
qed

definition final_status :: "worker_env \<Rightarrow> queue_job \<Rightarrow> bool \<Rightarrow> database \<Rightarrow> job_status" where
  "final_status env job go s =
     (if \<not> go then RETRY
      else if refusal env job s \<noteq> None then FAILED
      else verdict env job (trSend (chosen_transport env job) job s))"

lemma final_status_settled:
  "final_status env job go s \<in> {SENT, DRY_RUN, RETRY, WAITING_RATE_LIMIT, FAILED}"
proof -
  have "failure_status a \<in> {RETRY, WAITING_RATE_LIMIT, FAILED}" for a by (cases a) simp_all
  then show ?thesis by (auto simp: final_status_def verdict_def split: sum.split)
qed

lemma after_pace_settles:
  assumes f: "in_flight job s" and others: "spares_claimed (weDuringSend env)"
  shows "\<exists>t w' options. after_pace env job (Some go) (s, w) = (Inr (Some True), (t, w')) \<and>
    moved_row (final_status env job go s) options (now_at env AtMove) job \<in> set (dbJobs t)"
proof (cases "go \<and> refusal env job s = None")
  case True
  then have go: "go" "refusal env job s = None" by simp_all
  obtain t w' options where a: "attempt env job (s, w) = (Inr (), (t, w'))"
    and m: "moved_row (verdict env job (trSend (chosen_transport env job) job s)) options
      (now_at env AtMove) job \<in> set (dbJobs t)"
    using attempt_moves [OF f others] by blast
  have "after_pace env job (Some go) (s, w) = (Inr (Some True), (t, w'))"
    by (simp add: after_pace_def go run_bind a)
  with m go show ?thesis by (auto simp: final_status_def)
next
  case False
  let ?o = "if go then the (refusal env job s) else shutdown_options env"
  let ?st = "if go then FAILED else RETRY"
  have "?st \<in> set (transitions PROCESSING)" by simp
  from move_claimed [OF f this, of ?o "now_at env AtMove"]
  obtain t where m: "transition (jUuid job) ?st ?o (now_at env AtMove) s =
      (Inr (moved_row ?st ?o (now_at env AtMove) job), t)"
    and mem: "moved_row ?st ?o (now_at env AtMove) job \<in> set (dbJobs t)" by blast
  have "\<exists>w'. after_pace env job (Some go) (s, w) = (Inr (Some True), (t, w'))"
    using m False
    by (cases go) (auto simp: after_pace_def run_bind run_on_fst run_on_snd after_def)
  moreover have "final_status env job go s = ?st" using False by (auto simp: final_status_def)
  ultimately show ?thesis using mem by metis
qed

text \<open>
  C3.  A claimed job never stays in flight: once the pacing is over the round returns normally
  and the job has left \<open>PROCESSING\<close>.  Stopped before the send it is due again; refused by the last
  check or failed for good it is \<open>FAILED\<close>; and otherwise its status is the one the answer of the
  transport calls for, as long as no other process touches the claimed row.
\<close>

theorem round_settles_job:
  assumes "db_ok s" and "uuids_dashed s"
    and "spares_claimed (weDuringPace env)" and "spares_claimed (weDuringSend env)"
    and "fst (isGloballyPaused env s) = Inr False"
    and "claim_stage env r (after (isGloballyPaused env) s) = (Inr (Some job), u)"
    and "pace env w = Some go"
  shows "\<exists>t w' options.
    processOnce env r (s, w) = (Inr (Some True), (t, w')) \<and>
    moved_row (final_status env job go (weDuringPace env u)) options (now_at env AtMove) job
      \<in> set (dbJobs t) \<and>
    final_status env job go (weDuringPace env u) \<in> {SENT, DRY_RUN, RETRY, WAITING_RATE_LIMIT, FAILED}"
proof -
  note D = claim_stage_SomeD [OF isGloballyPaused_ok [OF assms(1,2), of env] assms(6)]
  have "in_flight job (weDuringPace env u)"
    using assms(3) D by (simp add: spares_claimed_def in_flight_def)
  from after_pace_settles [OF this assms(4), of go w] show ?thesis
    using assms(5-7) final_status_settled [of env job go "weDuringPace env u"]
    by (simp add: processOnce_eq Let_def)
qed

section \<open>Pauses\<close>

lemma state_get_set [simp]:
  "state_get k (after (state_set k' v now) s) = (if k = k' then v else state_get k s)"
  by (rule app_state.fetch_put)

lemma state_get_remove [simp]:
  "state_get k (after (state_remove k') s) = (if k = k' then None else state_get k s)"
  by (cases "k = k'") (simp_all add: app_state.fetch_deleted app_state.fetch_undeleted)

lemma state_get_audit: "state_get k (after (insertAudit e a now) s) = state_get k s"
  by (simp add: state_get_def)

lemma run_state_remove: "state_remove k s = (Inr (), after (state_remove k) s)"
  by (simp add: state_remove_def after_def)

lemma pause_keys [simp]: "pause_reason \<noteq> pause_until" "pause_until \<noteq> pause_reason"
  by (simp_all add: pause_reason_def pause_until_def)

definition live :: "worker_env \<Rightarrow> bool" where
  "live env \<longleftrightarrow> trName (weTransport env) \<noteq> ''dry-run''"

lemma paused_for_auth:
  assumes "live env" and "state_get pause_reason s \<in> Some ` {''AUTH_REQUIRED'', ''LOGGED_OUT'', ''FATAL''}"
  shows "isGloballyPaused env s = (Inr True, s)"
  using assms by (auto simp: isGloballyPaused_def live_def)

lemma paused_until:
  assumes "live env" and "state_get pause_reason s = Some ''RATE_LIMITED''"
    and "state_get pause_until s = Some (toISOString t)"
    and "reads_iso (weParse env)" and "four_digit_time t"
  shows "isGloballyPaused env s =
    (if weClock env AtPause < t then (Inr True, s)
     else (Inr False, after (state_remove pause_reason) (after (state_remove pause_until) s)))"
proof -
  have "truthy (Some (toISOString t))" by (simp add: truthy_def toISOString_def Let_def)
  with assms show ?thesis
    by (simp add: isGloballyPaused_def live_def later_than_def or_else_def reads_iso_def run_bind
        run_state_remove)
qed

lemma RateLimit_class:
  "rdAction (decision_for env job e) = RateLimit \<Longrightarrow> errorClass e = RATE_LIMITED"
  by (auto simp: decision_for_def decideRetry_def Let_def split: if_splits)

text \<open>
  C20.  A rate limit pauses every live worker until the time the job may be tried again: from
  the answer on, a round before that time does nothing, and the first round at or after it
  clears the pause and goes on.
\<close>

theorem rate_limit_pauses:
  assumes "rdAction (decision_for env job e) = RateLimit"
    and "handleError env job e (s, w) = (Inr (), (t, w'))"
    and "live later" and "reads_iso (weParse later)" and "four_digit_time (next_time env job e)"
  shows "(weClock later AtPause < next_time env job e \<longrightarrow>
      processOnce later r (t, v) = (Inr (Some False), (t, v))) \<and>
    (next_time env job e \<le> weClock later AtPause \<longrightarrow>
      isGloballyPaused later t =
        (Inr False, after (state_remove pause_reason) (after (state_remove pause_until) t)))"
proof -
  have run: "wait_for_retry env job e s = (Inr (), t)"
    using assms(1,2)
    by (cases "wait_for_retry env job e s") (auto simp: handleError_def run_on_fst after_def)
  obtain u where "t = after (state_set pause_reason (Some ''RATE_LIMITED'') (now_at env AtState))
      (after (state_set pause_until (Some (toISOString (next_time env job e))) (now_at env AtState)) u)"
    using run assms(1)
    by (auto simp: wait_for_retry_def Let_def run_bind run_state_set
        split: prod.splits sum.splits)
  then have "state_get pause_reason t = Some ''RATE_LIMITED''"
    and "state_get pause_until t = Some (toISOString (next_time env job e))"
    by simp_all
  note p = paused_until [OF assms(3) this assms(4,5)]
  then show ?thesis by (auto simp: processOnce_eq Let_def after_def)
qed


section \<open>Pacing\<close>

lemma pace_loop_end:
  "pace_loop st d ticks = Some True \<Longrightarrow> \<exists>stop now. (stop, now) \<in> set ticks \<and> d \<le> now"
  by (induction st d ticks rule: pace_loop.induct) (auto split: if_splits)

lemma pace_loop_returns:
  "(stop, now) \<in> set ticks \<Longrightarrow> stop \<or> d \<le> now \<Longrightarrow> pace_loop st d ticks \<noteq> None"
  by (induction st d ticks rule: pace_loop.induct) auto

text \<open>
  C23.  The pacing: a round goes on to the send only at a moment at least the configured interval
  after the end of the last send; and the loop ends as soon as it observes the deadline or a
  request to stop.
\<close>

theorem pace_keeps_distance:
  assumes "0 < cfgSendIntervalMs (weConfig env)" and "wkLastSend w \<noteq> 0"
    and "weClock env AtPaceStart \<le> weClock env AtDeadline"
  shows "(pace env w = Some True \<longrightarrow>
      (\<exists>now \<in> insert (weClock env AtPaceStart) (snd ` set (weTicks env)).
         cfgSendIntervalMs (weConfig env) \<le> now - wkLastSend w)) \<and>
    ((\<exists>(stop, now) \<in> set (weTicks env). stop \<or>
        weClock env AtDeadline + cfgSendIntervalMs (weConfig env) \<le> now \<and>
        wkLastSend w \<le> weClock env AtPaceStart) \<longrightarrow> pace env w \<noteq> None)"
proof (intro conjI impI)
  assume p: "pace env w = Some True"
  show "\<exists>now \<in> insert (weClock env AtPaceStart) (snd ` set (weTicks env)).
      cfgSendIntervalMs (weConfig env) \<le> now - wkLastSend w"
  proof (cases "wait_ms env w = 0")
    case True
    then have "cfgSendIntervalMs (weConfig env) \<le> weClock env AtPaceStart - wkLastSend w"
      by (simp add: wait_ms_def max_def split: if_splits)
    then show ?thesis by blast
  next
    case False
    with p assms obtain stop now where n: "(stop, now) \<in> set (weTicks env)"
      "weClock env AtDeadline + wait_ms env w \<le> now"
      by (auto simp: pace_def dest!: pace_loop_end)
    have "cfgSendIntervalMs (weConfig env) - (weClock env AtPaceStart - wkLastSend w) \<le> wait_ms env w"
      by (simp add: wait_ms_def)
    with n(2) assms(3) have "cfgSendIntervalMs (weConfig env) \<le> now - wkLastSend w" by linarith
    with n(1) show ?thesis by force
  qed
next
  assume "\<exists>(stop, now) \<in> set (weTicks env). stop \<or>
        weClock env AtDeadline + cfgSendIntervalMs (weConfig env) \<le> now \<and>
        wkLastSend w \<le> weClock env AtPaceStart"
  then obtain stop now where n: "(stop, now) \<in> set (weTicks env)"
    and e: "stop \<or> weClock env AtDeadline + cfgSendIntervalMs (weConfig env) \<le> now \<and>
      wkLastSend w \<le> weClock env AtPaceStart" by blast
  then have "stop \<or> weClock env AtDeadline + wait_ms env w \<le> now"
    using assms by (auto simp: wait_ms_def)
  with n show "pace env w \<noteq> None"
    by (auto simp: pace_def dest!: pace_loop_returns)
qed

section \<open>A whole run\<close>

definition well_formed :: "database \<Rightarrow> bool" where
  "well_formed s \<longleftrightarrow> db_ok s \<and> uuids_dashed s"

definition others_fair :: "worker_env \<Rightarrow> bool" where
  "others_fair env \<longleftrightarrow>
     (\<forall>s. well_formed s \<longrightarrow> well_formed (weDuringPace env s) \<and> well_formed (weDuringSend env s) \<and>
        well_formed (weBetween env s))"

lemma others_fairD:
  assumes "others_fair env" and "well_formed s"
  shows "well_formed (weDuringPace env s)" "well_formed (weDuringSend env s)"
    "well_formed (weBetween env s)"
  using assms unfolding others_fair_def by blast+

abbreviation "stays_well \<equiv> on_first (inv_rel well_formed)"

interpretation well_world: state_preorder stays_well
  by unfold_locales (auto simp: on_first_def inv_rel_def)

lemma keeps_well:
  "keeps sound m \<Longrightarrow> keeps same_uuids m \<Longrightarrow> keeps stays_well (on_fst m)"
proof (rule keeps_on_fst)
  assume m: "keeps sound m" "keeps same_uuids m"
  show "keeps (inv_rel well_formed) m"
  proof (rule keepsI)
    fix s
    have "map jUuid (dbJobs (after m s)) = map jUuid (dbJobs s)"
      using keepsD [OF m(2), of s] unfolding same_part_def .
    note u = uuids_dashed_map [OF this]
    show "inv_rel well_formed s (after m s)"
      using keepsD [OF m(1), of s] by (simp add: inv_rel_def well_formed_def sound_def u)
  qed
qed

lemma keeps_well_snd: "keeps stays_well (on_snd m)"
  by (rule keeps_on_snd) (simp add: inv_rel_def)

lemma same_uuids_write: "(\<And>s. dbJobs (f s) = dbJobs s) \<Longrightarrow> keeps same_uuids (writeE f)"
  by (simp add: keeps_def after_def same_part_def)

lemma same_uuids_audit: "keeps same_uuids (insertAudit e a now)"
  unfolding insertAudit_def by (rule same_uuids_write) simp

lemma same_uuids_state_set: "keeps same_uuids (state_set k v now)"
  unfolding state_set_def by (rule same_uuids_write) simp

lemma same_uuids_transition: "keeps same_uuids (transition r target options now)"
  unfolding transition_def immediateTransaction_def assertJobTransition_def transition_audit_def
  by (intro part_keep.keeps_rules same_uuids_update_jobs same_uuids_audit)
    (simp add: moved_row_def)

lemma same_uuids_setCanSend: "keeps same_uuids (setCanSend jid c now)"
  unfolding setCanSend_def immediateTransaction_def
  by (intro part_keep.keeps_rules same_uuids_update_jobs)
    (auto simp: cancelled_row_def update_destinations_def Let_def keeps_def after_def same_part_def)

lemma same_uuids_paused: "keeps same_uuids (isGloballyPaused env)"
  by (simp add: keeps_def same_part_def)

lemma same_uuids_answers:
  "keeps same_uuids (settle env job r)" "keeps same_uuids (wait_for_retry env job e)"
  "keeps same_uuids (pause_for_auth env job e)" "keeps same_uuids (fail_job env job e)"
  unfolding settle_def wait_for_retry_def pause_for_auth_def fail_job_def Let_def audit_add_def
    immediateTransaction_def
  by (intro part_keep.keeps_rules same_uuids_transition same_uuids_state_set same_uuids_audit
      same_uuids_setCanSend)+

lemma well_others:
  assumes "\<And>s. well_formed s \<Longrightarrow> well_formed (f s)"
  shows "keeps stays_well (on_fst (writeE f))"
  by (rule keeps_on_fst) (simp add: keeps_def inv_rel_def after_def assms)

lemma well_handleError: "keeps stays_well (handleError env job e)"
  unfolding handleError_def
  by (cases "rdAction (decision_for env job e)")
    (simp_all, (intro well_world.keeps_bind keeps_well keeps_well_snd keeps_intro
      same_uuids_answers)+)

lemma well_send_stage: "others_fair env \<Longrightarrow> keeps stays_well (send_stage env job)"
  unfolding send_stage_def
  by (intro well_world.keeps_rules)
    (auto simp: others_fairD split: sum.split
      intro!: well_world.keeps_rules keeps_well_snd well_others)

lemma well_attempt: "others_fair env \<Longrightarrow> keeps stays_well (attempt env job)"
  unfolding attempt_def
  by (intro well_world.keeps_finally well_world.keeps_rules well_send_stage well_handleError
      keeps_well sound_settle same_uuids_answers)
    (auto simp: on_first_def inv_rel_def)

lemma well_after_pace: "others_fair env \<Longrightarrow> keeps stays_well (after_pace env job go)"
  unfolding after_pace_def
  by (auto split: option.split bool.split
      intro!: well_world.keeps_rules keeps_well keeps_well_snd sound_transition
        same_uuids_transition well_attempt)

lemma well_processOnce: "others_fair env \<Longrightarrow> keeps stays_well (processOnce env r)"
  unfolding processOnce_def
  by (intro well_world.keeps_rules well_after_pace keeps_well sound_isGloballyPaused
      same_uuids_paused sound_claim_stage same_uuids_claim_stage well_others)
    (rule others_fairD)

lemma well_between: "others_fair env \<Longrightarrow> keeps stays_well (between env)"
  unfolding between_def
  by (rule well_world.keeps_write) (auto simp: others_fairD on_first_def inv_rel_def)

lemma work_sends:
  assumes "\<forall>env \<in> set envs. others_fair env" and "well_formed s"
    and "work envs (s, w) = (r, (t, w'))"
  shows "\<exists>evs. wkSent w' = wkSent w @ evs \<and> length evs \<le> length envs \<and>
    (\<forall>ev \<in> set evs. \<exists>env \<in> set envs. \<exists>u. well_formed u \<and> safe_send env u ev) \<and>
    (wkStopping w \<longrightarrow> evs = [])"
  using assms
proof (induction envs arbitrary: s w)
  case Nil
  then show ?case by (simp add: work.simps split: if_splits)
next
  case (Cons env envs)
  show ?case
  proof (cases "wkStopping w")
    case True
    with Cons.prems(3) show ?thesis by (simp add: work.simps)
  next
    case False
    obtain r1 s1 w1 where p: "processOnce env None (s, w) = (r1, (s1, w1))" by (metis prod_cases3)
    have "stays_well (s, w) (s1, w1)"
      using keepsD [OF well_processOnce] Cons.prems(1) p by (metis after_def list.set_intros(1) snd_conv)
    then have well1: "well_formed s1" using Cons.prems(2) by (simp add: on_first_def inv_rel_def)
    have "db_ok s" "uuids_dashed s" using Cons.prems(2) by (simp_all add: well_formed_def)
    from processOnce_trace [OF this p] obtain ev1 where
      ev1: "wkSent w1 = wkSent w @ ev1" "length ev1 \<le> 1" "\<forall>ev \<in> set ev1. safe_send env s ev"
      by (elim disjE exE conjE) (force, auto)
    show ?thesis
    proof (cases "\<exists>b. r1 = Inr (Some b)")
      case False
      with Cons.prems(3) p \<open>\<not> wkStopping w\<close> have "w' = w1"
        by (auto simp: work.simps [of "env # envs"] run_bind split: sum.splits option.splits)
      with ev1 Cons.prems(2) show ?thesis using \<open>\<not> wkStopping w\<close>
        by (intro exI [of _ ev1]) auto
    next
      case True
      let ?w2 = "if weStopBetween env then requestStop w1 else w1"
      have next_work: "work envs (weBetween env s1, ?w2) = (r, (t, w'))"
        using True Cons.prems(3) p \<open>\<not> wkStopping w\<close>
        by (auto simp: work.simps [of "env # envs"] run_bind between_def)
      have "well_formed (weBetween env s1)"
        using Cons.prems(1) well1 by (intro others_fairD) simp_all
      from Cons.IH [OF _ this next_work] Cons.prems(1) obtain evs where
        evs: "wkSent w' = wkSent ?w2 @ evs" "length evs \<le> length envs"
        "\<forall>ev \<in> set evs. \<exists>env \<in> set envs. \<exists>u. well_formed u \<and> safe_send env u ev" by auto
      have "wkSent ?w2 = wkSent w1" by (simp add: requestStop_def)
      with ev1 evs Cons.prems(2) \<open>\<not> wkStopping w\<close> show ?thesis
        by (intro exI [of _ "ev1 @ evs"]) auto
    qed
  qed
qed


section \<open>The worker on the sample database\<close>

definition sample_worker_env :: "error + send_result \<Rightarrow> worker_env" where
  "sample_worker_env answer =
     \<lparr>weTransport = \<lparr>trName = ''live'', trSend = (\<lambda>_ _. answer)\<rparr>, weConfig = sample_config,
      weFileExists = (\<lambda>_. True), weParse = parse_iso, weRandom = 1 / 2,
      weClock = (\<lambda>_. 1770000000000), weTicks = [(False, 1770000004000), (False, 1770000009000)],
      weDuringPace = id, weDuringSend = id, weBetween = id, weStopBetween = False\<rparr>"

definition idle_worker :: worker where
  "idle_worker = \<lparr>wkStopping = False, wkRunning = False, wkLastSend = 0, wkSent = []\<rparr>"

definition sample_answer :: "error + send_result" where
  "sample_answer = Inr \<lparr>srRemoteMessageId = Some ''m1'', srDryRun = False\<rparr>"

definition sample_limit :: delivery_error where
  "sample_limit = \<lparr>errorClass = RATE_LIMITED, safeMessage = ''slow down'', retryAfterMs = Some 60000\<rparr>"

definition sample_claimed :: queue_job where
  "sample_claimed = (sample_job 2 ''b-2'' ''1@g.us'' ''k2'' PENDING None False)
     \<lparr>jStatus := PROCESSING, jAttemptCount := 1, jStartedAt := Some ''2026-02-02T02:40:00.000Z'',
      jUpdatedAt := ''2026-02-02T02:40:00.000Z''\<rparr>"

lemma sample_others:
  "spares_claimed (weDuringPace (sample_worker_env a))"
  "spares_claimed (weDuringSend (sample_worker_env a))"
  "others_fair (sample_worker_env a)" "others_sound (sample_worker_env a)"
  by (simp_all add: sample_worker_env_def spares_claimed_def others_fair_def others_sound_def
      soundness.refl)

lemma sample_well_formed: "well_formed sample_db"
  by (simp add: well_formed_def sample_db_ok sample_db_dashed)

theorem round_settles_job_witness:
  "\<exists>t w' options.
     processOnce (sample_worker_env sample_answer) None (sample_db, idle_worker) =
       (Inr (Some True), (t, w')) \<and>
     moved_row SENT options ''2026-02-02T02:40:00.000Z'' sample_claimed \<in> set (dbJobs t)"
proof -
  let ?env = "sample_worker_env sample_answer"
  let ?s = "after (isGloballyPaused ?env) sample_db"
  let ?u = "snd (claim_stage ?env None ?s)"
  have p: "fst (isGloballyPaused ?env sample_db) = Inr False"
    and c: "fst (claim_stage ?env None ?s) = Inr (Some sample_claimed)"
    and g: "pace ?env idle_worker = Some True"
    and f: "final_status ?env sample_claimed True (weDuringPace ?env ?u) = SENT"
    and n: "now_at ?env AtMove = ''2026-02-02T02:40:00.000Z''"
    by code_simp+
  from c have "claim_stage ?env None ?s = (Inr (Some sample_claimed), ?u)" by (metis prod.collapse)
  from round_settles_job [OF sample_db_ok sample_db_dashed sample_others(1,2) p this g]
  show ?thesis unfolding f n by blast
qed

theorem rate_limit_pauses_witness:
  "\<exists>t w'. handleError (sample_worker_env sample_answer) sample_claimed sample_limit
        (snd (claim ''2026-02-02'' None False sample_db), idle_worker) = (Inr (), (t, w')) \<and>
     processOnce (sample_worker_env sample_answer) None (t, idle_worker) =
       (Inr (Some False), (t, idle_worker))"
proof -
  let ?env = "sample_worker_env sample_answer"
  let ?s = "snd (claim ''2026-02-02'' None False sample_db)"
  let ?h = "handleError ?env sample_claimed sample_limit (?s, idle_worker)"
  have "fst ?h = Inr ()" by code_simp
  then have h: "?h = (Inr (), (fst (snd ?h), snd (snd ?h)))" by (metis prod.collapse)
  have d: "rdAction (decision_for ?env sample_claimed sample_limit) = RateLimit"
    and n: "next_time ?env sample_claimed sample_limit = 1770000060000"
    and c: "weClock ?env AtPause = 1770000000000"
    and l: "live ?env"
    by code_simp+
  have "reads_iso (weParse ?env)" by (simp add: sample_worker_env_def parse_iso_reads)
  moreover have "four_digit_time (next_time ?env sample_claimed sample_limit)"
    by (simp add: n four_digit_time_def)
  ultimately have "processOnce ?env None (fst (snd ?h), idle_worker) =
      (Inr (Some False), (fst (snd ?h), idle_worker))"
    using rate_limit_pauses [OF d h l] by (simp add: n c)
  with h show ?thesis by blast
qed


theorem pace_keeps_distance_witness:
  "pace (sample_worker_env sample_answer) (idle_worker\<lparr>wkLastSend := 1769999999000\<rparr>) = Some True \<and>
   (\<exists>now \<in> insert 1770000000000 (snd ` {(False, 1770000004000 :: int), (False, 1770000009000)}).
      8000 \<le> now - 1769999999000)"
proof -
  let ?env = "sample_worker_env sample_answer" and ?w = "idle_worker\<lparr>wkLastSend := 1769999999000\<rparr>"
  have p: "pace ?env ?w = Some True" by code_simp
  have "0 < cfgSendIntervalMs (weConfig ?env)" "wkLastSend ?w \<noteq> 0"
    "weClock ?env AtPaceStart \<le> weClock ?env AtDeadline"
    by (simp_all add: sample_worker_env_def sample_config_def)
  from pace_keeps_distance [OF this] p show ?thesis
    by (auto simp: sample_worker_env_def sample_config_def)
qed


end
