(* ===== verification/ChatText.thy ===== *)
theory ChatText
  imports Prelude
begin

text \<open>
  How the chat commands are taken apart: the regular expressions of
  \<open>src/src/whatsapp/bulk-controller-commands.ts\<close>, \<open>group-set-commands.ts\<close> and the splitting of
  \<open>controller-commands.ts\<close>, as the matches they find.
\<close>

section \<open>Words and heads\<close>

fun split_space :: "string \<Rightarrow> string list" where
  "split_space [] = [[]]"
| "split_space (x # xs) =
     (if js_space x then [] # split_space xs
      else case split_space xs of [] \<Rightarrow> [[x]] | y # ys \<Rightarrow> (x # y) # ys)"

text \<open>\<open>split(/\s+/)\<close>, without the empty pieces.\<close>

definition js_words :: "string \<Rightarrow> string list" where
  "js_words s = filter (\<lambda>w. w \<noteq> []) (split_space s)"

text \<open>What follows \<open>^HEAD\s\<close>, read without regard to case: it starts with white space.\<close>

definition after_head :: "string \<Rightarrow> string \<Rightarrow> string option" where
  "after_head head command =
     (if js_lower (take (length head) command) = head then
        (case drop (length head) command of
           [] \<Rightarrow> None
         | x # xs \<Rightarrow> if js_space x then Some (x # xs) else None)
      else None)"

definition not_empty :: "string \<Rightarrow> string option" where
  "not_empty s = (if s = [] then None else Some s)"

text \<open>\<open>^HEAD\s+([\s\S]+)$\<close>, trimmed.\<close>

definition messageAfter :: "string \<Rightarrow> string \<Rightarrow> string option" where
  "messageAfter command head =
     (case after_head head command of None \<Rightarrow> None | Some r \<Rightarrow> not_empty (js_trim r))"

text \<open>\<open>^HEAD\s+(\S+)\s+([\s\S]+)$\<close>, the message trimmed.\<close>

definition namedMessage :: "string \<Rightarrow> string \<Rightarrow> (string \<times> string) option" where
  "namedMessage command head =
     (case after_head head command of
        None \<Rightarrow> None
      | Some r \<Rightarrow>
          (let body = dropWhile js_space r;
               name = takeWhile (\<lambda>c. \<not> js_space c) body;
               message = js_trim (dropWhile (\<lambda>c. \<not> js_space c) body)
           in if name = [] \<or> message = [] then None else Some (name, message)))"

text \<open>
  \<open>([^\s,]+(?:\s*,\s*[^\s,]+)*)\s+([\s\S]+)$\<close>: the longest list of targets after which white space
  and one more character follow.
\<close>

definition target_char :: "char \<Rightarrow> bool" where
  "target_char c \<longleftrightarrow> \<not> js_space c \<and> c \<noteq> CHR '',''"

definition message_follows :: "string \<Rightarrow> bool" where
  "message_follows r = (case r of x # y # _ \<Rightarrow> js_space x | _ \<Rightarrow> False)"

function multi_match :: "string \<Rightarrow> (string list \<times> string) option" where
  "multi_match s =
     (let item = takeWhile target_char s; r = dropWhile target_char s in
      if item = [] then None
      else case (case dropWhile js_space r of
                   [] \<Rightarrow> None
                 | c # t \<Rightarrow> if c = CHR '','' then multi_match (dropWhile js_space t) else None) of
          Some (items, rest) \<Rightarrow> Some (item # items, rest)
        | None \<Rightarrow> if message_follows r then Some ([item], r) else None)"
  by pat_completeness auto
termination
proof (relation "measure length")
  fix s item r :: string and c t
  assume a: "item = takeWhile target_char s" "r = dropWhile target_char s" "item \<noteq> []"
    "dropWhile js_space r = c # t"
  have "length (dropWhile js_space t) \<le> length t" by (rule length_dropWhile_le)
  also have "\<dots> < length (dropWhile js_space r)" by (simp add: a(4))
  also have "\<dots> \<le> length r" by (rule length_dropWhile_le)
  also have "\<dots> \<le> length s" unfolding a(2) by (rule length_dropWhile_le)
  finally show "(dropWhile js_space t, s) \<in> measure length" by simp
qed simp

declare multi_match.simps [simp del]

definition multiMessage :: "string \<Rightarrow> (string list \<times> string) option" where
  "multiMessage command =
     (case after_head ''/sendmulti'' command of
        None \<Rightarrow> None
      | Some r \<Rightarrow>
          (case multi_match (dropWhile js_space r) of
             None \<Rightarrow> None
           | Some (targets, rest) \<Rightarrow>
               if js_trim rest = [] then None else Some (targets, js_trim rest)))"

section \<open>The text of the group-set commands\<close>

record groupset_command =
  gcAction :: string
  gcName :: "string option"
  gcTargets :: "string list"

text \<open>\<open>^/groupset(?:\s+([\s\S]+))?$\<close>, then the words.\<close>

definition groupset_arguments :: "string \<Rightarrow> string" where
  "groupset_arguments command =
     (case after_head ''/groupset'' command of None \<Rightarrow> [] | Some r \<Rightarrow> js_trim r)"

definition split_targets :: "string list \<Rightarrow> string list" where
  "split_targets parts =
     filter (\<lambda>t. t \<noteq> []) (map js_trim (concat (map (js_split (CHR '','')) parts)))"

definition parse_groupset :: "string \<Rightarrow> groupset_command" where
  "parse_groupset command =
     (case js_words (groupset_arguments command) of
        [] \<Rightarrow> \<lparr>gcAction = [], gcName = None, gcTargets = []\<rparr>
      | [action] \<Rightarrow> \<lparr>gcAction = js_lower action, gcName = None, gcTargets = []\<rparr>
      | action # name # parts \<Rightarrow>
          \<lparr>gcAction = js_lower action, gcName = Some name, gcTargets = split_targets parts\<rparr>)"

section \<open>Reading back what an operator writes\<close>

definition target_word :: "string \<Rightarrow> bool" where
  "target_word t \<longleftrightarrow> t \<noteq> [] \<and> (\<forall>c \<in> set t. target_char c)"

fun join_targets :: "string list \<Rightarrow> string" where
  "join_targets [] = []"
| "join_targets [t] = t"
| "join_targets (t # ts) = t @ '','' @ join_targets ts"

lemma take_target_word:
  assumes "target_word t" and "\<not> target_char x"
  shows "takeWhile target_char (t @ x # r) = t" "dropWhile target_char (t @ x # r) = x # r"
proof -
  have "\<forall>c \<in> set t. target_char c" using assms(1) by (simp add: target_word_def)
  then show "takeWhile target_char (t @ x # r) = t" "dropWhile target_char (t @ x # r) = x # r"
    using assms(2) by (induction t) auto
qed

lemma not_target_char [simp]: "\<not> target_char (CHR '' '')" "\<not> target_char (CHR '','')"
  "js_space (CHR '' '')" "\<not> js_space (CHR '','')"
  by (simp_all add: target_char_def js_space_def)

lemma target_char_start:
  assumes "target_word t"
  obtains c cs where "t = c # cs" "\<not> js_space c" "c \<noteq> CHR '',''"
  using assms by (cases t) (auto simp: target_word_def target_char_def)

lemma join_targets_start:
  assumes "ts \<noteq> []" and "\<forall>t \<in> set ts. target_word t"
  obtains c cs where "join_targets ts = c # cs" "\<not> js_space c"
proof -
  obtain t us where ts: "ts = t # us" using assms(1) by (cases ts) auto
  with assms(2) obtain c cs where "t = c # cs" "\<not> js_space c"
    by (metis target_char_start list.set_intros(1))
  with ts that show thesis by (cases us) auto
qed

lemma dropWhile_join:
  assumes "ts \<noteq> []" and "\<forall>t \<in> set ts. target_word t"
  shows "dropWhile js_space (join_targets ts @ r) = join_targets ts @ r"
  using assms by (metis append_Cons dropWhile.simps(2) join_targets_start)

lemma multi_match_join:
  assumes "ts \<noteq> []" and "\<forall>t \<in> set ts. target_word t"
    and "m \<noteq> []" and "\<not> js_space (hd m)" and "hd m \<noteq> CHR '',''"
  shows "multi_match (join_targets ts @ '' '' @ m) = Some (ts, '' '' @ m)"
  using assms(1,2)
proof (induction ts rule: join_targets.induct)
  case (2 t)
  obtain x y where m: "m = x # y" using assms(3) by (cases m) auto
  have w: "target_word t" using 2 by simp
  have "t \<noteq> []" using w by (simp add: target_word_def)
  then show ?case
    using assms(4,5)
    by (simp add: multi_match.simps [of "t @ _"] take_target_word [OF w] m message_follows_def)
next
  case (3 t u us)
  have w: "target_word t" and ws: "\<forall>x \<in> set (u # us). target_word x" using "3.prems" by auto
  have "t \<noteq> []" using w by (simp add: target_word_def)
  moreover have "multi_match (join_targets (u # us) @ '' '' @ m) = Some (u # us, '' '' @ m)"
    using "3.IH" ws by simp
  moreover note dropWhile_join [OF _ ws, of "'' '' @ m"]
  ultimately show ?case
    by (simp add: multi_match.simps [of "t @ _"] take_target_word [OF w])
qed simp

lemma js_trim_leading: "js_space x \<Longrightarrow> js_trim (x # m) = js_trim m"
  by (simp add: js_trim_def)

lemma js_trim_idem_hd: "js_trim m = m \<Longrightarrow> m \<noteq> [] \<Longrightarrow> \<not> js_space (hd m)"
proof -
  assume m: "js_trim m = m" "m \<noteq> []"
  have "length (dropWhile js_space (rev (dropWhile js_space m))) \<le> length (dropWhile js_space m)"
    by (metis length_dropWhile_le length_rev)
  then have "length m \<le> length (dropWhile js_space m)"
    using m(1) by (simp add: js_trim_def) (metis length_rev)
  with m(2) show "\<not> js_space (hd m)"
    by (cases m) (use length_dropWhile_le [of js_space "tl m"] in auto)
qed

text \<open>
  C40.  What an operator types for a multi-send is read back: the targets in their order, separated
  by commas, and the message as written.  The message must not begin with a comma, which the
  expression would take for one more target.
\<close>

theorem multiMessage_roundtrip:
  assumes "ts \<noteq> []" and "\<forall>t \<in> set ts. target_word t"
    and "js_trim m = m" and "m \<noteq> []" and "hd m \<noteq> CHR '',''"
  shows "multiMessage (''/sendmulti '' @ join_targets ts @ '' '' @ m) = Some (ts, m)"
proof -
  have h: "\<not> js_space (hd m)" using assms(3,4) by (rule js_trim_idem_hd)
  have "after_head ''/sendmulti'' (''/sendmulti '' @ join_targets ts @ '' '' @ m) =
      Some ('' '' @ join_targets ts @ '' '' @ m)"
    by (simp add: after_head_def js_lower_def js_lower_char_def)
  moreover have "dropWhile js_space ('' '' @ join_targets ts @ '' '' @ m) = join_targets ts @ '' '' @ m"
    using dropWhile_join [OF assms(1,2), of "'' '' @ m"] by simp
  moreover note multi_match_join [OF assms(1,2,4) h assms(5)]
  ultimately show ?thesis
    using assms(3,4) js_trim_leading [of "CHR '' ''" m] by (simp add: multiMessage_def)
qed

theorem multiMessage_roundtrip_witness:
  "multiMessage ''/sendmulti ops,120@g.us hello, all'' = Some ([''ops'', ''120@g.us''], ''hello, all'') \<and>
   multiMessage ''/SendMulti a , b ,c hi'' = Some ([''a'', ''b'', ''c''], ''hi'') \<and>
   multiMessage ''/sendmulti a , b'' = Some ([''a''], '', b'') \<and>
   multiMessage ''/sendmulti a,b'' = None"
proof (intro conjI)
  have "\<forall>t \<in> set [''ops'', ''120@g.us'']. target_word t" "js_trim ''hello, all'' = ''hello, all''"
    by code_simp+
  from multiMessage_roundtrip [OF _ this]
  show "multiMessage ''/sendmulti ops,120@g.us hello, all'' = Some ([''ops'', ''120@g.us''], ''hello, all'')"
    by simp
qed code_simp+

end
