(* ===== verification/Targets.thy ===== *)
theory Targets
  imports DestinationRepo "HOL-Library.Multiset"
begin

text \<open>
  Naming destinations: JIDs (\<open>src/src/whatsapp/jid.ts\<close>), the resolution of an operator's targets
  and the snapshot of the allowed groups (\<open>target-resolver.ts\<close>), and the refresh of the groups
  from the socket (\<open>group-service.ts\<close>).  The library's decoding and encoding of a JID are an
  argument; what is used of them is \<open>codec_ok\<close>.
\<close>

section \<open>JIDs\<close>

record jid_codec =
  jcDecode :: "string \<Rightarrow> (string \<times> string) option"
  jcEncode :: "string \<Rightarrow> string \<Rightarrow> string"

definition allowed_servers :: "string list" where
  "allowed_servers = [''s.whatsapp.net'', ''g.us'', ''lid'', ''broadcast'', ''newsletter'']"

definition normalizeJid :: "jid_codec \<Rightarrow> string \<Rightarrow> error + string" where
  "normalizeJid c v =
     (case jcDecode c (js_trim v) of
        None \<Rightarrow> Inl (PlainError (''Invalid WhatsApp JID: '' @ v))
      | Some (user, server) \<Rightarrow>
          if user = [] \<or> server = [] then Inl (PlainError (''Invalid WhatsApp JID: '' @ v))
          else if js_lower server \<notin> set allowed_servers \<and> CHR ''.'' \<notin> set (js_lower server)
          then Inl (PlainError (''Unsupported WhatsApp JID server: '' @ js_lower server))
          else Inr (jcEncode c user server))"

definition server_of :: "jid_codec \<Rightarrow> string \<Rightarrow> string option" where
  "server_of c v =
     (case normalizeJid c v of Inl _ \<Rightarrow> None | Inr j \<Rightarrow> map_option snd (jcDecode c j))"

definition isGroupJid :: "jid_codec \<Rightarrow> string \<Rightarrow> bool" where
  "isGroupJid c v \<longleftrightarrow> server_of c v = Some ''g.us''"

definition isUserJid :: "jid_codec \<Rightarrow> string \<Rightarrow> bool" where
  "isUserJid c v \<longleftrightarrow> server_of c v = Some ''s.whatsapp.net'' \<or> server_of c v = Some ''lid''"

definition sameJid :: "jid_codec \<Rightarrow> string option \<Rightarrow> string option \<Rightarrow> bool" where
  "sameJid c left right \<longleftrightarrow>
     (case (left, right) of
        (Some l, Some r) \<Rightarrow>
          l \<noteq> [] \<and> r \<noteq> [] \<and>
          (case (normalizeJid c l, normalizeJid c r) of (Inr a, Inr b) \<Rightarrow> a = b | _ \<Rightarrow> False)
      | _ \<Rightarrow> False)"

text \<open>What the encoder prints is read back as the user and the server it was given.\<close>

definition codec_ok :: "jid_codec \<Rightarrow> bool" where
  "codec_ok c \<longleftrightarrow>
     (\<forall>v user server. jcDecode c (js_trim v) = Some (user, server) \<longrightarrow> user \<noteq> [] \<longrightarrow> server \<noteq> [] \<longrightarrow>
        js_trim (jcEncode c user server) = jcEncode c user server \<and>
        jcEncode c user server \<noteq> [] \<and>
        jcDecode c (jcEncode c user server) = Some (user, server))"

section \<open>Targets\<close>

datatype target_issue_reason = NotFound | InvalidJid | NotAGroup | Disabled | NotSendable

record target_issue =
  tiInput :: string
  tiReason :: target_issue_reason

record targets =
  tgDestinations :: "destination list"
  tgIssues :: "target_issue list"
  tgDuplicates :: nat
  tgSeen :: "string list"

definition no_targets :: targets where
  "no_targets = \<lparr>tgDestinations = [], tgIssues = [], tgDuplicates = 0, tgSeen = []\<rparr>"

definition find_target ::
    "jid_codec \<Rightarrow> database \<Rightarrow> string \<Rightarrow> target_issue_reason + destination option" where
  "find_target c s input =
     (if CHR ''@'' \<in> set input
      then case normalizeJid c input of
          Inl _ \<Rightarrow> Inl InvalidJid
        | Inr jid \<Rightarrow> if \<not> isGroupJid c jid then Inl NotAGroup else Inr (resolve jid s)
      else Inr (resolve input s))"

definition check_target ::
    "jid_codec \<Rightarrow> database \<Rightarrow> bool \<Rightarrow> string \<Rightarrow> target_issue_reason + destination" where
  "check_target c s requireAllowed input =
     (case find_target c s input of
        Inl r \<Rightarrow> Inl r
      | Inr None \<Rightarrow> Inl NotFound
      | Inr (Some d) \<Rightarrow>
          if \<not> isGroupJid c (dJid d) then Inl NotAGroup
          else if requireAllowed \<and> \<not> dEnabled d then Inl Disabled
          else if requireAllowed \<and> \<not> dCanSend d then Inl NotSendable
          else Inr d)"

fun resolve_loop ::
    "jid_codec \<Rightarrow> database \<Rightarrow> bool \<Rightarrow> string list \<Rightarrow> targets \<Rightarrow> error + targets" where
  "resolve_loop c s req [] st = Inr st"
| "resolve_loop c s req (raw # rest) st =
     (let input = js_trim raw in
      if input = [] then resolve_loop c s req rest st
      else case check_target c s req input of
          Inl reason \<Rightarrow> resolve_loop c s req rest
            (st\<lparr>tgIssues := tgIssues st @ [\<lparr>tiInput = input, tiReason = reason\<rparr>]\<rparr>)
        | Inr d \<Rightarrow>
            (case normalizeJid c (dJid d) of
               Inl e \<Rightarrow> Inl e
             | Inr jid \<Rightarrow>
                 if jid \<in> set (tgSeen st)
                 then resolve_loop c s req rest (st\<lparr>tgDuplicates := tgDuplicates st + 1\<rparr>)
                 else resolve_loop c s req rest
                   (st\<lparr>tgSeen := jid # tgSeen st, tgDestinations := tgDestinations st @ [d]\<rparr>)))"

definition resolveTargets ::
    "jid_codec \<Rightarrow> string list \<Rightarrow> bool \<Rightarrow> database \<Rightarrow> error + targets" where
  "resolveTargets c inputs requireAllowed s = resolve_loop c s requireAllowed inputs no_targets"

record allowed_snapshot =
  asDestinations :: "destination list"
  asRequested :: nat
  asSkipped :: nat
  asDuplicates :: nat

definition eligible :: "destination \<Rightarrow> bool" where
  "eligible d \<longleftrightarrow> dEnabled d \<and> dCanSend d"

definition snapshotAllowed :: "jid_codec \<Rightarrow> database \<Rightarrow> error + allowed_snapshot" where
  "snapshotAllowed c s =
     (let known = list_destinations False s; el = filter eligible known in
      case resolveTargets c (map dJid el) True s of
        Inl e \<Rightarrow> Inl e
      | Inr r \<Rightarrow> Inr
          \<lparr>asDestinations = tgDestinations r, asRequested = length known,
           asSkipped = length known - length el + length (tgIssues r),
           asDuplicates = tgDuplicates r\<rparr>)"

section \<open>The refresh of the groups\<close>

record participant =
  paId :: "string option"
  paLid :: "string option"
  paPhone :: "string option"
  paAdmin :: "string option"

record group_metadata =
  gmtId :: string
  gmtSubject :: string
  gmtDesc :: "string option"
  gmtOwner :: "string option"
  gmtSize :: "int option"
  gmtParticipants :: "participant list"
  gmtMode :: "string option"
  gmtAnnounce :: bool

record group_socket =
  gsoUserId :: "string option"
  gsoUserLid :: "string option"
  gsoGroups :: "error + group_metadata list"

fun each :: "('a \<Rightarrow> 'e + 'b) \<Rightarrow> 'a list \<Rightarrow> 'e + 'b list" where
  "each f [] = Inr []"
| "each f (x # xs) =
     (case f x of
        Inl e \<Rightarrow> Inl e
      | Inr y \<Rightarrow> (case each f xs of Inl e \<Rightarrow> Inl e | Inr ys \<Rightarrow> Inr (y # ys)))"

definition present :: "string option \<Rightarrow> bool" where
  "present x \<longleftrightarrow> (case x of None \<Rightarrow> False | Some v \<Rightarrow> v \<noteq> [])"

definition own_jids :: "group_socket \<Rightarrow> string option list" where
  "own_jids socket = filter present [gsoUserId socket, gsoUserLid socket]"

definition is_own :: "jid_codec \<Rightarrow> string option list \<Rightarrow> participant \<Rightarrow> bool" where
  "is_own c own p \<longleftrightarrow>
     list_ex (\<lambda>jid. list_ex (sameJid c jid) own) (filter present [paId p, paLid p, paPhone p])"

definition own_admin :: "jid_codec \<Rightarrow> string option list \<Rightarrow> group_metadata \<Rightarrow> bool" where
  "own_admin c own g \<longleftrightarrow>
     (case find_first (is_own c own) (gmtParticipants g) of
        None \<Rightarrow> False | Some p \<Rightarrow> paAdmin p \<noteq> None)"

definition discovered ::
    "jid_codec \<Rightarrow> string option list \<Rightarrow> group_metadata \<Rightarrow> error + discovered_destination" where
  "discovered c own g =
     (case normalizeJid c (gmtId g) of
        Inl e \<Rightarrow> Inl e
      | Inr jid \<Rightarrow>
          (case (if present (gmtOwner g)
                 then map_sum id Some (normalizeJid c (or_else (gmtOwner g) [])) else Inr None) of
             Inl e \<Rightarrow> Inl e
           | Inr owner \<Rightarrow> Inr
               \<lparr>ddJid = jid, ddSubject = gmtSubject g, ddDescription = gmtDesc g,
                ddOwnerJid = owner,
                ddParticipantCount = Some (or_else (gmtSize g) (int (length (gmtParticipants g)))),
                ddAddressingMode = gmtMode g,
                ddCanSend = Some (\<not> gmtAnnounce g \<or> own_admin c own g)\<rparr>))"

definition refresh ::
    "jid_codec \<Rightarrow> group_socket option \<Rightarrow> string \<Rightarrow> string \<Rightarrow> nat db_io" where
  "refresh c socket actor now =
     (case socket of
        None \<Rightarrow> throw (PlainError ''WhatsApp is not connected'')
      | Some so \<Rightarrow>
          (case gsoGroups so of
             Inl e \<Rightarrow> throw e
           | Inr groups \<Rightarrow>
               (case each (discovered c (own_jids so)) groups of
                  Inl e \<Rightarrow> throw e
                | Inr items \<Rightarrow> synchronize items actor now)))"

lemma sound_refresh [keeps_intro]: "keeps sound (refresh c socket actor now)"
  unfolding refresh_def by (auto split: option.split sum.split intro!: keeps_intro)

section \<open>Normal forms\<close>

lemma normalizeJid_InrE:
  assumes "normalizeJid c v = Inr j"
  obtains user server where "jcDecode c (js_trim v) = Some (user, server)" "user \<noteq> []" "server \<noteq> []"
    "j = jcEncode c user server"
    "js_lower server \<in> set allowed_servers \<or> CHR ''.'' \<in> set (js_lower server)"
  using assms by (auto simp: normalizeJid_def Let_def split: option.splits if_splits)

lemma normalizeJid_idem:
  assumes "codec_ok c" and "normalizeJid c v = Inr j"
  shows "normalizeJid c j = Inr j" and "j \<noteq> []" and "js_trim j = j"
proof -
  obtain user server where d: "jcDecode c (js_trim v) = Some (user, server)" "user \<noteq> []" "server \<noteq> []"
    "j = jcEncode c user server"
    "js_lower server \<in> set allowed_servers \<or> CHR ''.'' \<in> set (js_lower server)"
    using assms(2) by (rule normalizeJid_InrE)
  have "js_trim j = j \<and> j \<noteq> [] \<and> jcDecode c j = Some (user, server)"
    using assms(1) d(1-3) unfolding codec_ok_def d(4) by blast
  then show "normalizeJid c j = Inr j" and "j \<noteq> []" and "js_trim j = j"
    using d by (auto simp: normalizeJid_def)
qed

lemma isGroupJid_normal:
  "codec_ok c \<Longrightarrow> normalizeJid c v = Inr j \<Longrightarrow> isGroupJid c j = isGroupJid c v"
  by (simp add: isGroupJid_def server_of_def normalizeJid_idem(1))

lemma sameJid_iff:
  "sameJid c (Some l) (Some r) \<longleftrightarrow>
     l \<noteq> [] \<and> r \<noteq> [] \<and> (\<exists>j. normalizeJid c l = Inr j \<and> normalizeJid c r = Inr j)"
  by (auto simp: sameJid_def split: sum.splits)

text \<open>
  The normal form is a normal form: normalising it again changes nothing and it is the same
  JID as the text it came from; and \<open>sameJid\<close>, which decides who may give commands, is symmetric
  and transitive, so a device-qualified JID belongs to exactly one account.
\<close>

theorem normalizeJid_canonical:
  assumes "codec_ok c" and "normalizeJid c v = Inr j" and "v \<noteq> []"
  shows "normalizeJid c j = Inr j \<and> sameJid c (Some v) (Some j) \<and>
    (\<forall>x. sameJid c (Some v) x \<longleftrightarrow> sameJid c x (Some v)) \<and>
    (\<forall>x. sameJid c x (Some v) \<longleftrightarrow> sameJid c x (Some j))"
proof (intro conjI allI)
  note n = normalizeJid_idem [OF assms(1,2)]
  show "normalizeJid c j = Inr j" by (rule n)
  show "sameJid c (Some v) (Some j)" using assms n by (simp add: sameJid_iff)
  show "sameJid c (Some v) x \<longleftrightarrow> sameJid c x (Some v)" for x
    by (cases x) (auto simp: sameJid_def split: sum.splits)
  show "sameJid c x (Some v) \<longleftrightarrow> sameJid c x (Some j)" for x
    using assms n by (cases x) (auto simp: sameJid_iff sameJid_def)
qed

section \<open>Accounting of the targets\<close>

definition group_target :: "jid_codec \<Rightarrow> database \<Rightarrow> bool \<Rightarrow> destination \<Rightarrow> bool" where
  "group_target c s req d \<longleftrightarrow>
     d \<in> set (dbDestinations s) \<and> isGroupJid c (dJid d) \<and> (req \<longrightarrow> eligible d)"

lemma check_target_InrD: "check_target c s req input = Inr d \<Longrightarrow> group_target c s req d"
  by (auto simp: check_target_def find_target_def group_target_def eligible_def
      dest: resolve_SomeD split: sum.splits option.splits if_splits)

lemma isGroupJid_normalizes: "isGroupJid c v \<Longrightarrow> \<exists>j. normalizeJid c v = Inr j"
  by (auto simp: isGroupJid_def server_of_def split: sum.splits)

definition targets_ok :: "jid_codec \<Rightarrow> database \<Rightarrow> bool \<Rightarrow> targets \<Rightarrow> bool" where
  "targets_ok c s req st \<longleftrightarrow>
     (\<forall>d \<in> set (tgDestinations st). group_target c s req d) \<and>
     map (normalizeJid c \<circ> dJid) (tgDestinations st) = map Inr (rev (tgSeen st)) \<and>
     distinct (tgSeen st)"

definition requested_targets :: "string list \<Rightarrow> string list" where
  "requested_targets inputs = filter (\<lambda>x. x \<noteq> []) (map js_trim inputs)"

definition settled_targets :: "targets \<Rightarrow> nat" where
  "settled_targets st = length (tgDestinations st) + length (tgIssues st) + tgDuplicates st"

lemma resolve_loop_accounts:
  assumes "targets_ok c s req st"
  shows "\<exists>st'. resolve_loop c s req inputs st = Inr st' \<and> targets_ok c s req st' \<and>
    settled_targets st' = settled_targets st + length (requested_targets inputs) \<and>
    map tiInput (tgIssues st') = map tiInput (tgIssues st) @
      filter (\<lambda>x. \<exists>r. check_target c s req x = Inl r) (requested_targets inputs)"
  using assms
proof (induction inputs arbitrary: st)
  case Nil
  then show ?case by (simp add: requested_targets_def)
next
  case (Cons raw rest)
  let ?input = "js_trim raw"
  show ?case
  proof (cases "?input = []")
    case True
    with Cons.IH [OF Cons.prems] show ?thesis by (simp add: requested_targets_def)
  next
    case False
    show ?thesis
    proof (cases "check_target c s req ?input")
      case (Inl reason)
      let ?st = "st\<lparr>tgIssues := tgIssues st @ [\<lparr>tiInput = ?input, tiReason = reason\<rparr>]\<rparr>"
      have "targets_ok c s req ?st" using Cons.prems by (simp add: targets_ok_def)
      from Cons.IH [OF this] False Inl show ?thesis
        by (simp add: requested_targets_def settled_targets_def Let_def)
    next
      case (Inr d)
      have d: "group_target c s req d" by (rule check_target_InrD [OF Inr])
      then obtain jid where j: "normalizeJid c (dJid d) = Inr jid"
        using isGroupJid_normalizes by (auto simp: group_target_def)
      let ?dup = "st\<lparr>tgDuplicates := tgDuplicates st + 1\<rparr>"
      let ?new = "st\<lparr>tgSeen := jid # tgSeen st, tgDestinations := tgDestinations st @ [d]\<rparr>"
      have "targets_ok c s req ?dup" using Cons.prems by (simp add: targets_ok_def)
      note dup = Cons.IH [OF this]
      have "jid \<notin> set (tgSeen st) \<Longrightarrow> targets_ok c s req ?new"
        using Cons.prems d j by (auto simp: targets_ok_def)
      note new = Cons.IH [OF this]
      from dup new False Inr j show ?thesis
        by (cases "jid \<in> set (tgSeen st)")
          (simp_all add: requested_targets_def settled_targets_def Let_def)
    qed
  qed
qed

lemma resolveTargets_result:
  "\<exists>r. resolveTargets c inputs req s = Inr r \<and>
    length (requested_targets inputs) =
      length (tgDestinations r) + length (tgIssues r) + tgDuplicates r \<and>
    (\<forall>d \<in> set (tgDestinations r). group_target c s req d) \<and>
    distinct (map (normalizeJid c \<circ> dJid) (tgDestinations r)) \<and>
    map tiInput (tgIssues r) =
      filter (\<lambda>x. \<exists>e. check_target c s req x = Inl e) (requested_targets inputs)"
proof -
  have "targets_ok c s req no_targets" by (simp add: targets_ok_def no_targets_def)
  from resolve_loop_accounts [OF this, of inputs] obtain r where
    r: "resolveTargets c inputs req s = Inr r" "targets_ok c s req r"
      "settled_targets r = settled_targets no_targets + length (requested_targets inputs)"
      "map tiInput (tgIssues r) = map tiInput (tgIssues no_targets) @
        filter (\<lambda>x. \<exists>e. check_target c s req x = Inl e) (requested_targets inputs)"
    by (auto simp: resolveTargets_def)
  have "distinct (map (normalizeJid c \<circ> dJid) (tgDestinations r))"
    using r(2) by (simp add: targets_ok_def distinct_map)
  with r show ?thesis
    by (intro exI [of _ r]) (simp add: settled_targets_def no_targets_def targets_ok_def)
qed

text \<open>
  Every target an operator names is accounted for once: it is one of the destinations, an
  issue or a duplicate.  The destinations are known groups, no two with the same normal JID, and
  under \<open>requireAllowed\<close> each is enabled and sendable; the issues are exactly the inputs that
  name no such group, in their order.
\<close>

theorem resolveTargets_accounts:
  "\<exists>r. resolveTargets c inputs req s = Inr r \<and>
    length (requested_targets inputs) =
      length (tgDestinations r) + length (tgIssues r) + tgDuplicates r \<and>
    (\<forall>d \<in> set (tgDestinations r). group_target c s req d) \<and>
    distinct (map (normalizeJid c \<circ> dJid) (tgDestinations r)) \<and>
    map tiInput (tgIssues r) =
      filter (\<lambda>x. \<exists>e. check_target c s req x = Inl e) (requested_targets inputs)"
  by (rule resolveTargets_result)

section \<open>The snapshot\<close>

text \<open>Destinations are stored under the normal form of a group's JID.\<close>

definition stored_canonical :: "jid_codec \<Rightarrow> database \<Rightarrow> bool" where
  "stored_canonical c s \<longleftrightarrow>
     (\<forall>d \<in> set (dbDestinations s). normalizeJid c (dJid d) = Inr (dJid d) \<and> isGroupJid c (dJid d))"

lemma resolve_loop_all:
  assumes "codec_ok c" and "db_ok s" and "references_apart s" and "stored_canonical c s"
    and "set ds \<subseteq> set (dbDestinations s)" and "distinct (map dJid ds)"
    and "\<forall>d \<in> set ds. eligible d" and "set (map dJid ds) \<inter> set (tgSeen st) = {}"
  shows "resolve_loop c s True (map dJid ds) st =
    Inr (st\<lparr>tgDestinations := tgDestinations st @ ds, tgSeen := rev (map dJid ds) @ tgSeen st\<rparr>)"
  using assms(5-)
proof (induction ds arbitrary: st)
  case (Cons d ds)
  have d: "d \<in> set (dbDestinations s)" using Cons.prems by simp
  have n: "normalizeJid c (dJid d) = Inr (dJid d)" "isGroupJid c (dJid d)"
    using assms(4) d by (simp_all add: stored_canonical_def)
  have t: "js_trim (dJid d) = dJid d" "dJid d \<noteq> []"
    using normalizeJid_idem [OF assms(1) n(1)] by simp_all
  have "find_target c s (dJid d) = Inr (Some d)"
    using n resolve_own_jid [OF assms(2,3) d] by (simp add: find_target_def)
  then have "check_target c s True (dJid d) = Inr d"
    using Cons.prems(3) n by (simp add: check_target_def eligible_def)
  moreover have "dJid d \<notin> set (tgSeen st)" using Cons.prems(4) by simp
  ultimately show ?case
    using Cons.IH [of "st\<lparr>tgSeen := dJid d # tgSeen st, tgDestinations := tgDestinations st @ [d]\<rparr>"]
      Cons.prems t n
    by (auto simp: Let_def)
qed simp

lemma list_destinations_set: "set (list_destinations False s) = set (dbDestinations s)"
  by (simp add: list_destinations_def)

lemma snapshotAllowed_result:
  assumes "codec_ok c" and "db_ok s" and "references_apart s" and "stored_canonical c s"
  shows "snapshotAllowed c s = Inr
    \<lparr>asDestinations = filter eligible (list_destinations False s),
     asRequested = length (dbDestinations s),
     asSkipped = length (filter (\<lambda>d. \<not> eligible d) (dbDestinations s)),
     asDuplicates = 0\<rparr>"
proof -
  let ?k = "list_destinations False s"
  let ?el = "filter eligible ?k"
  have len: "length ?k = length (dbDestinations s)" by (simp add: list_destinations_def)
  have mset: "mset ?k = mset (dbDestinations s)" by (simp add: list_destinations_def)
  have "mset (map dJid ?k) = mset (map dJid (dbDestinations s))" using mset by simp
  from mset_eq_imp_distinct_iff [OF this] have "distinct (map dJid ?k)"
    using assms(2) by (simp add: db_ok_defs)
  then have dist: "distinct (map dJid ?el)" by (simp add: distinct_map_filter)
  have r: "resolve_loop c s True (map dJid ?el) no_targets =
      Inr (no_targets\<lparr>tgDestinations := ?el, tgSeen := rev (map dJid ?el)\<rparr>)"
  proof -
    have 1: "set ?el \<subseteq> set (dbDestinations s)" using list_destinations_set [of s] by auto
    have 2: "\<forall>d \<in> set ?el. eligible d" by simp
    have 3: "set (map dJid ?el) \<inter> set (tgSeen no_targets) = {}" by (simp add: no_targets_def)
    show ?thesis
      unfolding resolve_loop_all [OF assms 1 dist 2 3] by (simp add: no_targets_def)
  qed
  have "length (filter eligible ?k) + length (filter (\<lambda>d. \<not> eligible d) ?k) = length ?k"
    by (rule sum_length_filter_compl)
  moreover have "length (filter (\<lambda>d. \<not> eligible d) ?k) = length (filter (\<lambda>d. \<not> eligible d) (dbDestinations s))"
    using mset by (metis mset_filter size_mset)
  ultimately show ?thesis
    by (simp add: snapshotAllowed_def resolveTargets_def r Let_def)
      (simp add: len no_targets_def)
qed

text \<open>
  The snapshot a send-to-all uses is exactly the set of destinations that are enabled and
  sendable at that moment, each once, in the order of the list; nothing is reported as a
  duplicate, and the skipped are the rest of the known destinations.
\<close>

theorem snapshotAllowed_exact:
  assumes "codec_ok c" and "db_ok s" and "references_apart s" and "stored_canonical c s"
  shows "snapshotAllowed c s = Inr
    \<lparr>asDestinations = filter eligible (list_destinations False s),
     asRequested = length (dbDestinations s),
     asSkipped = length (filter (\<lambda>d. \<not> eligible d) (dbDestinations s)),
     asDuplicates = 0\<rparr>"
  by (rule snapshotAllowed_result [OF assms])

section \<open>The refresh\<close>

lemma each_InrD: "each f xs = Inr ys \<Longrightarrow> list_all2 (\<lambda>x y. f x = Inr y) xs ys"
  by (induction xs arbitrary: ys) (auto split: sum.splits)

lemma atomically_InlD: "atomically m s = (Inl e, t) \<Longrightarrow> t = s"
  by (auto simp: run_atomically split: prod.splits sum.splits)

lemma synchronize_error: "synchronize items actor now s = (Inl e, t) \<Longrightarrow> t = s"
  unfolding synchronize_def immediateTransaction_def by (rule atomically_InlD)

lemma refresh_error: "refresh c socket actor now s = (Inl e, t) \<Longrightarrow> t = s"
  by (auto simp: refresh_def split: option.splits sum.splits dest: synchronize_error)


section \<open>The samples\<close>

definition sample_codec :: jid_codec where
  "sample_codec = \<lparr>
     jcDecode = (\<lambda>v. if CHR ''@'' \<in> set v \<and> (\<forall>x \<in> set v. \<not> js_space x)
       then Some (takeWhile (\<lambda>x. x \<noteq> CHR '':'') (takeWhile (\<lambda>x. x \<noteq> CHR ''@'') v),
                  tl (dropWhile (\<lambda>x. x \<noteq> CHR ''@'') v))
       else None),
     jcEncode = (\<lambda>user server. user @ ''@'' @ server)\<rparr>"

lemma js_trim_no_space: "(\<forall>x \<in> set v. \<not> js_space x) \<Longrightarrow> js_trim v = v"
proof -
  assume v: "\<forall>x \<in> set v. \<not> js_space x"
  have d: "dropWhile js_space w = w" if "\<forall>x \<in> set w. \<not> js_space x" for w
    using that by (cases w) simp_all
  have "dropWhile js_space (rev v) = rev v" using v by (intro d) simp
  with d [OF v] show ?thesis by (simp add: js_trim_def)
qed

lemma sample_codec_ok: "codec_ok sample_codec"
proof -
  have "js_trim (u @ ''@'' @ v) = u @ ''@'' @ v \<and> u @ ''@'' @ v \<noteq> [] \<and>
      jcDecode sample_codec (u @ ''@'' @ v) = Some (u, v)"
    if d: "jcDecode sample_codec w = Some (u, v)" for w u v
  proof -
    have sp: "\<forall>x \<in> set w. \<not> js_space x"
      and u: "u = takeWhile (\<lambda>x. x \<noteq> CHR '':'') (takeWhile (\<lambda>x. x \<noteq> CHR ''@'') w)"
      and v: "v = tl (dropWhile (\<lambda>x. x \<noteq> CHR ''@'') w)"
      using d by (simp_all add: sample_codec_def split: if_splits)
    have "set u \<subseteq> set w" "set v \<subseteq> set w"
      unfolding u v
      by (auto dest: set_takeWhileD) (metis list.sel(2) list.set_sel(2) set_dropWhileD)
    then have all: "\<forall>x \<in> set (u @ ''@'' @ v). \<not> js_space x"
      using sp by (auto simp: js_space_def)
    have "\<forall>x \<in> set u. x \<noteq> CHR ''@'' \<and> x \<noteq> CHR '':''"
      unfolding u by (auto dest: set_takeWhileD)
    then have "takeWhile (\<lambda>x. x \<noteq> CHR ''@'') (u @ ''@'' @ v) = u"
      and "takeWhile (\<lambda>x. x \<noteq> CHR '':'') u = u"
      and "dropWhile (\<lambda>x. x \<noteq> CHR ''@'') (u @ ''@'' @ v) = ''@'' @ v"
      by (auto simp: takeWhile_eq_all_conv)
    with all js_trim_no_space [OF all] show ?thesis by (simp add: sample_codec_def)
  qed
  moreover have "jcEncode sample_codec u v = u @ ''@'' @ v" for u v by (simp add: sample_codec_def)
  ultimately show ?thesis by (simp add: codec_ok_def)
qed

theorem normalizeJid_canonical_witness:
  "normalizeJid sample_codec ''  49123:7@s.whatsapp.net'' = Inr ''49123@s.whatsapp.net'' \<and>
   normalizeJid sample_codec ''49123@s.whatsapp.net'' = Inr ''49123@s.whatsapp.net'' \<and>
   sameJid sample_codec (Some ''  49123:7@s.whatsapp.net'') (Some ''49123@s.whatsapp.net'')"
proof -
  have n: "normalizeJid sample_codec ''  49123:7@s.whatsapp.net'' = Inr ''49123@s.whatsapp.net''"
    by code_simp
  from normalizeJid_canonical [OF sample_codec_ok n] have
    "normalizeJid sample_codec ''49123@s.whatsapp.net'' = Inr ''49123@s.whatsapp.net''"
    "sameJid sample_codec (Some ''  49123:7@s.whatsapp.net'') (Some ''49123@s.whatsapp.net'')"
    by blast+
  with n show ?thesis by blast
qed

theorem resolveTargets_accounts_witness:
  "\<exists>r. resolveTargets sample_codec [''ops'', '' '', ''OPS'', ''2@g.us'', ''nobody''] True sample_db = Inr r \<and>
     length (requested_targets [''ops'', '' '', ''OPS'', ''2@g.us'', ''nobody'']) =
       length (tgDestinations r) + length (tgIssues r) + tgDuplicates r \<and>
     map tiInput (tgIssues r) = [''2@g.us'', ''nobody'']"
proof -
  let ?in = "[''ops'', '' '', ''OPS'', ''2@g.us'', ''nobody'']"
  have "fst (case resolveTargets sample_codec ?in True sample_db of Inr r \<Rightarrow> (map tiInput (tgIssues r), ())
      | Inl e \<Rightarrow> ([], ())) = [''2@g.us'', ''nobody'']" by code_simp
  with resolveTargets_accounts [of sample_codec ?in True sample_db] show ?thesis by auto
qed

theorem snapshotAllowed_exact_witness:
  "snapshotAllowed sample_codec sample_db = Inr
    \<lparr>asDestinations = [sample_destination ''1@g.us'' (Some ''ops'') True],
     asRequested = 2, asSkipped = 1, asDuplicates = 0\<rparr>"
proof -
  have "references_apart sample_db" "stored_canonical sample_codec sample_db" by code_simp+
  note e = snapshotAllowed_exact [OF sample_codec_ok sample_db_ok this]
  show ?thesis unfolding e by code_simp
qed

definition sample_groups :: group_socket where
  "sample_groups = \<lparr>gsoUserId = Some ''49123:7@s.whatsapp.net'', gsoUserLid = None,
     gsoGroups = Inr [\<lparr>gmtId = ''1@g.us'', gmtSubject = ''Ops'', gmtDesc = None, gmtOwner = None,
       gmtSize = None, gmtParticipants = [\<lparr>paId = Some ''49123@s.whatsapp.net'', paLid = None,
         paPhone = None, paAdmin = None\<rparr>], gmtMode = None, gmtAnnounce = True\<rparr>]\<rparr>"


end
