(* ===== verification/BulkMessageService.thy ===== *)
theory BulkMessageService
  imports MessageService
begin

text \<open>
  \<open>BulkMessageService\<close> of \<open>src/src/messaging/bulk-message-service.ts\<close>: one batch and one ordinary
  queue request per distinct destination.  A destination that fails is counted and the loop goes
  on.  \<open>others i\<close> is what the rest of the process does to the state while the loop is suspended
  after target \<open>i\<close>.
\<close>

section \<open>The fan-out\<close>

record bulk_request =
  bkType :: batch_type
  bkDestinations :: "destination list"
  bkText :: "string option"
  bkForwardSourceKey :: "string option"
  bkScheduledAt :: "int option"
  bkForce :: bool
  bkActor :: "string option"
  bkDuplicateTargets :: nat

record bulk_result =
  brBatchId :: string
  brTargets :: nat
  brQueued :: nat
  brDuplicateJobs :: nat
  brDuplicateTargets :: nat
  brFailed :: nat

datatype target_outcome = Queued | DuplicateJob | FailedTarget

text \<open>
  \<open>new Map(entries).values()\<close>: one destination per JID, in the order the JIDs first occur, the
  last entry's value.
\<close>

fun last_with :: "destination \<Rightarrow> destination list \<Rightarrow> destination" where
  "last_with d [] = d"
| "last_with d (e # es) = last_with (if dJid e = dJid d then e else d) es"

fun unique_destinations :: "string list \<Rightarrow> destination list \<Rightarrow> destination list" where
  "unique_destinations seen [] = []"
| "unique_destinations seen (d # ds) =
     (if dJid d \<in> set seen then unique_destinations seen ds
      else last_with d ds # unique_destinations (dJid d # seen) ds)"

definition bulk_actor :: "bulk_request \<Rightarrow> string" where
  "bulk_actor r = or_else (bkActor r) ''self-controller''"

definition bulk_message :: "bulk_request \<Rightarrow> string \<Rightarrow> string \<Rightarrow> queue_request" where
  "bulk_message r batch jid =
     \<lparr>rqDestination = jid, rqText = Some (or_else (bkText r) []), rqMediaPath = None,
      rqFilename = None, rqScheduledAt = None, rqForce = bkForce r, rqActor = Some (bulk_actor r),
      rqOptions = [], rqBatchId = Some batch, rqDryRun = None\<rparr>"

definition bulk_forward :: "bulk_request \<Rightarrow> string \<Rightarrow> string \<Rightarrow> string \<Rightarrow> forward_request" where
  "bulk_forward r key batch jid =
     \<lparr>frDestination = jid, frSourceKey = key, frScheduledAt = bkScheduledAt r,
      frActor = Some (bulk_actor r), frBatchId = Some batch\<rparr>"

definition enqueue_target ::
    "message_env \<Rightarrow> call_env \<Rightarrow> bulk_request \<Rightarrow> string \<Rightarrow> string \<Rightarrow> queue_result world_io" where
  "enqueue_target me ce r batch jid =
     (case bkForwardSourceKey r of
        None \<Rightarrow> enqueue me ce (bulk_message r batch jid)
      | Some key \<Rightarrow>
          if key = [] then enqueue me ce (bulk_message r batch jid)
          else enqueueForward me ce (bulk_forward r key batch jid))"

definition bulk_target ::
    "message_env \<Rightarrow> call_env \<Rightarrow> bulk_request \<Rightarrow> string \<Rightarrow> string \<Rightarrow> target_outcome world_io" where
  "bulk_target me ce r batch jid =
     catchE
       (bindE (enqueue_target me ce r batch jid)
          (\<lambda>q. ret (if qrDuplicate q then DuplicateJob else Queued)))
       (\<lambda>_. ret FailedTarget)"

fun bulk_loop ::
    "message_env \<Rightarrow> (nat \<Rightarrow> call_env) \<Rightarrow> (nat \<Rightarrow> world \<Rightarrow> world) \<Rightarrow> bulk_request \<Rightarrow> string \<Rightarrow> nat \<Rightarrow>
     destination list \<Rightarrow> target_outcome list world_io" where
  "bulk_loop me calls others r batch i [] = ret []"
| "bulk_loop me calls others r batch i (d # ds) =
     bindE (bulk_target me (calls i) r batch (dJid d)) (\<lambda>out.
     bindE (writeE (others i)) (\<lambda>_.
     bindE (bulk_loop me calls others r batch (Suc i) ds) (\<lambda>outs. ret (out # outs))))"

definition tally :: "string \<Rightarrow> bulk_request \<Rightarrow> destination list \<Rightarrow> target_outcome list \<Rightarrow> bulk_result" where
  "tally batch r targets outs =
     \<lparr>brBatchId = batch, brTargets = length targets,
      brQueued = length (filter (\<lambda>x. x = Queued) outs),
      brDuplicateJobs = length (filter (\<lambda>x. x = DuplicateJob) outs),
      brDuplicateTargets = bkDuplicateTargets r + length (bkDestinations r) - length targets,
      brFailed = length (filter (\<lambda>x. x = FailedTarget) outs)\<rparr>"

definition bulkEnqueue ::
    "message_env \<Rightarrow> (nat \<Rightarrow> call_env) \<Rightarrow> (nat \<Rightarrow> world \<Rightarrow> world) \<Rightarrow> string \<Rightarrow> int \<Rightarrow> bulk_request \<Rightarrow>
     bulk_result world_io" where
  "bulkEnqueue me calls others batch batchNow r =
     (let targets = unique_destinations [] (bkDestinations r) in
      bindE (on_fst (batch_create batch (bkType r) (length targets) (bulk_actor r)
               (toISOString batchNow))) (\<lambda>_.
      bindE (bulk_loop me calls others r batch 0 targets) (\<lambda>outs.
      ret (tally batch r targets outs))))"

section \<open>Distinct targets\<close>

lemma last_with_jid [simp]: "dJid (last_with d ds) = dJid d"
  by (induction ds arbitrary: d) auto

lemma unique_destinations_jids:
  "distinct (map dJid (unique_destinations seen ds)) \<and>
   set (map dJid (unique_destinations seen ds)) = set (map dJid ds) - set seen"
  by (induction seen ds rule: unique_destinations.induct) auto

lemma unique_length: "length (unique_destinations [] ds) = card (set (map dJid ds))"
  using unique_destinations_jids [of "[]" ds] by (metis Diff_empty distinct_card empty_set length_map)

lemma unique_length_le: "length (unique_destinations [] ds) \<le> length ds"
  by (metis card_length length_map unique_length)

section \<open>Accounting\<close>

lemma bulk_target_runs: "\<exists>out w'. bulk_target me ce r batch jid w = (Inr out, w')"
  by (cases "enqueue_target me ce r batch jid w"; cases "fst (enqueue_target me ce r batch jid w)")
    (auto simp: bulk_target_def run_catch run_bind)

lemma bulk_loop_runs:
  "\<exists>outs w'. bulk_loop me calls others r batch i ds w = (Inr outs, w') \<and> length outs = length ds"
proof (induction ds arbitrary: i w)
  case (Cons d ds)
  obtain out w1 where 1: "bulk_target me (calls i) r batch (dJid d) w = (Inr out, w1)"
    using bulk_target_runs by blast
  obtain outs w2 where 2: "bulk_loop me calls others r batch (Suc i) ds (others i w1) = (Inr outs, w2)"
    "length outs = length ds"
    using Cons.IH by blast
  from 1 2 show ?case by (intro exI [of _ "out # outs"] exI [of _ w2]) (simp add: run_bind)
qed simp

lemma outcomes_partition:
  "length (filter (\<lambda>x. x = Queued) outs) + length (filter (\<lambda>x. x = DuplicateJob) outs) +
   length (filter (\<lambda>x. x = FailedTarget) outs) = length outs"
proof (induction outs)
  case (Cons x xs)
  then show ?case by (cases x) simp_all
qed simp

section \<open>Soundness\<close>

lemma sound_enqueue_target: "keeps world_sound (enqueue_target me ce r batch jid)"
  unfolding enqueue_target_def
  by (intro world_rules sound_enqueue sound_enqueueForward)

lemma sound_bulk_target: "keeps world_sound (bulk_target me ce r batch jid)"
  unfolding bulk_target_def by (intro world_rules sound_enqueue_target)

lemma sound_bulk_loop:
  assumes "\<And>i w. world_sound w (others i w)"
  shows "keeps world_sound (bulk_loop me calls others r batch i ds)"
proof (induction ds arbitrary: i)
  case Nil
  show ?case unfolding bulk_loop.simps by (rule world_soundness.keeps_ret)
next
  case (Cons d ds)
  show ?case
    unfolding bulk_loop.simps
    by (intro world_rules sound_bulk_target world_soundness.keeps_write assms Cons.IH)
qed

lemma sound_bulkEnqueue:
  assumes "\<And>i w. world_sound w (others i w)"
  shows "keeps world_sound (bulkEnqueue me calls others batch batchNow r)"
  unfolding bulkEnqueue_def Let_def
  by (intro world_rules sound_bulk_loop assms)

section \<open>The queue after a bulk request\<close>

text \<open>How many jobs one target adds.\<close>

lemma enqueue_target_jobs:
  assumes ok: "db_ok s" and u: "uuids_dashed s" and d: "dashed (ceUuid ce)"
    and run: "enqueue_target me ce r batch jid (s, fs) = (res, (t, fs'))"
  shows "(case res of
      Inl e \<Rightarrow> dbJobs t = dbJobs s
    | Inr q \<Rightarrow> dbJobs t = (if qrDuplicate q then dbJobs s else dbJobs s @ [qrJob q]) \<and>
        (\<not> qrDuplicate q \<longrightarrow> jBatchId (qrJob q) = Some batch \<and> jUuid (qrJob q) = ceUuid ce))"
proof (cases "\<exists>key. bkForwardSourceKey r = Some key \<and> key \<noteq> []")
  case True
  then obtain key where k: "enqueueForward me ce (bulk_forward r key batch jid) (s, fs) = (res, (t, fs'))"
    using run by (auto simp: enqueue_target_def)
  show ?thesis
    using enqueueForward_result [OF ok u d k]
    by (cases res) (auto simp: queued_as_def bulk_forward_def forward_job_def new_row_def)
next
  case False
  then have k: "enqueue me ce (bulk_message r batch jid) (s, fs) = (res, (t, fs'))"
    using run by (auto simp: enqueue_target_def split: option.splits if_splits)
  show ?thesis
    using enqueue_result [OF ok u d k]
    by (cases res) (auto simp: queued_as_def bulk_message_def message_job_def new_row_def)
qed

lemma bulk_target_jobs:
  assumes ok: "db_ok s" and u: "uuids_dashed s" and d: "dashed (ceUuid ce)"
    and run: "bulk_target me ce r batch jid (s, fs) = (res, (t, fs'))"
  shows "db_ok t \<and> uuids_dashed t \<and>
    (\<exists>out new. res = Inr out \<and> dbJobs t = dbJobs s @ new \<and>
       length new = (if out = Queued then 1 else 0) \<and>
       (\<forall>j \<in> set new. jBatchId j = Some batch))"
proof -
  obtain r1 t1 f1 where e: "enqueue_target me ce r batch jid (s, fs) = (r1, (t1, f1))"
    by (metis prod.collapse)
  then have t: "t = t1"
    using run by (auto simp: bulk_target_def run_catch run_bind split: sum.splits)
  note jobs = enqueue_target_jobs [OF ok u d e]
  have "world_sound (s, fs) (t, fs')"
    using keepsD [OF sound_bulk_target, of "(s, fs)" me ce r batch jid] run by (simp add: after_def)
  then have "db_ok t" using ok by (simp add: on_first_def soundD(1))
  moreover have "uuids_dashed t"
    using jobs u d by (cases r1) (auto simp: t uuids_dashed_def split: if_splits)
  moreover have "\<exists>out new. res = Inr out \<and> dbJobs t = dbJobs s @ new \<and>
       length new = (if out = Queued then 1 else 0) \<and> (\<forall>j \<in> set new. jBatchId j = Some batch)"
  proof (cases r1)
    case (Inl x)
    with jobs run e show ?thesis
      by (intro exI [of _ FailedTarget] exI [of _ "[]"])
        (auto simp: bulk_target_def run_catch run_bind t)
  next
    case (Inr q)
    with jobs run e show ?thesis
      by (intro exI [of _ "if qrDuplicate q then DuplicateJob else Queued"]
          exI [of _ "if qrDuplicate q then [] else [qrJob q]"])
        (auto simp: bulk_target_def run_catch run_bind t)
  qed
  ultimately show ?thesis by blast
qed

lemma bulk_loop_jobs:
  assumes "db_ok s" and "uuids_dashed s" and "\<And>i. dashed (ceUuid (calls i))"
    and "bulk_loop me calls (\<lambda>_ w. w) r batch i ds (s, fs) = (Inr outs, (t, fs'))"
  shows "\<exists>new. dbJobs t = dbJobs s @ new \<and> length new = length (filter (\<lambda>x. x = Queued) outs) \<and>
    (\<forall>j \<in> set new. jBatchId j = Some batch)"
  using assms(1,2,4)
proof (induction ds arbitrary: i s fs outs)
  case (Cons d ds)
  obtain r1 s1 f1 where b: "bulk_target me (calls i) r batch (dJid d) (s, fs) = (r1, (s1, f1))"
    by (metis prod.collapse)
  obtain out new where o1: "r1 = Inr out" "dbJobs s1 = dbJobs s @ new"
      "length new = (if out = Queued then 1 else 0)" "\<forall>j \<in> set new. jBatchId j = Some batch"
    and s1: "db_ok s1" "uuids_dashed s1"
    using bulk_target_jobs [OF Cons.prems(1,2) assms(3) b] by blast
  obtain outs' where outs': "bulk_loop me calls (\<lambda>_ w. w) r batch (Suc i) ds (s1, f1) =
      (Inr outs', (t, fs'))" and o2: "outs = out # outs'"
    using Cons.prems(3) b o1(1)
    by (auto simp: run_bind writeE_def split: prod.splits sum.splits)
  from Cons.IH [OF s1 outs'] obtain new' where "dbJobs t = dbJobs s1 @ new'"
      "length new' = length (filter (\<lambda>x. x = Queued) outs')" "\<forall>j \<in> set new'. jBatchId j = Some batch"
    by blast
  with o1 o2 show ?case by (intro exI [of _ "new @ new'"]) auto
qed simp

lemma batch_create_tables:
  "batch_create b ty n a now s = (res, t) \<Longrightarrow> dbJobs t = dbJobs s"
  by (auto simp: batch_create_def immediateTransaction_def run_atomically run_bind Let_def
      insertAudit_def split: if_splits)

lemma bulkEnqueue_runs:
  assumes "batch \<notin> set (map bId (dbBatches s))"
  shows "\<exists>b w. bulkEnqueue me calls others batch batchNow r (s, fs) = (Inr b, w)"
proof -
  let ?ts = "unique_destinations [] (bkDestinations r)"
  obtain s1 where "batch_create batch (bkType r) (length ?ts) (bulk_actor r) (toISOString batchNow) s =
      (Inr \<lparr>bId = batch, bType = bkType r, bTargetCount = length ?ts,
            bCreatedAt = toISOString batchNow\<rparr>, s1)"
    using assms by (auto simp: batch_create_def immediateTransaction_def run_atomically run_bind
        Let_def insertAudit_def)
  then show ?thesis
    using bulk_loop_runs [of me calls others r batch 0 ?ts "(s1, fs)"]
    unfolding bulkEnqueue_def Let_def by (auto simp: run_bind run_on_fst after_def)
qed

lemma bulkEnqueue_result:
  assumes ok: "db_ok s" and u: "uuids_dashed s" and d: "\<And>i. dashed (ceUuid (calls i))"
    and run: "bulkEnqueue me calls (\<lambda>_ w. w) batch batchNow r (s, fs) = (Inr b, (t, fs'))"
  shows "brTargets b = card (set (map dJid (bkDestinations r))) \<and>
    brQueued b + brDuplicateJobs b + brFailed b = brTargets b \<and>
    brDuplicateTargets b = bkDuplicateTargets r + (length (bkDestinations r) - brTargets b) \<and>
    (\<exists>new. dbJobs t = dbJobs s @ new \<and> length new = brQueued b \<and>
       (\<forall>j \<in> set new. jBatchId j = Some batch))"
proof -
  let ?ts = "unique_destinations [] (bkDestinations r)"
  let ?bc = "batch_create batch (bkType r) (length ?ts) (bulk_actor r) (toISOString batchNow)"
  obtain r1 s1 where b1: "?bc s = (r1, s1)" by (cases "?bc s")
  have s1: "db_ok s1" "uuids_dashed s1" "dbJobs s1 = dbJobs s"
    using keepsD [OF sound_batch_create, of s batch "bkType r" "length ?ts" "bulk_actor r" "toISOString batchNow"]
      b1 ok u batch_create_tables [OF b1] by (auto simp: after_def soundD(1) uuids_dashed_def)
  obtain outs where lp: "bulk_loop me calls (\<lambda>_ w. w) r batch 0 ?ts (s1, fs) = (Inr outs, (t, fs'))"
    and b: "b = tally batch r ?ts outs"
    using run b1 unfolding bulkEnqueue_def Let_def
    by (auto simp: run_bind run_on_fst after_def split: prod.splits sum.splits)
  have len: "length outs = length ?ts"
    using bulk_loop_runs [of me calls "\<lambda>_ w. w" r batch 0 ?ts "(s1, fs)"] lp by auto
  from bulk_loop_jobs [OF s1(1,2) d lp] s1(3) obtain new where
    "dbJobs t = dbJobs s @ new" "length new = length (filter (\<lambda>x. x = Queued) outs)"
    "\<forall>j \<in> set new. jBatchId j = Some batch" by auto
  with outcomes_partition [of outs] len unique_length [of "bkDestinations r"]
    unique_length_le [of "bkDestinations r"]
  show ?thesis by (auto simp: b tally_def)
qed

text \<open>
  A bulk request accounts for every target: there is one per distinct JID, each ends as
  queued, duplicate or failed, and the queue grows by exactly the queued ones, all of the
  batch, behind the jobs that were there.
\<close>

theorem bulkEnqueue_accounts:
  assumes ok: "db_ok s" and u: "uuids_dashed s" and d: "\<And>i. dashed (ceUuid (calls i))"
    and run: "bulkEnqueue me calls (\<lambda>_ w. w) batch batchNow r (s, fs) = (Inr b, (t, fs'))"
  shows "brTargets b = card (set (map dJid (bkDestinations r))) \<and>
    brQueued b + brDuplicateJobs b + brFailed b = brTargets b \<and>
    brDuplicateTargets b = bkDuplicateTargets r + (length (bkDestinations r) - brTargets b) \<and>
    (\<exists>new. dbJobs t = dbJobs s @ new \<and> length new = brQueued b \<and>
       (\<forall>j \<in> set new. jBatchId j = Some batch))"
  by (rule bulkEnqueue_result [OF assms])

definition sample_bulk :: bulk_request where
  "sample_bulk = \<lparr>bkType = BT_sendmulti,
     bkDestinations = [sample_destination ''2@g.us'' None False, sample_destination ''3@g.us'' None True,
       sample_destination ''2@g.us'' None False],
     bkText = Some ''hi'', bkForwardSourceKey = None, bkScheduledAt = None, bkForce = False,
     bkActor = None, bkDuplicateTargets = 2\<rparr>"

theorem bulkEnqueue_accounts_witness:
  "\<exists>b w. bulkEnqueue sample_env (\<lambda>_. sample_call) (\<lambda>_ w. w) ''batch'' 1770000000000 sample_bulk
       (sample_db, Map.empty) = (Inr b, w) \<and>
     brTargets b = 2 \<and> brDuplicateTargets b = 3 \<and> brQueued b + brDuplicateJobs b + brFailed b = 2"
proof -
  let ?r = "bulkEnqueue sample_env (\<lambda>_. sample_call) (\<lambda>_ w. w) ''batch'' 1770000000000 sample_bulk
       (sample_db, Map.empty)"
  have d: "dashed (ceUuid sample_call)" by (simp add: dashed_def sample_call_def)
  have "''batch'' \<notin> set (map bId (dbBatches sample_db))" by code_simp
  then obtain b t fs where run: "?r = (Inr b, (t, fs))"
    using bulkEnqueue_runs by (metis prod.collapse)
  have "card (set (map dJid (bkDestinations sample_bulk))) = 2"
    and "bkDuplicateTargets sample_bulk = 2" "length (bkDestinations sample_bulk) = 3"
    by code_simp+
  with bulkEnqueue_accounts [OF sample_db_ok sample_db_dashed d run] run show ?thesis
    by (intro exI [of _ b] exI [of _ "(t, fs)"]) presburger
qed

end
