(* ===== verification/BulkCommands.thy ===== *)
theory BulkCommands
  imports ChatText Targets GroupSetRepo BulkMessageService
begin

text \<open>
  The commands that send to many groups, \<open>src/src/whatsapp/bulk-controller-commands.ts\<close>, from the
  self-chat: multi-sends, sends to all allowed groups and to a set, the same for a forwarded
  message, and the report on a batch.  The environment is what the calls below read: the message
  service, one reading of it per target, and the batch's UUID and time.  Counts that go to the
  log only are left out.
\<close>

section \<open>Replies\<close>

datatype bulk_title = ForwardQueued | MultiSendQueued | SendAllQueued | GroupSetQueued string

datatype bulk_reply =
    UsageForwardMulti
  | UsageSendMulti
  | UsageSendAll
  | UsageSendSet
  | InvalidTargets "target_issue list"
  | NoAllowedGroupsForward
  | NoAllowedGroups
  | InvalidSetName
  | UnknownSet string
  | NoEligibleForward
  | NoEligibleInSet string
  | BulkDone bulk_title "(string \<times> int) list" bulk_result
  | BatchUnknown string
  | BatchReport string nat "(job_status \<times> nat) list"

record command_env =
  cmMessages :: message_env
  cmCodec :: jid_codec
  cmCalls :: "nat \<Rightarrow> call_env"
  cmOthers :: "nat \<Rightarrow> world \<Rightarrow> world"
  cmBatch :: string
  cmBatchNow :: int

section \<open>The handlers\<close>

definition bulk_order :: "batch_type \<Rightarrow> destination list \<Rightarrow> string option \<Rightarrow> string option \<Rightarrow> nat \<Rightarrow> bulk_request" where
  "bulk_order ty ds t key dups =
     \<lparr>bkType = ty, bkDestinations = ds, bkText = t, bkForwardSourceKey = key,
      bkScheduledAt = None, bkForce = False, bkActor = Some ''self-controller'',
      bkDuplicateTargets = dups\<rparr>"

definition submit :: "command_env \<Rightarrow> bulk_request \<Rightarrow> bulk_result world_io" where
  "submit ce r = bulkEnqueue (cmMessages ce) (cmCalls ce) (cmOthers ce) (cmBatch ce) (cmBatchNow ce) r"

definition read_targets :: "command_env \<Rightarrow> string list \<Rightarrow> targets world_io" where
  "read_targets ce inputs =
     bindE (readE (\<lambda>(s, _). resolveTargets (cmCodec ce) inputs True s)) (\<lambda>r.
       case r of Inl e \<Rightarrow> throw e | Inr t \<Rightarrow> ret t)"

definition read_snapshot :: "command_env \<Rightarrow> allowed_snapshot world_io" where
  "read_snapshot ce =
     bindE (readE (\<lambda>(s, _). snapshotAllowed (cmCodec ce) s)) (\<lambda>r.
       case r of Inl e \<Rightarrow> throw e | Inr t \<Rightarrow> ret t)"

definition send_to_named ::
    "command_env \<Rightarrow> bulk_title \<Rightarrow> string list \<Rightarrow> string option \<Rightarrow> string option \<Rightarrow>
     (targets \<Rightarrow> bulk_result \<Rightarrow> (string \<times> int) list) \<Rightarrow> bulk_reply world_io" where
  "send_to_named ce title inputs t key extra =
     bindE (read_targets ce inputs) (\<lambda>resolved.
       if tgIssues resolved \<noteq> [] then ret (InvalidTargets (tgIssues resolved))
       else bindE (submit ce (bulk_order BT_sendmulti (tgDestinations resolved) t key
                     (tgDuplicates resolved))) (\<lambda>result.
            ret (BulkDone title (extra resolved result) result)))"

definition skipped_line :: "int \<Rightarrow> (string \<times> int) list" where
  "skipped_line n = [(''Skipped'', n)]"

definition forwardMulti :: "command_env \<Rightarrow> string \<Rightarrow> string \<Rightarrow> bulk_reply world_io" where
  "forwardMulti ce expression sourceKey =
     (let inputs = map js_trim (js_split (CHR '','') expression) in
      if length inputs < 2 \<or> list_ex (\<lambda>v. v = []) inputs then ret UsageForwardMulti
      else send_to_named ce ForwardQueued inputs None (Some sourceKey)
        (\<lambda>resolved result. skipped_line (int (tgDuplicates resolved + brDuplicateJobs result))))"

definition sendMulti :: "command_env \<Rightarrow> string \<Rightarrow> bulk_reply world_io" where
  "sendMulti ce command =
     (case multiMessage command of
        None \<Rightarrow> ret UsageSendMulti
      | Some (inputs, message) \<Rightarrow>
          send_to_named ce MultiSendQueued inputs (Some message) None (\<lambda>_ _. []))"

definition forwardAll :: "command_env \<Rightarrow> string \<Rightarrow> bulk_reply world_io" where
  "forwardAll ce sourceKey =
     bindE (read_snapshot ce) (\<lambda>snapshot.
       if asDestinations snapshot = [] then ret NoAllowedGroupsForward
       else bindE (submit ce (bulk_order BT_sendall (asDestinations snapshot) None (Some sourceKey)
                     (asDuplicates snapshot))) (\<lambda>result.
         ret (BulkDone ForwardQueued
           (skipped_line (int (asSkipped snapshot + asDuplicates snapshot + brDuplicateJobs result)))
           result)))"

definition sendAll :: "command_env \<Rightarrow> string \<Rightarrow> bulk_reply world_io" where
  "sendAll ce command =
     (case messageAfter command ''/sendall'' of
        None \<Rightarrow> ret UsageSendAll
      | Some message \<Rightarrow>
          bindE (read_snapshot ce) (\<lambda>snapshot.
            if asDestinations snapshot = [] then ret NoAllowedGroups
            else bindE (submit ce (bulk_order BT_sendall (asDestinations snapshot) (Some message) None
                          (asDuplicates snapshot))) (\<lambda>result.
              ret (BulkDone SendAllQueued (skipped_line (int (asSkipped snapshot))) result))))"

definition present_members :: "group_set_member list \<Rightarrow> group_set_member list" where
  "present_members members = filter (\<lambda>m. gmDestination m \<noteq> None) members"

definition forwardSet :: "command_env \<Rightarrow> string \<Rightarrow> string \<Rightarrow> bulk_reply world_io" where
  "forwardSet ce rawName sourceKey =
     (case normalizeGroupSetName rawName of
        Inl _ \<Rightarrow> ret InvalidSetName
      | Inr name \<Rightarrow>
          bindE (readE (\<lambda>(s, _). gs_members name s)) (\<lambda>found.
            case found of
              None \<Rightarrow> ret (UnknownSet name)
            | Some members \<Rightarrow>
                bindE (read_targets ce (map gmJid (present_members members))) (\<lambda>resolved.
                  let skipped = int (length members) - int (length (tgDestinations resolved))
                        - int (tgDuplicates resolved)
                  in if tgDestinations resolved = [] then ret NoEligibleForward
                     else bindE (submit ce (bulk_order BT_sendset (tgDestinations resolved) None
                                   (Some sourceKey) (tgDuplicates resolved))) (\<lambda>result.
                       ret (BulkDone ForwardQueued (skipped_line
                         (skipped + int (tgDuplicates resolved + brDuplicateJobs result))) result)))))"

definition disabled_issues :: "target_issue list \<Rightarrow> nat" where
  "disabled_issues issues =
     length (filter (\<lambda>i. tiReason i = Disabled \<or> tiReason i = NotSendable) issues)"

definition set_summary :: "group_set_member list \<Rightarrow> targets \<Rightarrow> (string \<times> int) list" where
  "set_summary members resolved =
     (let disabled = int (disabled_issues (tgIssues resolved));
          missing = int (length members) - int (length (present_members members))
            + int (length (tgIssues resolved)) - disabled
      in [(''Members'', int (length members)), (''Eligible'', int (length (tgDestinations resolved))),
          (''Disabled'', disabled), (''Missing'', missing)])"

definition sendSet :: "command_env \<Rightarrow> string \<Rightarrow> bulk_reply world_io" where
  "sendSet ce command =
     (case namedMessage command ''/sendset'' of
        None \<Rightarrow> ret UsageSendSet
      | Some (rawName, message) \<Rightarrow>
          (case normalizeGroupSetName rawName of
             Inl _ \<Rightarrow> ret InvalidSetName
           | Inr name \<Rightarrow>
               bindE (readE (\<lambda>(s, _). gs_members name s)) (\<lambda>found.
                 case found of
                   None \<Rightarrow> ret (UnknownSet name)
                 | Some members \<Rightarrow>
                     bindE (read_targets ce (map gmJid (present_members members))) (\<lambda>resolved.
                       if tgDestinations resolved = [] then ret (NoEligibleInSet name)
                       else bindE (submit ce (bulk_order BT_sendset (tgDestinations resolved)
                                     (Some message) None (tgDuplicates resolved))) (\<lambda>result.
                         ret (BulkDone (GroupSetQueued name) (set_summary members resolved) result))))))"

definition batch_report :: "string \<Rightarrow> database \<Rightarrow> bulk_reply" where
  "batch_report i s =
     (case batch_get i s of
        None \<Rightarrow> BatchUnknown i
      | Some (b, cs) \<Rightarrow> BatchReport (bId b) (bTargetCount b) cs)"

section \<open>Soundness\<close>

definition others_sound_calls :: "command_env \<Rightarrow> bool" where
  "others_sound_calls ce \<longleftrightarrow> (\<forall>i w. world_sound w (cmOthers ce i w))"

lemma sound_submit: "others_sound_calls ce \<Longrightarrow> keeps world_sound (submit ce r)"
  unfolding submit_def others_sound_calls_def by (rule sound_bulkEnqueue) blast

lemma sound_read_targets: "keeps world_sound (read_targets ce inputs)"
  unfolding read_targets_def by (auto split: sum.split intro!: world_rules)

lemma sound_read_snapshot: "keeps world_sound (read_snapshot ce)"
  unfolding read_snapshot_def by (auto split: sum.split intro!: world_rules)

lemma sound_send_to_named:
  "others_sound_calls ce \<Longrightarrow> keeps world_sound (send_to_named ce title inputs t key extra)"
  unfolding send_to_named_def by (intro world_rules sound_submit sound_read_targets)

lemma sound_bulk_commands:
  assumes "others_sound_calls ce"
  shows "keeps world_sound (forwardMulti ce expression key)"
    "keeps world_sound (sendMulti ce command)" "keeps world_sound (forwardAll ce key)"
    "keeps world_sound (sendAll ce command)" "keeps world_sound (forwardSet ce name key)"
    "keeps world_sound (sendSet ce command)"
  unfolding forwardMulti_def sendMulti_def forwardAll_def sendAll_def forwardSet_def sendSet_def Let_def
  by (auto split: option.split sum.split
      intro!: world_rules sound_send_to_named sound_submit sound_read_targets sound_read_snapshot assms)

section \<open>What is queued\<close>

lemma distinct_jids:
  "distinct (map (normalizeJid c \<circ> dJid) ds) \<Longrightarrow> distinct (map dJid ds)"
  by (induction ds) (auto simp: image_iff)

text \<open>What a bulk request leaves behind, alone on the database.\<close>

definition bulk_outcome :: "string \<Rightarrow> nat \<Rightarrow> bulk_result \<Rightarrow> database \<Rightarrow> database \<Rightarrow> bool" where
  "bulk_outcome batch n b s t \<longleftrightarrow>
     brTargets b = n \<and> brQueued b + brDuplicateJobs b + brFailed b = n \<and>
     (\<exists>new. dbJobs t = dbJobs s @ new \<and> length new = brQueued b \<and>
        (\<forall>j \<in> set new. jBatchId j = Some batch))"

definition fresh_calls :: "command_env \<Rightarrow> bool" where
  "fresh_calls ce \<longleftrightarrow> (\<forall>i. dashed (ceUuid (cmCalls ce i))) \<and> cmOthers ce = (\<lambda>_ w. w)"

lemma submit_result:
  assumes "db_ok s" and "uuids_dashed s" and "fresh_calls ce" and "distinct (map dJid ds)"
    and "submit ce (bulk_order ty ds t key dups) (s, fs) = (Inr b, (u, fs'))"
  shows "bulk_outcome (cmBatch ce) (length ds) b s u \<and> brDuplicateTargets b = dups"
proof -
  have d: "dashed (ceUuid (cmCalls ce i))" for i using assms(3) by (simp add: fresh_calls_def)
  have run: "bulkEnqueue (cmMessages ce) (cmCalls ce) (\<lambda>_ w. w) (cmBatch ce) (cmBatchNow ce)
      (bulk_order ty ds t key dups) (s, fs) = (Inr b, (u, fs'))"
    using assms(3,5) by (simp add: submit_def fresh_calls_def)
  have "card (set (map dJid ds)) = length ds" using distinct_card [OF assms(4)] by simp
  with bulkEnqueue_result [OF assms(1,2) d run] show ?thesis
    by (simp add: bulk_order_def bulk_outcome_def)
qed

lemma submit_files: "submit ce r (s, fs) = (Inl e, x) \<Longrightarrow> dbJobs (fst x) = dbJobs s"
proof -
  assume a: "submit ce r (s, fs) = (Inl e, x)"
  let ?bc = "batch_create (cmBatch ce) (bkType r) (length (unique_destinations [] (bkDestinations r)))
      (bulk_actor r) (toISOString (cmBatchNow ce))"
  obtain r1 s1 where b1: "?bc s = (r1, s1)" by (cases "?bc s")
  have "dbJobs s1 = dbJobs s" using batch_create_tables [OF b1] by simp
  moreover have "x = (s1, fs)"
    using a b1 bulk_loop_runs [of "cmMessages ce" "cmCalls ce" "cmOthers ce" r "cmBatch ce" 0
        "unique_destinations [] (bkDestinations r)" "(s1, fs)"]
    by (auto simp: submit_def bulkEnqueue_def Let_def run_bind run_on_fst after_def split: sum.splits)
  ultimately show ?thesis by simp
qed


text \<open>
  A send to all goes to exactly the groups that are enabled and sendable when it is given:
  that many targets, each queued, a duplicate or failed, and the skipped of the reply are the
  other known groups, so targets and skipped add up to all of them.
\<close>

theorem sendAll_reaches_all_allowed:
  assumes "db_ok s" and "uuids_dashed s" and "fresh_calls ce"
    and "codec_ok (cmCodec ce)" and "references_apart s" and "stored_canonical (cmCodec ce) s"
    and "messageAfter command ''/sendall'' = Some message"
    and "sendAll ce command (s, fs) = (Inr reply, (t, fs'))"
  shows "(reply = NoAllowedGroups \<and> t = s \<and> (\<forall>d \<in> set (dbDestinations s). \<not> eligible d)) \<or>
    (\<exists>b skipped. reply = BulkDone SendAllQueued [(''Skipped'', int skipped)] b \<and>
       bulk_outcome (cmBatch ce) (length (filter eligible (dbDestinations s))) b s t \<and>
       brTargets b + skipped = length (dbDestinations s) \<and> brDuplicateTargets b = 0)"
proof -
  let ?ds = "filter eligible (list_destinations False s)"
  let ?sk = "length (filter (\<lambda>d. \<not> eligible d) (dbDestinations s))"
  note snap = snapshotAllowed_result [OF assms(4,1,5,6)]
  let ?o = "bulk_order BT_sendall ?ds (Some message) None 0"
  have run: "sendAll ce command (s, fs) =
      (if ?ds = [] then (Inr NoAllowedGroups, (s, fs))
       else case submit ce ?o (s, fs) of
           (Inl e, w) \<Rightarrow> (Inl e, w)
         | (Inr b, w) \<Rightarrow> (Inr (BulkDone SendAllQueued [(''Skipped'', int ?sk)] b), w))"
    by (auto simp: sendAll_def assms(7) read_snapshot_def run_bind snap skipped_line_def
        split: prod.split sum.split)
  have mset: "mset (list_destinations False s) = mset (dbDestinations s)"
    by (simp add: list_destinations_def)
  then have n: "length ?ds = length (filter eligible (dbDestinations s))"
    by (metis mset_filter size_mset)
  have sum: "length (filter eligible (dbDestinations s)) + ?sk = length (dbDestinations s)"
    by (rule sum_length_filter_compl)
  have "mset (map dJid (list_destinations False s)) = mset (map dJid (dbDestinations s))"
    using mset by simp
  from mset_eq_imp_distinct_iff [OF this] have dist: "distinct (map dJid ?ds)"
    using assms(1) by (simp add: db_ok_defs distinct_map_filter)
  show ?thesis
  proof (cases "?ds = []")
    case True
    with run assms(8) have "reply = NoAllowedGroups \<and> t = s" by simp
    moreover have "\<forall>d \<in> set (dbDestinations s). \<not> eligible d"
      using True n by (metis filter_empty_conv length_0_conv)
    ultimately show ?thesis by blast
  next
    case False
    with run assms(8) obtain b where b: "submit ce ?o (s, fs) = (Inr b, (t, fs'))"
      and reply: "reply = BulkDone SendAllQueued [(''Skipped'', int ?sk)] b"
      by (auto split: prod.splits sum.splits)
    from submit_result [OF assms(1-3) dist b] n sum reply show ?thesis
      by (auto simp: bulk_outcome_def)
  qed
qed

definition sample_command_env :: command_env where
  "sample_command_env = \<lparr>cmMessages = sample_env, cmCodec = sample_codec, cmCalls = (\<lambda>_. sample_call),
     cmOthers = (\<lambda>_ w. w), cmBatch = ''batch'', cmBatchNow = 1770000000000\<rparr>"

lemma sample_fresh_calls: "fresh_calls sample_command_env"
  by (simp add: fresh_calls_def sample_command_env_def sample_call_def dashed_def)


theorem sendAll_reaches_all_allowed_witness:
  "\<exists>b t. fst (sendAll sample_command_env ''/sendall hi'' (sample_db, Map.empty)) =
      Inr (BulkDone SendAllQueued [(''Skipped'', 1)] b) \<and>
    bulk_outcome ''batch'' 1 b sample_db t"
proof -
  let ?m = "sendAll sample_command_env ''/sendall hi'' (sample_db, Map.empty)"
  have a: "references_apart sample_db" "stored_canonical (cmCodec sample_command_env) sample_db"
    and p: "messageAfter ''/sendall hi'' ''/sendall'' = Some ''hi''"
    and snap: "snapshotAllowed (cmCodec sample_command_env) sample_db = Inr
      \<lparr>asDestinations = [sample_destination ''1@g.us'' (Some ''ops'') True],
       asRequested = 2, asSkipped = 1, asDuplicates = 0\<rparr>"
    and n: "length (filter eligible (dbDestinations sample_db)) = 1"
    and n2: "length (dbDestinations sample_db) = 2"
    and batch: "cmBatch sample_command_env = ''batch''"
    and free: "cmBatch sample_command_env \<notin> set (map bId (dbBatches sample_db))"
    by code_simp+
  have c: "codec_ok (cmCodec sample_command_env)" by (simp add: sample_command_env_def sample_codec_ok)
  obtain b t fs where "submit sample_command_env (bulk_order BT_sendall
      [sample_destination ''1@g.us'' (Some ''ops'') True] (Some ''hi'') None 0) (sample_db, Map.empty) =
      (Inr b, (t, fs))"
    using bulkEnqueue_runs [OF free] unfolding submit_def by (metis prod.collapse)
  then have m: "?m = (Inr (BulkDone SendAllQueued [(''Skipped'', 1)] b), (t, fs))"
    by (simp add: sendAll_def p read_snapshot_def run_bind snap skipped_line_def)
  from sendAll_reaches_all_allowed [OF sample_db_ok sample_db_dashed sample_fresh_calls c a p m]
  have "bulk_outcome ''batch'' 1 b sample_db t" unfolding n n2 batch by auto
  with m show ?thesis by auto
qed

end
