(* ===== verification/GroupSetCommands.thy ===== *)
theory GroupSetCommands
  imports ChatText Targets GroupSetRepo
begin

text \<open>
  \<open>/groupset\<close> of the chat, \<open>src/src/whatsapp/group-set-commands.ts\<close>.  A reply is a value: the
  template of the text and what is filled in; the wording is not modelled.
\<close>

section \<open>Replies\<close>

datatype set_action = AddTargets | RemoveTargets

datatype member_line = MemberMissing string | MemberLine bool string string

datatype groupset_reply =
    UsageGroupSetList
  | NoGroupSets
  | GroupSetLines "(string \<times> nat) list"
  | UsageGroupSet
  | BadSetName
  | UsageSetCreate
  | SetCreated string
  | SetExists string
  | UsageSetDelete
  | SetDeleted string
  | SetUnknown string
  | UsageSetShow
  | SetShown string "member_line list" nat nat nat
  | UsageSetModify set_action
  | SetAborted set_action "target_issue list"
  | SetUpdated string set_action nat nat

section \<open>The handler\<close>

definition chat_actor :: string where
  "chat_actor = ''self-controller''"

definition member_shown :: "group_set_member \<Rightarrow> member_line" where
  "member_shown m =
     (case gmDestination m of
        None \<Rightarrow> MemberMissing (gmJid m)
      | Some d \<Rightarrow> MemberLine (eligible d) (or_else (dAlias d) (gmJid m)) (dSubject d))"

definition member_allowed :: "group_set_member \<Rightarrow> bool" where
  "member_allowed m \<longleftrightarrow> (case gmDestination m of None \<Rightarrow> False | Some d \<Rightarrow> eligible d)"

definition member_missing :: "group_set_member \<Rightarrow> bool" where
  "member_missing m \<longleftrightarrow> gmDestination m = None"

definition show_groupset :: "string \<Rightarrow> database \<Rightarrow> groupset_reply" where
  "show_groupset name s =
     (case gs_members name s of
        None \<Rightarrow> SetUnknown name
      | Some members \<Rightarrow>
          (let allowed = length (filter member_allowed members);
               missing = length (filter member_missing members)
           in SetShown name (map member_shown members) allowed
                (length members - allowed - missing) missing))"

definition apply_change ::
    "set_action \<Rightarrow> string \<Rightarrow> string list \<Rightarrow> string \<Rightarrow> membership_change option db_io" where
  "apply_change action name jids now =
     (case action of
        AddTargets \<Rightarrow> addMembers name jids chat_actor now
      | RemoveTargets \<Rightarrow> removeMembers name jids chat_actor now)"

definition modify_groupset ::
    "jid_codec \<Rightarrow> set_action \<Rightarrow> string \<Rightarrow> string list \<Rightarrow> string \<Rightarrow> groupset_reply db_io" where
  "modify_groupset c action name inputs now =
     (if inputs = [] then ret (UsageSetModify action)
      else bindE (readE (gs_get name)) (\<lambda>found.
        case found of
          None \<Rightarrow> ret (SetUnknown name)
        | Some _ \<Rightarrow>
            bindE (readE (resolveTargets c inputs False)) (\<lambda>r.
              case r of
                Inl e \<Rightarrow> throw e
              | Inr resolved \<Rightarrow>
                  if tgIssues resolved \<noteq> [] then ret (SetAborted action (tgIssues resolved))
                  else bindE (apply_change action name (map dJid (tgDestinations resolved)) now) (\<lambda>change.
                    case change of
                      None \<Rightarrow> ret (SetUnknown name)
                    | Some ch \<Rightarrow>
                        ret (SetUpdated name action (mcChanged ch)
                          (mcUnchanged ch + tgDuplicates resolved))))))"

definition named_groupset ::
    "jid_codec \<Rightarrow> groupset_command \<Rightarrow> string \<Rightarrow> string \<Rightarrow> groupset_reply db_io" where
  "named_groupset c p name now =
     (if gcAction p = ''create'' then
        if gcTargets p \<noteq> [] then ret UsageSetCreate
        else bindE (gs_create name chat_actor now) (\<lambda>created.
          case created of None \<Rightarrow> ret (SetExists name) | Some g \<Rightarrow> ret (SetCreated (gsName g)))
      else if gcAction p = ''delete'' then
        if gcTargets p \<noteq> [] then ret UsageSetDelete
        else bindE (gs_delete name chat_actor now) (\<lambda>deleted.
          ret (if deleted then SetDeleted name else SetUnknown name))
      else if gcAction p = ''show'' then
        if gcTargets p \<noteq> [] then ret UsageSetShow else readE (show_groupset name)
      else if gcAction p = ''add'' then modify_groupset c AddTargets name (gcTargets p) now
      else if gcAction p = ''remove'' then modify_groupset c RemoveTargets name (gcTargets p) now
      else ret UsageGroupSet)"

definition execute_groupset :: "jid_codec \<Rightarrow> string \<Rightarrow> string \<Rightarrow> groupset_reply db_io" where
  "execute_groupset c command now =
     (let p = parse_groupset command in
      if gcAction p = ''list'' then
        if gcName p \<noteq> None then ret UsageGroupSetList
        else readE (\<lambda>s. if gs_list s = [] then NoGroupSets
                        else GroupSetLines (map (\<lambda>g. (gsName g, gsMemberCount g)) (gs_list s)))
      else case gcName p of
          None \<Rightarrow> ret UsageGroupSet
        | Some raw \<Rightarrow>
            (case normalizeGroupSetName raw of
               Inl e \<Rightarrow> ret BadSetName
             | Inr name \<Rightarrow> named_groupset c p name now))"

section \<open>Soundness\<close>

lemma sound_apply_change [keeps_intro]: "keeps sound (apply_change action name jids now)"
  by (cases action) (simp_all add: apply_change_def sound_addMembers sound_removeMembers)

lemma sound_modify_groupset [keeps_intro]: "keeps sound (modify_groupset c action name inputs now)"
  unfolding modify_groupset_def
  by (auto split: option.split sum.split intro!: keeps_intro)

lemma sound_named_groupset [keeps_intro]: "keeps sound (named_groupset c p name now)"
  unfolding named_groupset_def by (intro keeps_intro)

lemma sound_execute_groupset [keeps_intro]: "keeps sound (execute_groupset c command now)"
  unfolding execute_groupset_def Let_def
  by (auto split: option.split sum.split intro!: keeps_intro)

section \<open>What the commands do\<close>

lemma show_groupset_counts:
  assumes "gs_members name s = Some members"
  shows "\<exists>lines a d m. show_groupset name s = SetShown name lines a d m \<and> a + d + m = length members \<and>
    length lines = length members"
proof -
  have "length (filter member_allowed ms) + length (filter member_missing ms) \<le> length ms" for ms
  proof (induction ms)
    case (Cons x xs)
    then show ?case by (cases "gmDestination x") (auto simp: member_allowed_def member_missing_def)
  qed simp
  from this [of members] show ?thesis by (simp add: show_groupset_def assms Let_def)
qed

definition set_names :: "database \<Rightarrow> string list" where
  "set_names s = map grName (dbGroupSets s)"

lemma change_effect:
  assumes "db_ok s" and "select_set name s = Some g"
  shows "\<exists>t ch. apply_change action name jids now s = (Inr (Some ch), t) \<and>
    mcChanged ch + mcUnchanged ch = length jids \<and>
    set (set_jids t (grId g)) =
      (case action of AddTargets \<Rightarrow> set (set_jids s (grId g)) \<union> set jids
       | RemoveTargets \<Rightarrow> set (set_jids s (grId g)) - set jids) \<and>
    (\<forall>k. k \<noteq> grId g \<longrightarrow> set_jids t k = set_jids s k) \<and> dbJobs t = dbJobs s"
proof -
  have le: "card (set jids - X) \<le> length jids" "card (set jids \<inter> X) \<le> length jids" for X :: "string set"
    by (meson card_length card_mono finite_set Diff_subset Int_lower1 order_trans)+
  show ?thesis
  proof (cases action)
    case AddTargets
    obtain t where t: "addMembers name jids chat_actor now s =
        (Inr (Some \<lparr>mcChanged = card (set jids - set (set_jids s (grId g))),
                    mcUnchanged = length jids - card (set jids - set (set_jids s (grId g)))\<rparr>), t)"
      "set (set_jids t (grId g)) = set (set_jids s (grId g)) \<union> set jids"
      "\<forall>k. k \<noteq> grId g \<longrightarrow> set_jids t k = set_jids s k" "dbJobs t = dbJobs s"
      using addMembers_result [OF assms, of jids chat_actor now] by blast
    with AddTargets le(1) show ?thesis by (auto simp: apply_change_def)
  next
    case RemoveTargets
    obtain t where t: "removeMembers name jids chat_actor now s =
        (Inr (Some \<lparr>mcChanged = card (set jids \<inter> set (set_jids s (grId g))),
                    mcUnchanged = length jids - card (set jids \<inter> set (set_jids s (grId g)))\<rparr>), t)"
      "set_jids t (grId g) = filter (\<lambda>x. x \<notin> set jids) (set_jids s (grId g))"
      "\<forall>k. k \<noteq> grId g \<longrightarrow> set_jids t k = set_jids s k" "dbJobs t = dbJobs s"
      using removeMembers_result [OF assms, of jids chat_actor now] by blast
    with RemoveTargets le(2) show ?thesis by (auto simp: apply_change_def)
  qed
qed

text \<open>
  C33.  Changing a set is atomic in its targets: if one of them names no known group the reply lists
  the issues and the database is unchanged; otherwise the set holds the union (or difference)
  with the named groups, and the two numbers of the reply add up to the targets given.
\<close>

theorem modify_groupset_atomic:
  assumes "db_ok s" and "select_set name s = Some g" and "inputs \<noteq> []"
    and "modify_groupset c action name inputs now s = (res, t)"
  shows "\<exists>r. resolveTargets c inputs False s = Inr r \<and>
    (if tgIssues r \<noteq> [] then res = Inr (SetAborted action (tgIssues r)) \<and> t = s
     else \<exists>changed unchanged. res = Inr (SetUpdated name action changed unchanged) \<and>
       changed + unchanged = length (requested_targets inputs) \<and>
       set (set_jids t (grId g)) =
         (case action of
            AddTargets \<Rightarrow> set (set_jids s (grId g)) \<union> dJid ` set (tgDestinations r)
          | RemoveTargets \<Rightarrow> set (set_jids s (grId g)) - dJid ` set (tgDestinations r)) \<and>
       (\<forall>k. k \<noteq> grId g \<longrightarrow> set_jids t k = set_jids s k) \<and> dbJobs t = dbJobs s)"
proof -
  obtain r where r: "resolveTargets c inputs False s = Inr r"
    and len: "length (requested_targets inputs) =
      length (tgDestinations r) + length (tgIssues r) + tgDuplicates r"
    using resolveTargets_result [of c inputs False s] by blast
  have g: "gs_get name s \<noteq> None" using assms(2) by (simp add: gs_get_def)
  obtain u ch where ch: "apply_change action name (map dJid (tgDestinations r)) now s = (Inr (Some ch), u)"
    "mcChanged ch + mcUnchanged ch = length (map dJid (tgDestinations r))"
    "set (set_jids u (grId g)) =
      (case action of AddTargets \<Rightarrow> set (set_jids s (grId g)) \<union> set (map dJid (tgDestinations r))
       | RemoveTargets \<Rightarrow> set (set_jids s (grId g)) - set (map dJid (tgDestinations r)))"
    "\<forall>k. k \<noteq> grId g \<longrightarrow> set_jids u k = set_jids s k" "dbJobs u = dbJobs s"
    using change_effect [OF assms(1,2)] by blast
  have run: "modify_groupset c action name inputs now s =
      (if tgIssues r \<noteq> [] then (Inr (SetAborted action (tgIssues r)), s)
       else (Inr (SetUpdated name action (mcChanged ch) (mcUnchanged ch + tgDuplicates r)), u))"
    using assms(3) g r ch(1) by (auto simp: modify_groupset_def run_bind)
  show ?thesis
  proof (cases "tgIssues r = []")
    case True
    with run assms(4) have "res = Inr (SetUpdated name action (mcChanged ch) (mcUnchanged ch + tgDuplicates r))"
      and "t = u" by simp_all
    moreover have "mcChanged ch + (mcUnchanged ch + tgDuplicates r) = length (requested_targets inputs)"
      using len True ch(2) by simp
    ultimately show ?thesis using r True ch(3-5) by (cases action) auto
  next
    case False
    with run assms(4) r show ?thesis by simp
  qed
qed

theorem modify_groupset_atomic_witness:
  "fst (modify_groupset sample_codec AddTargets ''Team'' [''ops'', ''nobody''] ''2026-01-05'' sample_sets) =
     Inr (SetAborted AddTargets [\<lparr>tiInput = ''nobody'', tiReason = NotFound\<rparr>]) \<and>
   snd (modify_groupset sample_codec AddTargets ''Team'' [''ops'', ''nobody''] ''2026-01-05'' sample_sets) =
     sample_sets"
proof -
  let ?m = "modify_groupset sample_codec AddTargets ''Team'' [''ops'', ''nobody''] ''2026-01-05'' sample_sets"
  have f: "fst ?m = Inr (SetAborted AddTargets [\<lparr>tiInput = ''nobody'', tiReason = NotFound\<rparr>])"
    by code_simp
  have "[''ops'', ''nobody''] \<noteq> []" and "?m = (fst ?m, snd ?m)" by simp_all
  from modify_groupset_atomic [OF sample_sets_ok sample_set_found this] f
  show ?thesis by (auto split: if_splits)
qed

end
