(* ===== verification/ControllerCommands.thy ===== *)
theory ControllerCommands
  imports BulkCommands GroupSetCommands Health Scheduler
begin

text \<open>
  The executor of chat commands, \<open>createControllerExecutor\<close> of
  \<open>src/src/whatsapp/controller-commands.ts\<close>.  Replies are values, as in the command theories; the
  wording and the help text are not modelled.  The bulk commands are returned as promises out of
  the \<open>try\<close> block, so what they throw is not caught here but by the caller.
\<close>

section \<open>Replies and environment\<close>

datatype chat_reply =
    NeedsSource
  | ForwardReply bool string
  | UsageForward
  | HelpText
  | StatusReport health_report
  | QueueEmpty
  | QueueLines "(string \<times> job_status \<times> string \<times> nat \<times> nat) list"
  | GroupsRefreshed nat
  | AliasSaved "string option" string
  | GroupAllowed string string
  | GroupDenied string
  | NoGroupsYet
  | GroupLines "(bool \<times> string \<times> string option \<times> string) list"
  | GroupSetReply groupset_reply
  | JobCancelled string
  | DuplicateSuppressed string
  | JobQueued string
  | JobScheduled string
  | BulkReply bulk_reply
  | UnknownCommand
  | ForwardFailed
  | CommandFailed

record executor_env =
  exCommand :: command_env
  exCall :: call_env
  exSocket :: "group_socket option"
  exParse :: "string \<Rightarrow> int option"
  exJson :: "string \<Rightarrow> json option"
  exJournal :: string
  exNow :: string
  exNowMs :: int

definition exConfig :: "executor_env \<Rightarrow> app_config" where
  "exConfig ex = meConfig (cmMessages (exCommand ex))"

section \<open>The bulk commands\<close>

definition forward_heads :: "string list" where
  "forward_heads = [''/forward'', ''/forwardmulti'', ''/forwardset'', ''/forwardall'']"

definition bulk_tail ::
    "executor_env \<Rightarrow> string \<Rightarrow> string list \<Rightarrow> string \<Rightarrow> string option \<Rightarrow> bulk_reply world_io option" where
  "bulk_tail ex head rest trimmed sourceKey =
     (let ce = exCommand ex; key = or_else sourceKey [] in
      if head \<in> set forward_heads then
        if \<not> truthy sourceKey then None
        else if head = ''/forwardmulti'' \<and> length rest = 1 then Some (forwardMulti ce (hd rest) key)
        else if head = ''/forwardset'' \<and> length rest = 1 then Some (forwardSet ce (hd rest) key)
        else if head = ''/forwardall'' \<and> rest = [] then Some (forwardAll ce key)
        else None
      else if head = ''/sendmulti'' then Some (sendMulti ce trimmed)
      else if head = ''/sendall'' then Some (sendAll ce trimmed)
      else if head = ''/sendset'' then Some (sendSet ce trimmed)
      else None)"

section \<open>The other commands\<close>

definition queue_lines :: "bool \<Rightarrow> database \<Rightarrow> chat_reply" where
  "queue_lines failedOnly s =
     (let jobs = list_jobs (if failedOnly then [FAILED, REVIEW_REQUIRED] else []) 20 s in
      if jobs = [] then QueueEmpty
      else QueueLines (map (\<lambda>j. (jUuid j, jStatus j, jDestinationJid j, jAttemptCount j, jMaxAttempts j))
        jobs))"

definition group_lines :: "database \<Rightarrow> chat_reply" where
  "group_lines s =
     (let ds = list_destinations False s in
      if ds = [] then NoGroupsYet
      else GroupLines (map (\<lambda>d. (dEnabled d, dSubject d, dAlias d, dJid d)) ds))"

definition chat_message :: "string \<Rightarrow> int option \<Rightarrow> string \<Rightarrow> queue_request" where
  "chat_message dest tm body =
     \<lparr>rqDestination = dest, rqText = Some body, rqMediaPath = None, rqFilename = None,
      rqScheduledAt = tm, rqForce = False, rqActor = Some ''self-controller'', rqOptions = [],
      rqBatchId = None, rqDryRun = None\<rparr>"

fun join_words :: "string list \<Rightarrow> string" where
  "join_words [] = []"
| "join_words [w] = w"
| "join_words (w # ws) = w @ '' '' @ join_words ws"

definition chat_forward :: "string \<Rightarrow> string \<Rightarrow> forward_request" where
  "chat_forward dest key =
     \<lparr>frDestination = dest, frSourceKey = key, frScheduledAt = None,
      frActor = Some ''self-controller'', frBatchId = None\<rparr>"

definition forward_command ::
    "executor_env \<Rightarrow> string \<Rightarrow> string list \<Rightarrow> string option \<Rightarrow> chat_reply world_io" where
  "forward_command ex head rest sourceKey =
     (if \<not> truthy sourceKey then ret NeedsSource
      else if head = ''/forward'' \<and> length rest = 1 then
        bindE (enqueueForward (cmMessages (exCommand ex)) (exCall ex)
                (chat_forward (hd rest) (or_else sourceKey []))) (\<lambda>q.
          ret (ForwardReply (qrDuplicate q) (jUuid (qrJob q))))
      else ret UsageForward)"

definition groups_command :: "executor_env \<Rightarrow> string list \<Rightarrow> chat_reply db_io" where
  "groups_command ex rest =
     (case rest of
        [] \<Rightarrow> readE group_lines
      | action # args \<Rightarrow>
          if action = ''refresh'' then
            bindE (refresh (cmCodec (exCommand ex)) (exSocket ex) chat_actor (exNow ex)) (\<lambda>n.
              ret (GroupsRefreshed n))
          else if action = ''alias'' \<and> length args \<ge> 2 then
            bindE (setAlias (args ! 0) (Some (args ! 1)) chat_actor (exNow ex)) (\<lambda>d.
              ret (AliasSaved (dAlias d) (dSubject d)))
          else if action = ''allow'' \<and> args \<noteq> [] then
            bindE (setEnabled (hd args) True chat_actor (exNow ex)) (\<lambda>d.
              ret (GroupAllowed (dSubject d) (or_else (dAlias d) (dJid d))))
          else if action = ''deny'' \<and> args \<noteq> [] then
            bindE (setEnabled (hd args) False chat_actor (exNow ex)) (\<lambda>d.
              ret (GroupDenied (dSubject d)))
          else readE group_lines)"

definition enqueue_chat ::
    "executor_env \<Rightarrow> string \<Rightarrow> int option \<Rightarrow> string list \<Rightarrow> (string \<Rightarrow> chat_reply) \<Rightarrow> chat_reply world_io" where
  "enqueue_chat ex dest tm body done =
     bindE (enqueue (cmMessages (exCommand ex)) (exCall ex)
             (chat_message dest tm (join_words body))) (\<lambda>q.
       ret (if qrDuplicate q then DuplicateSuppressed (jUuid (qrJob q))
            else done (jUuid (qrJob q))))"

definition plain_command ::
    "executor_env \<Rightarrow> string \<Rightarrow> string list \<Rightarrow> string \<Rightarrow> string option \<Rightarrow> chat_reply world_io" where
  "plain_command ex head rest trimmed sourceKey =
     (if head \<in> set forward_heads then forward_command ex head rest sourceKey
      else if head = ''/help'' then ret HelpText
      else if head = ''/status'' then
        readE (\<lambda>(s, _). StatusReport (health_of (exJson ex) (exJournal ex) (exConfig ex) s))
      else if head = ''/queue'' then
        readE (\<lambda>(s, _). queue_lines (rest \<noteq> [] \<and> hd rest = ''failed'') s)
      else if head = ''/groups'' then on_fst (groups_command ex rest)
      else if head = ''/groupset'' then
        bindE (on_fst (execute_groupset (cmCodec (exCommand ex)) trimmed (exNow ex))) (\<lambda>r.
          ret (GroupSetReply r))
      else if head = ''/cancel'' \<and> rest \<noteq> [] then
        bindE (on_fst (cancel (hd rest) chat_actor (exNow ex))) (\<lambda>j. ret (JobCancelled (jUuid j)))
      else if head = ''/send'' \<and> length rest \<ge> 2 then
        enqueue_chat ex (hd rest) None (tl rest) JobQueued
      else if head = ''/batch'' \<and> rest \<noteq> [] then
        readE (\<lambda>(s, _). BulkReply (batch_report (hd rest) s))
      else if head = ''/schedule'' \<and> length rest \<ge> 3 then
        (case parseSchedule (exParse ex) (rest ! 1) (exNowMs ex) of
           Inl e \<Rightarrow> throw e
         | Inr tm \<Rightarrow> enqueue_chat ex (hd rest) (Some tm) (drop 2 rest) JobScheduled)
      else ret UnknownCommand)"

definition starts_forward :: "string \<Rightarrow> bool" where
  "starts_forward head \<longleftrightarrow> js_starts_with head ''/forward''"

definition executor :: "executor_env \<Rightarrow> string \<Rightarrow> string option \<Rightarrow> chat_reply world_io" where
  "executor ex command sourceKey =
     (let trimmed = js_trim command;
          words = js_words trimmed;
          head = (case words of [] \<Rightarrow> [] | w # _ \<Rightarrow> w);
          rest = tl words
      in case bulk_tail ex head rest trimmed sourceKey of
           Some act \<Rightarrow> bindE act (\<lambda>r. ret (BulkReply r))
         | None \<Rightarrow>
             catchE (plain_command ex head rest trimmed sourceKey)
               (\<lambda>_. ret (if starts_forward head then ForwardFailed else CommandFailed)))"

section \<open>Soundness\<close>

lemma sound_groups_command [keeps_intro]: "keeps sound (groups_command ex rest)"
  unfolding groups_command_def by (auto split: list.split intro!: keeps_intro)

lemma sound_enqueue_chat: "keeps world_sound (enqueue_chat ex dest tm body done)"
  unfolding enqueue_chat_def by (intro world_rules sound_enqueue)

lemma sound_plain_command: "keeps world_sound (plain_command ex head rest trimmed key)"
  unfolding plain_command_def forward_command_def
  by (auto split: sum.split
      intro!: world_rules sound_enqueue_chat sound_enqueueForward sound_groups_command
        sound_execute_groupset)

lemma sound_bulk_tail:
  assumes "others_sound_calls (exCommand ex)" and "bulk_tail ex head rest trimmed key = Some act"
  shows "keeps world_sound act"
  using assms sound_bulk_commands [OF assms(1)] by (auto simp: bulk_tail_def Let_def split: if_splits)

lemma sound_executor:
  "others_sound_calls (exCommand ex) \<Longrightarrow> keeps world_sound (executor ex command key)"
  unfolding executor_def Let_def
  by (auto split: option.split intro!: world_rules sound_plain_command sound_bulk_tail)

section \<open>Errors\<close>

definition command_head :: "string \<Rightarrow> string" where
  "command_head command = (case js_words (js_trim command) of [] \<Rightarrow> [] | w # _ \<Rightarrow> w)"

definition bulk_heads :: "string list" where
  "bulk_heads = [''/forwardmulti'', ''/forwardset'', ''/forwardall'', ''/sendmulti'', ''/sendall'',
     ''/sendset'']"

lemma bulk_tail_heads: "bulk_tail ex head rest trimmed key = Some act \<Longrightarrow> head \<in> set bulk_heads"
  by (auto simp: bulk_tail_def Let_def bulk_heads_def split: if_splits)

lemma executor_plain:
  assumes "bulk_tail ex (command_head command) (tl (js_words (js_trim command))) (js_trim command) key = None"
  shows "executor ex command key =
    catchE (plain_command ex (command_head command) (tl (js_words (js_trim command))) (js_trim command) key)
      (\<lambda>_. ret (if starts_forward (command_head command) then ForwardFailed else CommandFailed))"
  using assms by (simp add: executor_def Let_def command_head_def)

text \<open>What an operation can return when it does not throw.\<close>

definition returns :: "('a \<Rightarrow> bool) \<Rightarrow> ('s, 'e, 'a) io \<Rightarrow> bool" where
  "returns P m \<longleftrightarrow> (\<forall>s y. fst (m s) = Inr y \<longrightarrow> P y)"

lemma returns_ret: "P x \<Longrightarrow> returns P (ret x)"
  by (simp add: returns_def)

lemma returns_throw: "returns P (throw e)"
  by (simp add: returns_def)

lemma returns_read: "(\<And>s. P (f s)) \<Longrightarrow> returns P (readE f)"
  by (auto simp: returns_def)

lemma returns_bind:
  assumes "\<And>x. returns P (f x)"
  shows "returns P (bindE m f)"
  unfolding returns_def
proof (intro allI impI)
  fix s y
  assume y: "fst (bindE m f s) = Inr y"
  obtain r t where m: "m s = (r, t)" by (cases "m s")
  with y obtain x where "r = Inr x" by (cases r) (simp_all add: run_bind)
  with m y have "fst (f x t) = Inr y" by (simp add: run_bind)
  with assms show "P y" unfolding returns_def by blast
qed

lemma returns_on_fst: "returns P m \<Longrightarrow> returns P (on_fst m)"
  unfolding returns_def on_fst_def by (simp split: prod.split) (metis fst_conv)

lemma returns_if: "(b \<Longrightarrow> returns P m) \<Longrightarrow> (\<not> b \<Longrightarrow> returns P n) \<Longrightarrow> returns P (if b then m else n)"
  by simp

lemmas returns_rules = returns_ret returns_throw returns_bind returns_on_fst returns_if returns_read

definition not_failed :: "chat_reply \<Rightarrow> bool" where
  "not_failed r \<longleftrightarrow> r \<noteq> ForwardFailed \<and> r \<noteq> CommandFailed"

lemma not_failed_simps [simp]:
  "not_failed NeedsSource" "not_failed (ForwardReply d u)" "not_failed UsageForward"
  "not_failed HelpText" "not_failed (StatusReport h)" "not_failed (GroupsRefreshed n)"
  "not_failed (AliasSaved a x)" "not_failed (GroupAllowed x y)" "not_failed (GroupDenied x)"
  "not_failed (GroupSetReply g)" "not_failed (JobCancelled u)" "not_failed (DuplicateSuppressed u)"
  "not_failed (JobQueued u)" "not_failed (JobScheduled u)" "not_failed (BulkReply b)"
  "not_failed UnknownCommand" "not_failed (queue_lines f s)" "not_failed (group_lines s)"
  by (simp_all add: not_failed_def queue_lines_def group_lines_def Let_def)

lemma groups_command_not_failed: "returns not_failed (groups_command ex rest)"
  unfolding groups_command_def
  by (cases rest) (simp_all only: list.case, (intro returns_rules not_failed_simps)+)

lemma enqueue_chat_not_failed:
  "(\<And>u. not_failed (done u)) \<Longrightarrow> returns not_failed (enqueue_chat ex dest tm body done)"
  unfolding enqueue_chat_def by (intro returns_bind returns_ret) simp

lemma forward_command_not_failed: "returns not_failed (forward_command ex head rest key)"
  unfolding forward_command_def by (intro returns_rules not_failed_simps)

lemma schedule_not_failed:
  "returns not_failed (case p of Inl e \<Rightarrow> throw e | Inr tm \<Rightarrow> enqueue_chat ex dest (Some tm) body JobScheduled)"
  by (cases p) (simp_all add: returns_throw enqueue_chat_not_failed)

lemma plain_command_not_failed: "returns not_failed (plain_command ex head rest trimmed key)"
  unfolding plain_command_def case_prod_unfold
  by (intro returns_if returns_bind returns_on_fst returns_read returns_ret not_failed_simps
      groups_command_not_failed enqueue_chat_not_failed forward_command_not_failed schedule_not_failed)

text \<open>
  C34.  Every command is answered.  Outside the bulk commands the executor never throws: what fails
  is answered by the one reply for failures, or by the one for failed forwards, and the database
  is left as the failing operation left it, which for a job's life is a legal evolution.
\<close>

theorem executor_answers:
  assumes "command_head command \<notin> set bulk_heads" and "db_ok s"
  shows "\<exists>reply t fs'. executor ex command key (s, fs) = (Inr reply, (t, fs')) \<and>
    db_ok t \<and> jobs_evolve s t \<and>
    (out_of (plain_command ex (command_head command) (tl (js_words (js_trim command)))
       (js_trim command) key (s, fs)) \<in> range Inl \<longleftrightarrow> reply \<in> {ForwardFailed, CommandFailed})"
proof -
  let ?p = "plain_command ex (command_head command) (tl (js_words (js_trim command))) (js_trim command) key"
  have none: "bulk_tail ex (command_head command) (tl (js_words (js_trim command))) (js_trim command) key = None"
    using assms(1) bulk_tail_heads by (metis option.exhaust)
  have "world_sound (s, fs) (after ?p (s, fs))" by (rule keepsD [OF sound_plain_command])
  then have st: "sound s (fst (after ?p (s, fs)))" by (simp add: on_first_def)
  have no: "fst (?p (s, fs)) = Inr y \<Longrightarrow> y \<noteq> ForwardFailed \<and> y \<noteq> CommandFailed" for y
    using plain_command_not_failed unfolding returns_def not_failed_def by blast
  obtain r t fs' where p: "?p (s, fs) = (r, (t, fs'))" by (metis prod_cases3)
  with st have "sound s t" by (simp add: after_def)
  with assms(2) have w: "db_ok t" "jobs_evolve s t" by (blast dest: soundD)+
  show ?thesis
  proof (cases r)
    case (Inl e)
    with p w show ?thesis by (auto simp: executor_plain [OF none] run_catch out_of_def)
  next
    case (Inr y)
    with p no have "y \<noteq> ForwardFailed \<and> y \<noteq> CommandFailed" by simp
    with Inr p w show ?thesis by (auto simp: executor_plain [OF none] run_catch out_of_def)
  qed
qed

text \<open>
  A bulk command's error is not caught: the promise is returned out of the \<open>try\<close> block, so the
  replies meant for failures never answer it.
\<close>

lemma executor_bulk_escapes:
  assumes "bulk_tail ex (command_head command) (tl (js_words (js_trim command))) (js_trim command) key = Some act"
    and "act w = (Inl e, w')"
  shows "executor ex command key w = (Inl e, w')"
  using assms by (simp add: executor_def Let_def command_head_def run_bind)

definition sample_executor :: executor_env where
  "sample_executor = \<lparr>exCommand = sample_command_env, exCall = sample_call, exSocket = None,
     exParse = parse_iso, exJson = (\<lambda>_. None), exJournal = ''wal'', exNow = ''2026-01-05'',
     exNowMs = 1770000000000\<rparr>"

theorem executor_answers_witness:
  "fst (executor sample_executor ''/cancel nothing'' None (sample_db, Map.empty)) = Inr CommandFailed \<and>
   fst (executor sample_executor '' /cancel b-2 '' None (sample_db, Map.empty)) = Inr (JobCancelled ''b-2'') \<and>
   db_ok (fst (snd (executor sample_executor '' /cancel b-2 '' None (sample_db, Map.empty)))) \<and>
   command_head '' /cancel b-2 '' \<notin> set bulk_heads"
proof (intro conjI)
  show h: "command_head '' /cancel b-2 '' \<notin> set bulk_heads"
    and "fst (executor sample_executor ''/cancel nothing'' None (sample_db, Map.empty)) = Inr CommandFailed"
    and "fst (executor sample_executor '' /cancel b-2 '' None (sample_db, Map.empty)) = Inr (JobCancelled ''b-2'')"
    by code_simp+
  from executor_answers [OF h sample_db_ok, of sample_executor None Map.empty]
  show "db_ok (fst (snd (executor sample_executor '' /cancel b-2 '' None (sample_db, Map.empty))))"
    by auto
qed

end
