(* ===== verification/SelfController.thy ===== *)
theory SelfController
  imports ControllerCommands
begin

text \<open>
  The self-chat controller, \<open>src/src/whatsapp/self-controller.ts\<close>: which messages are commands, the
  log that makes a command run once, the replies, and the storing of forwarded messages as
  sources.  Its state stands beside the database and the files: whether a socket is attached, the
  executed commands and the texts sent.  The environment has the clock, the digest, the
  encoding of a message and which sends of a reply fail.

  The contract of an executor is a locale: whatever it does, it does not take an entry out of the
  log of processed commands.
\<close>

section \<open>Messages\<close>

record context_info =
  ciForwarded :: bool
  ciScore :: int
  ciStanzaId :: "string option"

record message_content =
  mcConversation :: "string option"
  mcExtended :: "(string option \<times> context_info option) option"
  mcImage :: "context_info option option"
  mcVideo :: "context_info option option"
  mcDocument :: "context_info option option"

datatype message_stamp = NoStamp | BadStamp | Stamp int

record wa_message =
  wmFromMe :: bool
  wmRemoteJid :: "string option"
  wmParticipant :: "string option"
  wmId :: "string option"
  wmContent :: "message_content option"
  wmStamp :: message_stamp

datatype content_kind = KindText | KindImage | KindVideo | KindDocument

definition forward_key :: "string \<Rightarrow> string \<Rightarrow> string" where
  "forward_key jid i = jid @ ''|'' @ i"

definition extended_text :: "message_content \<Rightarrow> string option" where
  "extended_text c = (case mcExtended c of None \<Rightarrow> None | Some (t, _) \<Rightarrow> t)"

definition forwardContentType :: "wa_message \<Rightarrow> content_kind option" where
  "forwardContentType m =
     (case wmContent m of
        None \<Rightarrow> None
      | Some c \<Rightarrow>
          if truthy (extended_text c) \<or> truthy (mcConversation c) then Some KindText
          else if mcImage c \<noteq> None then Some KindImage
          else if mcVideo c \<noteq> None then Some KindVideo
          else if mcDocument c \<noteq> None then Some KindDocument
          else None)"

definition flatten_option :: "'a option option \<Rightarrow> 'a option" where
  "flatten_option x = (case x of None \<Rightarrow> None | Some y \<Rightarrow> y)"

definition contextInfo :: "wa_message \<Rightarrow> context_info option" where
  "contextInfo m =
     (case wmContent m of
        None \<Rightarrow> None
      | Some c \<Rightarrow>
          coalesce (case mcExtended c of None \<Rightarrow> None | Some (_, i) \<Rightarrow> i)
            (coalesce (flatten_option (mcImage c))
              (coalesce (flatten_option (mcVideo c)) (flatten_option (mcDocument c)))))"

definition messageText :: "wa_message \<Rightarrow> string option" where
  "messageText m =
     (case wmContent m of
        None \<Rightarrow> None | Some c \<Rightarrow> coalesce (mcConversation c) (extended_text c))"

definition isForwarded :: "wa_message \<Rightarrow> bool" where
  "isForwarded m \<longleftrightarrow>
     (case contextInfo m of None \<Rightarrow> False | Some i \<Rightarrow> ciForwarded i \<or> 0 < ciScore i)"

section \<open>State and environment\<close>

type_synonym 'r executor_fn = "string \<Rightarrow> string option \<Rightarrow> 'r world_io"

datatype 'r chat_text = Answer 'r | SourceMissing | CommandCrashed

record 'r chat =
  chAttached :: bool
  chExecuted :: "string list"
  chSent :: "(string \<times> 'r chat_text) list"

record 'r chat_env =
  ceOwn :: "string list"
  ceCodec :: jid_codec
  ceStartedAt :: int
  ceHash :: "string \<Rightarrow> string"
  ceDate :: "string \<Rightarrow> int option"
  ceClock :: int
  ceEncode :: "wa_message \<Rightarrow> string"
  ceExecute :: "'r executor_fn"
  ceSendFails :: "string \<Rightarrow> bool"

type_synonym ('r, 'a) chat_io = "(world \<times> 'r chat, error, 'a) io"

section \<open>Authorisation\<close>

definition own_jid :: "'r chat_env \<Rightarrow> string option \<Rightarrow> bool" where
  "own_jid ce jid \<longleftrightarrow> list_ex (\<lambda>own. sameJid (ceCodec ce) (Some own) jid) (ceOwn ce)"

definition recent :: "'r chat_env \<Rightarrow> message_stamp \<Rightarrow> bool" where
  "recent ce st \<longleftrightarrow>
     (case st of
        NoStamp \<Rightarrow> ceStartedAt ce - 30 \<le> 0
      | BadStamp \<Rightarrow> False
      | Stamp t \<Rightarrow> ceStartedAt ce - 30 \<le> t)"

definition isAuthorized :: "'r chat_env \<Rightarrow> wa_message \<Rightarrow> bool" where
  "isAuthorized ce m \<longleftrightarrow>
     wmFromMe m \<and> truthy (wmRemoteJid m) \<and>
     isUserJid (ceCodec ce) (or_else (wmRemoteJid m) []) \<and> own_jid ce (wmRemoteJid m) \<and>
     (truthy (wmParticipant m) \<longrightarrow> own_jid ce (wmParticipant m)) \<and>
     \<not> isForwarded m \<and> recent ce (wmStamp m)"

section \<open>One message\<close>

definition storeForwardSource :: "'r chat_env \<Rightarrow> wa_message \<Rightarrow> unit db_io" where
  "storeForwardSource ce m =
     (let jid = or_else (wmRemoteJid m) []; i = or_else (wmId m) [] in
      if \<not> truthy (wmRemoteJid m) \<or> \<not> truthy (wmId m) \<or> \<not> wmFromMe m \<or> \<not> isUserJid (ceCodec ce) jid
      then ret ()
      else if \<not> own_jid ce (wmRemoteJid m) then ret ()
      else if truthy (wmParticipant m) \<and> \<not> own_jid ce (wmParticipant m) then ret ()
      else if \<not> isForwarded m then ret ()
      else case forwardContentType m of
          None \<Rightarrow> ret ()
        | Some k \<Rightarrow>
            forward_save
              \<lparr>fsSourceKey = forward_key jid i, fsPayload = ceEncode ce m,
               fsContentType =
                 (case k of KindText \<Rightarrow> ''text'' | KindImage \<Rightarrow> ''image'' | KindVideo \<Rightarrow> ''video''
                  | KindDocument \<Rightarrow> ''document''),
               fsReceivedAt = toISOString (ceClock ce),
               fsExpiresAt = (if k = KindText then None
                              else Some (toISOString (ceClock ce + 24 * 60 * 60 * 1000)))\<rparr>)"

text \<open>\<open>^/forward(?:multi|set|all)?(?:\s|$)\<close>, without regard to case.\<close>

definition is_forward_command :: "string \<Rightarrow> bool" where
  "is_forward_command t \<longleftrightarrow>
     js_lower (takeWhile (\<lambda>c. \<not> js_space c) t) \<in> set forward_heads"

definition expired :: "'r chat_env \<Rightarrow> forward_source \<Rightarrow> bool" where
  "expired ce f \<longleftrightarrow>
     truthy (fsExpiresAt f) \<and>
     (case ceDate ce (or_else (fsExpiresAt f) []) of None \<Rightarrow> False | Some t \<Rightarrow> t \<le> ceClock ce)"

definition source_key :: "wa_message \<Rightarrow> string option" where
  "source_key m =
     (case contextInfo m of
        None \<Rightarrow> None
      | Some i \<Rightarrow>
          if truthy (ciStanzaId i)
          then Some (forward_key (or_else (wmRemoteJid m) []) (or_else (ciStanzaId i) [])) else None)"

definition source_usable :: "'r chat_env \<Rightarrow> string option \<Rightarrow> database \<Rightarrow> bool" where
  "source_usable ce key s \<longleftrightarrow>
     (case key of
        None \<Rightarrow> False
      | Some k \<Rightarrow> (case forward_get k s of None \<Rightarrow> False | Some f \<Rightarrow> \<not> expired ce f))"

definition send_reply :: "'r chat_env \<Rightarrow> string \<Rightarrow> 'r chat_text \<Rightarrow> ('r, unit) chat_io" where
  "send_reply ce i t =
     (if ceSendFails ce i then throw (PlainError ''send failed'')
      else on_snd (writeE (\<lambda>c. c\<lparr>chSent := chSent c @ [(i, t)]\<rparr>)))"

definition run_command :: "'r chat_env \<Rightarrow> string \<Rightarrow> string \<Rightarrow> wa_message \<Rightarrow> ('r, 'r chat_text) chat_io" where
  "run_command ce i t m =
     bindE (readE (\<lambda>((s, _), _). source_usable ce (source_key m) s)) (\<lambda>usable.
       if is_forward_command t \<and> \<not> usable then ret SourceMissing
       else bindE (on_snd (writeE (\<lambda>c. c\<lparr>chExecuted := chExecuted c @ [i]\<rparr>))) (\<lambda>_.
            bindE (on_fst (ceExecute ce t (if is_forward_command t then source_key m else None))) (\<lambda>r.
            ret (Answer r))))"

definition answer_command :: "'r chat_env \<Rightarrow> string \<Rightarrow> string \<Rightarrow> wa_message \<Rightarrow> ('r, unit) chat_io" where
  "answer_command ce i t m =
     catchE (bindE (run_command ce i t m) (\<lambda>reply. send_reply ce i reply))
       (\<lambda>_. catchE (send_reply ce i CommandCrashed) (\<lambda>_. ret ()))"

definition handle_command :: "'r chat_env \<Rightarrow> string \<Rightarrow> string \<Rightarrow> wa_message \<Rightarrow> ('r, bool) chat_io" where
  "handle_command ce i t m =
     bindE (on_fst (on_fst (markProcessed i (ceHash ce t) (toISOString (ceClock ce))))) (\<lambda>fresh.
       if \<not> fresh then ret False
       else bindE (answer_command ce i t m) (\<lambda>_. ret True))"

definition handleMessage :: "'r chat_env \<Rightarrow> wa_message \<Rightarrow> ('r, bool) chat_io" where
  "handleMessage ce m =
     (if \<not> isAuthorized ce m then ret False
      else bindE (readE (\<lambda>(_, c). chAttached c)) (\<lambda>attached.
        let t = js_trim (or_else (messageText m) []) in
        if \<not> attached \<or> \<not> truthy (wmId m) \<or> \<not> js_starts_with t ''/'' then ret False
        else handle_command ce (or_else (wmId m) []) t m))"

record upsert_event =
  ueMessages :: "wa_message list"
  ueType :: string
  ueRequestId :: "string option"

definition handleUpsert :: "'r chat_env \<Rightarrow> upsert_event \<Rightarrow> ('r, nat) chat_io" where
  "handleUpsert ce event =
     (if ueType event \<noteq> ''notify'' \<or> truthy (ueRequestId event) then ret 0
      else bindE (forE (ueMessages event) (\<lambda>m. on_fst (on_fst (storeForwardSource ce m)))) (\<lambda>_.
           bindE (forE (ueMessages event) (handleMessage ce)) (\<lambda>accepted.
           ret (length (filter id accepted)))))"

text \<open>The listener follows the live socket.\<close>

definition attach :: "'r chat \<Rightarrow> 'r chat" where
  "attach c = c\<lparr>chAttached := True\<rparr>"

definition detach :: "'r chat \<Rightarrow> 'r chat" where
  "detach c = c\<lparr>chAttached := False\<rparr>"

section \<open>The log of commands\<close>

definition log_grows :: "world \<Rightarrow> world \<Rightarrow> bool" where
  "log_grows w w' \<longleftrightarrow> commands_kept (fst w) (fst w')"

interpretation growing: state_preorder log_grows
  by unfold_locales (auto simp: log_grows_def)

text \<open>
  What holds of the log and of the trace of executed commands, in every state between two
  messages: what ran is in the log, and ran once.
\<close>

definition processed :: "world \<times> 'r chat \<Rightarrow> string set" where
  "processed x = dom (dbControllerMessages (fst (fst x)))"

definition once :: "world \<times> 'r chat \<Rightarrow> bool" where
  "once x \<longleftrightarrow> distinct (chExecuted (snd x)) \<and> set (chExecuted (snd x)) \<subseteq> processed x"

definition chat_step :: "string set \<Rightarrow> world \<times> 'r chat \<Rightarrow> world \<times> 'r chat \<Rightarrow> bool" where
  "chat_step A x y \<longleftrightarrow>
     processed x \<subseteq> processed y \<and>
     (\<exists>ids. chExecuted (snd y) = chExecuted (snd x) @ ids \<and> distinct ids \<and> set ids \<subseteq> A \<and>
        set ids \<subseteq> processed y - processed x)"

interpretation chat_steps: state_preorder "chat_step A" for A :: "string set"
proof
  show "chat_step A x x" for x :: "world \<times> 'r chat" by (simp add: chat_step_def)
next
  fix x y z :: "world \<times> 'r chat"
  assume xy: "chat_step A x y" and yz: "chat_step A y z"
  obtain a where a: "chExecuted (snd y) = chExecuted (snd x) @ a" "distinct a" "set a \<subseteq> A"
      "set a \<subseteq> processed y - processed x" "processed x \<subseteq> processed y"
    using xy unfolding chat_step_def by blast
  obtain b where b: "chExecuted (snd z) = chExecuted (snd y) @ b" "distinct b" "set b \<subseteq> A"
      "set b \<subseteq> processed z - processed y" "processed y \<subseteq> processed z"
    using yz unfolding chat_step_def by blast
  have "distinct (a @ b)" using a(2,4) b(2,4) by (simp add: distinct_append) blast
  moreover have "set (a @ b) \<subseteq> A" "set (a @ b) \<subseteq> processed z - processed x"
    using a(3-5) b(3-5) by (simp; blast)+
  moreover have "chExecuted (snd z) = chExecuted (snd x) @ (a @ b)" using a(1) b(1) by simp
  ultimately show "chat_step A x z"
    using a(5) b(5) unfolding chat_step_def by blast
qed

lemma chat_step_once:
  assumes "chat_step A x y" and "once x"
  shows "once y"
proof -
  obtain ids where i: "chExecuted (snd y) = chExecuted (snd x) @ ids" "distinct ids"
      "set ids \<subseteq> processed y - processed x" "processed x \<subseteq> processed y"
    using assms(1) unfolding chat_step_def by blast
  have o: "distinct (chExecuted (snd x))" "set (chExecuted (snd x)) \<subseteq> processed x"
    using assms(2) unfolding once_def by blast+
  have "distinct (chExecuted (snd x) @ ids)" using i(2,3) o by (simp add: distinct_append) blast
  moreover have "set (chExecuted (snd x) @ ids) \<subseteq> processed y" using i(3,4) o(2) by (simp; blast)
  ultimately show ?thesis unfolding once_def i(1) by blast
qed

lemma chat_step_growing:
  assumes "log_grows w w'" and "chExecuted c' = chExecuted c"
  shows "chat_step A (w, c) (w', c')"
proof -
  have "processed (w, c) \<subseteq> processed (w', c')"
    using assms(1) unfolding log_grows_def processed_def by simp
  then show ?thesis using assms(2) unfolding chat_step_def by simp
qed

lemma markProcessed_cases:
  "markProcessed i h now s = (if i \<in> dom (dbControllerMessages s) then (Inr False, s)
     else (Inr True, after (markProcessed i h now) s)) \<and>
   dom (dbControllerMessages (after (markProcessed i h now) s)) = insert i (dom (dbControllerMessages s))"
  by (auto simp: markProcessed_def hasProcessed_def after_def dom_def)

lemma storeForwardSource_log:
  "dbControllerMessages (after (storeForwardSource ce m) s) = dbControllerMessages s"
  by (simp add: storeForwardSource_def Let_def forward_save_def after_def split: option.split)

lemma store_step: "keeps (chat_step A) (on_fst (on_fst (storeForwardSource ce m)))"
proof (rule keepsI)
  fix x :: "world \<times> 'r chat"
  obtain s fs c where x: "x = ((s, fs), c)" by (cases x; cases "fst x") auto
  show "chat_step A x (after (on_fst (on_fst (storeForwardSource ce m))) x)"
    using storeForwardSource_log [of ce m s]
    by (simp add: x after_def run_on_fst chat_step_growing log_grows_def)
qed

definition authorized_id :: "'r chat_env \<Rightarrow> string set \<Rightarrow> wa_message \<Rightarrow> bool" where
  "authorized_id ce A m \<longleftrightarrow> (isAuthorized ce m \<longrightarrow> truthy (wmId m) \<longrightarrow> or_else (wmId m) [] \<in> A)"

lemma on_fst_result: "m s = (r, s') \<Longrightarrow> on_fst m (s, t) = (r, (s', t))"
  by (simp add: run_on_fst after_def)

text \<open>The contract of an executor.\<close>

locale chat_executor =
  fixes ce :: "'r chat_env"
  assumes keeps_log: "keeps log_grows (ceExecute ce t key)"
begin

lemma run_command_effect:
  "\<exists>ids. chExecuted (snd (after (run_command ce i t m) x)) = chExecuted (snd x) @ ids \<and>
     (ids = [] \<or> ids = [i]) \<and> processed x \<subseteq> processed (after (run_command ce i t m) x)"
proof -
  obtain s fs c where x: "x = ((s, fs), c)" by (cases x; cases "fst x") auto
  have grow: "log_grows (s, fs) (after (ceExecute ce t key) (s, fs))" for key
    by (rule keepsD [OF keeps_log])
  let ?k = "if is_forward_command t then source_key m else None"
  obtain r w where e: "ceExecute ce t ?k (s, fs) = (r, w)" by (cases "ceExecute ce t ?k (s, fs)")
  with grow [of ?k] have g: "log_grows (s, fs) w" by (simp add: after_def)
  show ?thesis
  proof (cases "is_forward_command t \<and> \<not> source_usable ce (source_key m) s")
    case True
    then show ?thesis by (simp add: x run_command_def after_def)
  next
    case False
    then show ?thesis
      using e g
      by (cases r) (auto simp: x run_command_def run_bind run_on_fst run_on_snd after_def processed_def
          log_grows_def)
  qed
qed

lemma send_reply_effect:
  "chExecuted (snd (after (send_reply ce i t) x)) = chExecuted (snd x)"
  "fst (after (send_reply ce i t) x) = fst x"
  by (cases x; simp add: send_reply_def run_on_snd after_def)+

lemma answer_effect:
  "chExecuted (snd (after (answer_command ce i t m) x)) =
      chExecuted (snd (after (run_command ce i t m) x)) \<and>
    fst (after (answer_command ce i t m) x) = fst (after (run_command ce i t m) x)"
proof -
  obtain r z where r: "run_command ce i t m x = (r, z)" by (cases "run_command ce i t m x")
  have s: "\<exists>q z'. send_reply ce i u v = (q, z') \<and> chExecuted (snd z') = chExecuted (snd v) \<and> fst z' = fst v"
    for u v
    using send_reply_effect [of i u v] by (cases "send_reply ce i u v") (auto simp: after_def)
  show ?thesis
  proof (cases r)
    case (Inl e)
    obtain q z' where "send_reply ce i CommandCrashed z = (q, z')" "chExecuted (snd z') = chExecuted (snd z)"
      "fst z' = fst z" using s by blast
    with Inl r show ?thesis
      by (cases q) (simp_all add: answer_command_def after_def run_catch run_bind)
  next
    case (Inr a)
    obtain q z' where 1: "send_reply ce i a z = (q, z')" "chExecuted (snd z') = chExecuted (snd z)"
      "fst z' = fst z" using s by blast
    obtain q2 z2 where 2: "send_reply ce i CommandCrashed z' = (q2, z2)"
      "chExecuted (snd z2) = chExecuted (snd z')" "fst z2 = fst z'" using s by blast
    from Inr r 1 2 show ?thesis
      by (cases q; cases q2) (simp_all add: answer_command_def after_def run_catch run_bind)
  qed
qed

lemma answer_returns:
  "\<exists>z. answer_command ce i t m x = (Inr (), z)"
  unfolding answer_command_def
  by (cases "bindE (run_command ce i t m) (\<lambda>reply. send_reply ce i reply) x"; cases x)
    (auto simp: run_catch send_reply_def run_on_snd split: sum.split prod.split)

lemma handle_command_step:
  assumes "i \<in> A"
  shows "chat_step A x (after (handle_command ce i t m) x)"
proof -
  obtain s fs c where x: "x = ((s, fs), c)" by (cases x; cases "fst x") auto
  let ?mk = "markProcessed i (ceHash ce t) (toISOString (ceClock ce))"
  note mk = markProcessed_cases [of i "ceHash ce t" "toISOString (ceClock ce)" s]
  show ?thesis
  proof (cases "i \<in> dom (dbControllerMessages s)")
    case True
    with mk have "?mk s = (Inr False, s)" by simp
    then have "after (handle_command ce i t m) x = x"
      by (simp add: x handle_command_def run_bind run_on_fst after_def)
    then show ?thesis by (simp add: chat_steps.refl)
  next
    case False
    let ?x = "((after ?mk s, fs), c)"
    let ?body = "answer_command ce i t m"
    have m: "?mk s = (Inr True, after ?mk s)" using mk False by simp
    obtain z where z: "?body ?x = (Inr (), z)" using answer_returns [of i t m ?x] by blast
    have "on_fst (on_fst ?mk) x = (Inr True, ?x)"
      unfolding x by (intro on_fst_result m)
    then have "handle_command ce i t m x = (Inr True, z)"
      unfolding handle_command_def run_bind by (simp add: z run_bind)
    then have y: "after (handle_command ce i t m) x = after ?body ?x"
      using z by (simp add: after_def)
    obtain ids where ids: "chExecuted (snd (after (run_command ce i t m) ?x)) = chExecuted c @ ids"
      "ids = [] \<or> ids = [i]" "processed ?x \<subseteq> processed (after (run_command ce i t m) ?x)"
      using run_command_effect [of i t m ?x] by auto
    have p: "processed ?x = insert i (processed x)" "i \<notin> processed x"
      using mk False by (simp_all add: processed_def x)
    have "chExecuted (snd (after ?body ?x)) = chExecuted (snd x) @ ids"
      and q: "processed (after ?body ?x) = processed (after (run_command ce i t m) ?x)"
      using answer_effect [of i t m ?x] ids(1) by (simp_all add: processed_def x)
    moreover have i: "i \<in> processed (after ?body ?x) - processed x"
      and "processed x \<subseteq> processed (after ?body ?x)"
      using ids(3) p unfolding q by blast+
    moreover have "set ids \<subseteq> A" "distinct ids" "set ids \<subseteq> processed (after ?body ?x) - processed x"
      using ids(2) assms i by (elim disjE; simp)+
    ultimately show ?thesis unfolding y chat_step_def by blast
  qed
qed

lemma handleMessage_step:
  assumes "authorized_id ce A m"
  shows "keeps (chat_step A) (handleMessage ce m)"
proof (cases "isAuthorized ce m \<and> truthy (wmId m)")
  case True
  with assms have i: "or_else (wmId m) [] \<in> A" by (simp add: authorized_id_def)
  show ?thesis
    unfolding handleMessage_def Let_def
    by (intro chat_steps.keeps_rules keepsI handle_command_step i)
next
  case False
  then show ?thesis
    unfolding handleMessage_def Let_def
    by (cases "isAuthorized ce m") (auto intro!: chat_steps.keeps_rules)
qed

lemma handleUpsert_step:
  assumes "ueType e = ''notify'' \<Longrightarrow> \<not> truthy (ueRequestId e) \<Longrightarrow>
    \<forall>m \<in> set (ueMessages e). authorized_id ce A m"
  shows "keeps (chat_step A) (handleUpsert ce e)"
  unfolding handleUpsert_def
  by (intro chat_steps.keeps_rules store_step handleMessage_step) (use assms in auto)

end

text \<open>The executor of the service is one.\<close>

lemma chat_executorI:
  assumes "ceExecute ce = executor ex" and "others_sound_calls (exCommand ex)"
  shows "chat_executor ce"
proof
  show "keeps log_grows (ceExecute ce t key)" for t key
  proof (rule keepsI)
    fix w :: world
    have "world_sound w (after (ceExecute ce t key) w)"
      unfolding assms(1) by (rule keepsD [OF sound_executor [OF assms(2)]])
    then show "log_grows w (after (ceExecute ce t key) w)"
      unfolding log_grows_def on_first_def by (rule soundD(3))
  qed
qed

text \<open>
  The controller as the service wires it, with no other process at work between two targets of a
  bulk command.
\<close>

definition command_chat :: "executor_env \<Rightarrow> chat_reply chat_env \<Rightarrow> chat_reply chat_env" where
  "command_chat ex ce =
     ce\<lparr>ceExecute := executor (ex\<lparr>exCommand := (exCommand ex)\<lparr>cmOthers := (\<lambda>_ w. w)\<rparr>\<rparr>)\<rparr>"

interpretation service_chat: chat_executor "command_chat ex ce" for ex ce
  by (rule chat_executorI [of _ "ex\<lparr>exCommand := (exCommand ex)\<lparr>cmOthers := (\<lambda>_ w. w)\<rparr>\<rparr>"])
    (simp_all add: command_chat_def others_sound_calls_def on_first_def soundness.refl)

section \<open>A session\<close>

text \<open>
  What happens to the controller while the service runs: events of the socket, each with the
  environment of its moment, sockets that come and go, and what the rest of the service and the
  command line do to the database meanwhile.
\<close>

datatype chat_event =
    Upsert "chat_reply chat_env" upsert_event
  | SocketAttached
  | SocketLost
  | Elsewhere "world \<Rightarrow> world"

definition chat_action :: "chat_event \<Rightarrow> (chat_reply, unit) chat_io" where
  "chat_action ev =
     (case ev of
        Upsert ce e \<Rightarrow> bindE (handleUpsert ce e) (\<lambda>_. ret ())
      | SocketAttached \<Rightarrow> on_snd (writeE attach)
      | SocketLost \<Rightarrow> on_snd (writeE detach)
      | Elsewhere f \<Rightarrow> on_fst (writeE f))"

definition session :: "chat_event list \<Rightarrow> world \<times> chat_reply chat \<Rightarrow> world \<times> chat_reply chat" where
  "session events x = fold (\<lambda>ev. after (chat_action ev)) events x"

definition fair_event :: "chat_event \<Rightarrow> bool" where
  "fair_event ev \<longleftrightarrow>
     (case ev of
        Upsert ce e \<Rightarrow> \<exists>ex. ceExecute ce = executor ex \<and> others_sound_calls (exCommand ex)
      | Elsewhere f \<Rightarrow> \<forall>w. log_grows w (f w)
      | _ \<Rightarrow> True)"

text \<open>The identifiers of the messages that may run a command.\<close>

definition command_ids :: "chat_event list \<Rightarrow> string set" where
  "command_ids events =
     {i. \<exists>ce e m. Upsert ce e \<in> set events \<and> ueType e = ''notify'' \<and> \<not> truthy (ueRequestId e) \<and>
        m \<in> set (ueMessages e) \<and> isAuthorized ce m \<and> wmId m = Some i}"

lemma chat_action_step:
  assumes "fair_event ev" and "ev \<in> set events"
  shows "keeps (chat_step (command_ids events)) (chat_action ev)"
proof (cases ev)
  case (Upsert ce e)
  with assms(1) obtain ex where ex: "ceExecute ce = executor ex" "others_sound_calls (exCommand ex)"
    unfolding fair_event_def by fastforce
  have "authorized_id ce (command_ids events) m"
    if "ueType e = ''notify''" "\<not> truthy (ueRequestId e)" "m \<in> set (ueMessages e)" for m
    unfolding authorized_id_def
  proof (intro impI)
    assume a: "isAuthorized ce m" "truthy (wmId m)"
    then obtain i where i: "wmId m = Some i" by (cases "wmId m") (simp_all add: truthy_def)
    have "Upsert ce e \<in> set events" using assms(2) Upsert by simp
    with that a(1) i have "i \<in> command_ids events" unfolding command_ids_def by blast
    then show "or_else (wmId m) [] \<in> command_ids events" by (simp add: i or_else_def)
  qed
  then have "keeps (chat_step (command_ids events)) (handleUpsert ce e)"
    by (intro chat_executor.handleUpsert_step [OF chat_executorI [OF ex]]) blast
  then show ?thesis
    unfolding Upsert chat_action_def chat_event.case
    by (rule chat_steps.keeps_bind) (rule chat_steps.keeps_ret)
next
  case (Elsewhere f)
  with assms(1) have f: "log_grows w (f w)" for w by (cases w) (simp add: fair_event_def)
  show ?thesis
  proof (rule keepsI)
    fix x :: "world \<times> chat_reply chat"
    obtain w c where x: "x = (w, c)" by (cases x)
    show "chat_step (command_ids events) x (after (chat_action ev) x)"
      using chat_step_growing [OF f [of w], of c c]
      by (simp add: Elsewhere chat_action_def x run_on_fst after_def)
  qed
qed (auto simp: chat_action_def keeps_def run_on_snd after_def attach_def detach_def chat_step_def
  processed_def)

lemma session_step:
  assumes "\<forall>ev \<in> set events. fair_event ev"
  shows "chat_step (command_ids events) x (session events x)"
proof -
  have "chat_step (command_ids events) x (fold (\<lambda>ev. after (chat_action ev)) evs x)"
    if "set evs \<subseteq> set events" for evs x
    using that
  proof (induction evs arbitrary: x)
    case Nil
    show ?case by (simp add: chat_steps.refl)
  next
    case (Cons ev evs)
    have 1: "chat_step (command_ids events) x (after (chat_action ev) x)"
      by (rule keepsD [OF chat_action_step]) (use Cons.prems assms in auto)
    have 2: "chat_step (command_ids events) (after (chat_action ev) x)
        (fold (\<lambda>ev. after (chat_action ev)) evs (after (chat_action ev) x))"
      using Cons by simp
    show ?case using chat_steps.trans [OF 1 2] by simp
  qed
  then show ?thesis by (simp add: session_def)
qed


text \<open>A command that is delivered twice, with a reconnect between, runs once.\<close>

definition sample_chat_env :: "chat_reply chat_env" where
  "sample_chat_env = \<lparr>ceOwn = [''49123@s.whatsapp.net''], ceCodec = sample_codec,
     ceStartedAt = 0, ceHash = (\<lambda>t. ''#'' @ t), ceDate = parse_iso, ceClock = 0,
     ceEncode = (\<lambda>_. ''m''), ceExecute = (\<lambda>_ _. ret HelpText), ceSendFails = (\<lambda>_. False)\<rparr>"

definition sample_content :: message_content where
  "sample_content = \<lparr>mcConversation = Some '' /help'', mcExtended = None, mcImage = None,
     mcVideo = None, mcDocument = None\<rparr>"

definition sample_command :: wa_message where
  "sample_command = \<lparr>wmFromMe = True, wmRemoteJid = Some ''49123:4@s.whatsapp.net'',
     wmParticipant = None, wmId = Some ''M1'', wmContent = Some sample_content,
     wmStamp = Stamp 0\<rparr>"

definition sample_events :: "chat_event list" where
  "sample_events =
     (let up = Upsert (command_chat sample_executor sample_chat_env)
        \<lparr>ueMessages = [sample_command, sample_command\<lparr>wmFromMe := False\<rparr>], ueType = ''notify'',
         ueRequestId = None\<rparr>
      in [SocketAttached, up, SocketLost, Elsewhere (\<lambda>w. w), SocketAttached, up])"

definition sample_chat :: "world \<times> chat_reply chat" where
  "sample_chat = ((sample_db, Map.empty), \<lparr>chAttached = False, chExecuted = [], chSent = []\<rparr>)"

lemma sample_events_fair: "\<forall>ev \<in> set sample_events. fair_event ev"
  by (auto simp: sample_events_def Let_def fair_event_def command_chat_def log_grows_def
      others_sound_calls_def on_first_def soundness.refl
      intro!: exI [of _ "sample_executor\<lparr>exCommand := (exCommand sample_executor)\<lparr>cmOthers := \<lambda>_ w. w\<rparr>\<rparr>"])

abbreviation "foreign_command \<equiv> sample_command\<lparr>wmFromMe := False\<rparr>"

lemma sample_messages:
  "isAuthorized sample_chat_env sample_command" "\<not> isForwarded sample_command"
  "or_else (messageText sample_command) [] = '' /help''" "js_trim '' /help'' = ''/help''"
  "js_starts_with ''/help'' ''/''" "wmId sample_command = Some ''M1''"
  "\<not> is_forward_command ''/help''"
  by code_simp+

lemma wired_authorized: "isAuthorized (command_chat ex ce) m = isAuthorized ce m"
  by (simp add: isAuthorized_def own_jid_def recent_def command_chat_def split: message_stamp.split)

lemma executor_help: "executor ex ''/help'' key w = (Inr HelpText, w)"
proof -
  have "js_trim ''/help'' = ''/help''" and "js_words ''/help'' = [''/help'']" by code_simp+
  then show ?thesis
    by (simp add: executor_def bulk_tail_def plain_command_def forward_heads_def run_catch)
qed

lemma help_answered:
  "handle_command (command_chat ex sample_chat_env) i ''/help'' m ((s, fs), c) =
    (if i \<in> dom (dbControllerMessages s) then (Inr False, ((s, fs), c))
     else (Inr True, ((after (markProcessed i ''#/help'' (toISOString 0)) s, fs),
       c\<lparr>chExecuted := chExecuted c @ [i], chSent := chSent c @ [(i, Answer HelpText)]\<rparr>)))"
proof -
  let ?mk = "markProcessed i ''#/help'' (toISOString 0)"
  have mk: "?mk s = (if i \<in> dom (dbControllerMessages s) then (Inr False, s) else (Inr True, after ?mk s))"
    using markProcessed_cases [of i "''#/help''" "toISOString 0" s] by blast
  have e: "ceHash (command_chat ex sample_chat_env) ''/help'' = ''#/help''"
    "ceClock (command_chat ex sample_chat_env) = 0"
    "ceSendFails (command_chat ex sample_chat_env) i = False"
    "ceExecute (command_chat ex sample_chat_env) ''/help'' None w = (Inr HelpText, w)" for w
    by (simp_all add: command_chat_def sample_chat_env_def executor_help)
  show ?thesis
  proof (cases "i \<in> dom (dbControllerMessages s)")
    case True
    then have "?mk s = (Inr False, s)" using mk by simp
    then show ?thesis
      using True by (simp add: handle_command_def e run_bind on_fst_result)
  next
    case False
    then have "?mk s = (Inr True, after ?mk s)" using mk by simp
    then have "on_fst (on_fst ?mk) ((s, fs), c) = (Inr True, ((after ?mk s, fs), c))"
      by (intro on_fst_result)
    then show ?thesis
      using False
      by (simp add: handle_command_def e run_bind answer_command_def run_catch run_command_def
          sample_messages on_fst_result [OF e(4)] run_on_snd send_reply_def) (simp add: after_def)
  qed
qed

lemma sample_handled:
  assumes "chAttached c"
  shows "after (chat_action (Upsert (command_chat ex sample_chat_env)
     \<lparr>ueMessages = [sample_command, foreign_command], ueType = ''notify'', ueRequestId = None\<rparr>))
     ((s, fs), c) =
   (if ''M1'' \<in> dom (dbControllerMessages s) then ((s, fs), c)
    else ((after (markProcessed ''M1'' ''#/help'' (toISOString 0)) s, fs),
      c\<lparr>chExecuted := chExecuted c @ [''M1''], chSent := chSent c @ [(''M1'', Answer HelpText)]\<rparr>))"
proof -
  let ?ce = "command_chat ex sample_chat_env"
  have 1: "storeForwardSource ?ce sample_command = ret ()" "storeForwardSource ?ce foreign_command = ret ()"
    by (simp_all add: storeForwardSource_def Let_def sample_messages(2))
  have 2: "on_fst (on_fst (ret ())) x = (Inr (), x)" for x :: "world \<times> chat_reply chat"
    by (cases x; cases "fst x") (simp add: on_fst_result)
  have 3: "handleMessage ?ce foreign_command = ret False"
    by (simp add: handleMessage_def isAuthorized_def)
  have 4: "handleMessage ?ce sample_command ((s, fs), c) =
      handle_command ?ce ''M1'' ''/help'' sample_command ((s, fs), c)"
    using assms by (simp add: handleMessage_def wired_authorized sample_messages truthy_def
      or_else_def [of "Some x" y for x y])
  show ?thesis
    by (simp add: chat_action_def handleUpsert_def truthy_def run_bind 1 2 3 4 help_answered after_def)
qed

lemma sample_session: "chExecuted (snd (session sample_events sample_chat)) = [''M1'']"
proof -
  let ?s = "after (markProcessed ''M1'' ''#/help'' (toISOString 0)) sample_db"
  have l: "''M1'' \<notin> dom (dbControllerMessages sample_db)" "''M1'' \<in> dom (dbControllerMessages ?s)"
    using markProcessed_cases [of "''M1''" "''#/help''" "toISOString 0" sample_db]
    by (simp_all add: sample_db_def empty_db_def)
  have a: "after (chat_action SocketAttached) (w, c) = (w, attach c)"
    "after (chat_action SocketLost) (w, c) = (w, detach c)"
    "after (chat_action (Elsewhere (\<lambda>w. w))) (w, c) = (w, c)"
    for w and c :: "chat_reply chat"
    by (simp_all add: chat_action_def run_on_snd run_on_fst after_def)
  show ?thesis
    by (simp add: session_def sample_events_def sample_chat_def Let_def sample_handled a attach_def
        detach_def l)
qed


end
