(* ===== verification/ConnectionManager.thy ===== *)
theory ConnectionManager
  imports RetryPolicy Targets QueueWorker
begin

text \<open>
  The connection manager, \<open>src/src/whatsapp/connection-manager.ts\<close>: one WhatsApp socket that is opened,
  replaced and given up, with the state it reports and the pause it sets for the worker.  The
  handlers are operations on the database and the manager's fields; the event loop is a relation
  between states, one handler per event, with the timers and promises that are pending as guards.

  The listener of the events of a socket is a closure; only the one of the newest socket acts, so
  its variables are fields here (\<open>cnSettled\<close>, \<open>cnRestarts\<close>).  A socket is named by the number of its
  generation.  \<open>cnWaiting\<close> counts the reconnect timers that wait for the pending promise and
  \<open>cnRetries\<close> those whose rejection handler is due.  \<open>cnCreated\<close>, \<open>cnSockets\<close> and \<open>cnClosed\<close> record
  what was created: the newest socket, their number, and whether the newest has closed.
\<close>

section \<open>State\<close>

datatype conn_state =
    CONNECTING | CONNECTED | DISCONNECTED | RECONNECTING | STATE_AUTH_REQUIRED | STATE_LOGGED_OUT | FATAL

definition show_conn_state :: "conn_state \<Rightarrow> string" where
  "show_conn_state st =
     (case st of CONNECTING \<Rightarrow> ''CONNECTING'' | CONNECTED \<Rightarrow> ''CONNECTED''
      | DISCONNECTED \<Rightarrow> ''DISCONNECTED'' | RECONNECTING \<Rightarrow> ''RECONNECTING''
      | STATE_AUTH_REQUIRED \<Rightarrow> ''AUTH_REQUIRED'' | STATE_LOGGED_OUT \<Rightarrow> ''LOGGED_OUT''
      | FATAL \<Rightarrow> ''FATAL'')"

record connection =
  cnSocket :: "nat option"
  cnState :: conn_state
  cnConnecting :: bool
  cnGeneration :: nat
  cnStopped :: bool
  cnReconnectAttempt :: nat
  cnTimer :: "int option"
  cnAutoReconnect :: bool
  cnSettled :: bool
  cnRestarts :: nat
  cnRestartDue :: bool
  cnWaiting :: nat
  cnRetries :: nat
  cnCreated :: nat
  cnSockets :: nat
  cnClosed :: bool

definition new_connection :: connection where
  "new_connection = \<lparr>cnSocket = None, cnState = DISCONNECTED, cnConnecting = False, cnGeneration = 0,
     cnStopped = False, cnReconnectAttempt = 0, cnTimer = None, cnAutoReconnect = True,
     cnSettled = True, cnRestarts = 0, cnRestartDue = False, cnWaiting = 0, cnRetries = 0,
     cnCreated = 0, cnSockets = 0, cnClosed = True\<rparr>"

type_synonym 'a conn_io = "(database \<times> connection, error, 'a) io"

text \<open>
  The environment of one event: the listener of \<open>onSocketChange\<close>, the reason codes of the library,
  the identity of the account, the clock, the random number, and what fails.
\<close>

record disconnect_codes =
  dcRestartRequired :: int
  dcLoggedOut :: int
  dcBadSession :: int
  dcMismatch :: int
  dcForbidden :: int

record conn_env =
  cvListener :: "nat option \<Rightarrow> database \<Rightarrow> database"
  cvCodes :: disconnect_codes
  cvCodec :: jid_codec
  cvConfig :: app_config
  cvUserId :: "string option"
  cvUserLid :: "string option"
  cvNow :: string
  cvRandom :: rat
  cvCreateFails :: "error option"
  cvSaveFails :: bool

section \<open>Handlers\<close>

definition conn_write :: "(connection \<Rightarrow> connection) \<Rightarrow> unit conn_io" where
  "conn_write f = on_snd (writeE f)"

definition setState :: "conn_env \<Rightarrow> conn_state \<Rightarrow> unit conn_io" where
  "setState env st =
     bindE (conn_write (\<lambda>c. c\<lparr>cnState := st\<rparr>)) (\<lambda>_.
     on_fst (state_set ''connectivity'' (Some (show_conn_state st)) (cvNow env)))"

definition setSocket :: "conn_env \<Rightarrow> nat option \<Rightarrow> unit conn_io" where
  "setSocket env socket =
     bindE (conn_write (\<lambda>c. c\<lparr>cnSocket := socket\<rparr>)) (\<lambda>_. on_fst (writeE (cvListener env socket)))"

text \<open>The pending promise of \<open>connect\<close> is settled.\<close>

definition resolved :: "connection \<Rightarrow> connection" where
  "resolved c = c\<lparr>cnConnecting := False, cnWaiting := 0\<rparr>"

definition rejected :: "connection \<Rightarrow> connection" where
  "rejected c =
     c\<lparr>cnConnecting := False, cnRetries := cnRetries c + cnWaiting c, cnWaiting := 0\<rparr>"

definition new_socket :: "nat \<Rightarrow> connection \<Rightarrow> connection" where
  "new_socket restarts c =
     c\<lparr>cnSettled := False, cnRestarts := restarts, cnCreated := cnGeneration c,
       cnSockets := Suc (cnSockets c), cnClosed := False\<rparr>"

definition createSocket :: "conn_env \<Rightarrow> nat \<Rightarrow> unit conn_io" where
  "createSocket env restarts =
     bindE (conn_write (\<lambda>c. c\<lparr>cnGeneration := Suc (cnGeneration c)\<rparr>)) (\<lambda>_.
     bindE (readE snd) (\<lambda>c.
     bindE (setState env (if 0 < cnReconnectAttempt c then RECONNECTING else CONNECTING)) (\<lambda>_.
       case cvCreateFails env of
         Some e \<Rightarrow> throw e
       | None \<Rightarrow>
           bindE (conn_write (new_socket restarts)) (\<lambda>_. setSocket env (Some (cnGeneration c))))))"

text \<open>
  \<open>connect\<close>; the number is 1 for a call of the reconnect timer, which handles the rejection of the
  promise, and 0 for a caller's own.
\<close>

definition connect :: "conn_env \<Rightarrow> bool \<Rightarrow> nat \<Rightarrow> unit conn_io" where
  "connect env autoReconnect waiter =
     bindE (readE snd) (\<lambda>c.
       if cnState c = CONNECTED \<and> cnSocket c \<noteq> None then ret ()
       else if cnConnecting c then conn_write (\<lambda>c. c\<lparr>cnWaiting := cnWaiting c + waiter\<rparr>)
       else bindE (conn_write (\<lambda>c. c\<lparr>cnStopped := False, cnAutoReconnect := autoReconnect,
                     cnConnecting := True, cnWaiting := waiter\<rparr>)) (\<lambda>_.
            catchE (createSocket env 0) (\<lambda>_. conn_write rejected)))"

definition scheduleReconnect :: "conn_env \<Rightarrow> unit conn_io" where
  "scheduleReconnect env =
     bindE (readE snd) (\<lambda>c.
       if cnTimer c \<noteq> None \<or> cnStopped c then ret ()
       else bindE (conn_write (\<lambda>c. c\<lparr>cnReconnectAttempt := Suc (cnReconnectAttempt c)\<rparr>)) (\<lambda>_.
            bindE (setState env RECONNECTING) (\<lambda>_.
            conn_write (\<lambda>c. c\<lparr>cnTimer := Some
              (retryDelayMs (cnReconnectAttempt c) (cfgRetryBaseMs (cvConfig env))
                (cfgRetryMaxMs (cvConfig env)) (cvRandom env))\<rparr>))))"

definition store_identity :: "conn_env \<Rightarrow> string \<Rightarrow> string option \<Rightarrow> unit db_io" where
  "store_identity env key jid =
     (if \<not> present jid then ret ()
      else case normalizeJid (cvCodec env) (or_else jid []) of
          Inl e \<Rightarrow> throw e
        | Inr j \<Rightarrow> state_set key (Some j) (cvNow env))"

definition conn_audit :: "conn_env \<Rightarrow> string \<Rightarrow> string \<Rightarrow> json option \<Rightarrow> unit db_io" where
  "conn_audit env event actor details =
     audit_add event \<lparr>aoActor = Some actor, aoEntityType = None, aoEntityId = None,
       aoDetails = details\<rparr> (cvNow env)"

definition opened :: "conn_env \<Rightarrow> unit conn_io" where
  "opened env =
     bindE (conn_write (\<lambda>c. c\<lparr>cnSettled := True, cnReconnectAttempt := 0\<rparr>)) (\<lambda>_.
     bindE (setState env CONNECTED) (\<lambda>_.
     bindE (on_fst (
       bindE (store_identity env ''own_jid'' (cvUserId env)) (\<lambda>_.
       bindE (store_identity env ''own_lid'' (cvUserLid env)) (\<lambda>_.
       bindE (state_set ''last_connection_at'' (Some (cvNow env)) (cvNow env)) (\<lambda>_.
       bindE (state_remove pause_reason) (\<lambda>_.
       bindE (state_remove pause_until) (\<lambda>_.
       conn_audit env ''connection_restored'' ''daemon'' None)))))) ) (\<lambda>_.
     conn_write resolved)))"

definition fatal_status :: "conn_env \<Rightarrow> int option \<Rightarrow> bool" where
  "fatal_status env status \<longleftrightarrow>
     status = Some (dcBadSession (cvCodes env)) \<or> status = Some (dcMismatch (cvCodes env)) \<or>
     status = Some (dcForbidden (cvCodes env))"

definition logged_out_status :: "conn_env \<Rightarrow> int option \<Rightarrow> bool" where
  "logged_out_status env status \<longleftrightarrow> status = Some (dcLoggedOut (cvCodes env))"

definition give_up :: "conn_env \<Rightarrow> conn_state \<Rightarrow> string \<Rightarrow> json \<Rightarrow> unit conn_io" where
  "give_up env st event details =
     bindE (setState env st) (\<lambda>_.
     on_fst (bindE (state_set pause_reason (Some (show_conn_state st)) (cvNow env)) (\<lambda>_.
       conn_audit env event ''connection'' (Some details))))"

definition status_json :: "int option \<Rightarrow> json" where
  "status_json status = (case status of None \<Rightarrow> JNull | Some n \<Rightarrow> JNum n)"

definition restart_wanted :: "conn_env \<Rightarrow> int option \<Rightarrow> connection \<Rightarrow> bool" where
  "restart_wanted env status c \<longleftrightarrow>
     status = Some (dcRestartRequired (cvCodes env)) \<and> \<not> cnSettled c \<and> \<not> cnStopped c \<and>
     cnRestarts c < 2"

definition closed :: "conn_env \<Rightarrow> int option \<Rightarrow> unit conn_io" where
  "closed env status =
     bindE (setSocket env None) (\<lambda>_.
     bindE (readE snd) (\<lambda>c.
       if restart_wanted env status c then
         bindE (conn_write (\<lambda>c. c\<lparr>cnSettled := True\<rparr>)) (\<lambda>_.
         bindE (setState env RECONNECTING) (\<lambda>_.
         conn_write (\<lambda>c. c\<lparr>cnRestartDue := True\<rparr>)))
       else
         bindE
           (if logged_out_status env status
            then give_up env STATE_LOGGED_OUT ''auth_required'' (JObj [(''reason'', JStr ''logged_out'')])
            else if fatal_status env status
            then give_up env FATAL ''connection_fatal'' (JObj [(''status'', status_json status)])
            else bindE (setState env DISCONNECTED) (\<lambda>_.
                 if \<not> cnStopped c \<and> cnAutoReconnect c then scheduleReconnect env else ret ())) (\<lambda>_.
         if cnSettled c then ret ()
         else conn_write (\<lambda>c. rejected (c\<lparr>cnSettled := True\<rparr>)))))"

datatype conn_update = UpdateOther | UpdateOpen | UpdateClose "int option"

definition on_update :: "conn_env \<Rightarrow> nat \<Rightarrow> conn_update \<Rightarrow> unit conn_io" where
  "on_update env g u =
     bindE (readE snd) (\<lambda>c.
       if g \<noteq> cnGeneration c then ret ()
       else case u of
           UpdateOther \<Rightarrow> ret ()
         | UpdateOpen \<Rightarrow> opened env
         | UpdateClose status \<Rightarrow> closed env status)"

text \<open>The continuation of a protocol restart, after the credentials are saved and the pause.\<close>

definition restart :: "conn_env \<Rightarrow> unit conn_io" where
  "restart env =
     bindE (readE snd) (\<lambda>c.
     bindE (conn_write (\<lambda>c. c\<lparr>cnRestartDue := False\<rparr>)) (\<lambda>_.
       if cvSaveFails env \<or> cnStopped c then conn_write rejected
       else catchE (createSocket env (Suc (cnRestarts c))) (\<lambda>_. conn_write rejected)))"

definition timer_fires :: "conn_env \<Rightarrow> unit conn_io" where
  "timer_fires env =
     bindE (readE snd) (\<lambda>c.
     bindE (conn_write (\<lambda>c. c\<lparr>cnTimer := None\<rparr>)) (\<lambda>_. connect env (cnAutoReconnect c) 1))"

definition retry_reconnect :: "conn_env \<Rightarrow> unit conn_io" where
  "retry_reconnect env =
     bindE (conn_write (\<lambda>c. c\<lparr>cnRetries := cnRetries c - 1\<rparr>)) (\<lambda>_. scheduleReconnect env)"

text \<open>\<open>disconnect\<close> and \<open>logout\<close>, each in two parts: what comes before and after the wait for the socket.\<close>

definition disconnect_begin :: "conn_env \<Rightarrow> unit conn_io" where
  "disconnect_begin env =
     bindE (conn_write (\<lambda>c. c\<lparr>cnStopped := True, cnTimer := None\<rparr>)) (\<lambda>_.
     bindE (setSocket env None) (\<lambda>_.
     conn_write (\<lambda>c. c\<lparr>cnGeneration := Suc (cnGeneration c)\<rparr>)))"

definition disconnect_end :: "conn_env \<Rightarrow> unit conn_io" where
  "disconnect_end env = setState env DISCONNECTED"

definition logout_begin :: "unit conn_io" where
  "logout_begin = conn_write (\<lambda>c. c\<lparr>cnStopped := True\<rparr>)"

definition logout_end :: "conn_env \<Rightarrow> unit conn_io" where
  "logout_end env =
     bindE (setSocket env None) (\<lambda>_.
     bindE (on_fst (
       bindE auth_clear (\<lambda>_.
       bindE (state_remove ''own_jid'') (\<lambda>_.
       bindE (state_remove ''own_lid'') (\<lambda>_.
       state_set pause_reason (Some ''AUTH_REQUIRED'') (cvNow env)))))) (\<lambda>_.
     bindE (setState env STATE_LOGGED_OUT) (\<lambda>_.
     on_fst (conn_audit env ''auth_logout'' ''cli'' None))))"

section \<open>The event loop\<close>

datatype conn_event =
    Connect bool
  | Update nat conn_update
  | PairingFailed
  | RestartDue
  | TimerDue
  | RetryDue
  | DisconnectBegin
  | DisconnectEnd
  | LogoutBegin
  | LogoutEnd

definition is_close :: "conn_update \<Rightarrow> bool" where
  "is_close u \<longleftrightarrow> (case u of UpdateClose _ \<Rightarrow> True | _ \<Rightarrow> False)"

definition conn_action :: "conn_env \<Rightarrow> conn_event \<Rightarrow> unit conn_io" where
  "conn_action env ev =
     (case ev of
        Connect autoReconnect \<Rightarrow> connect env autoReconnect 0
      | Update g u \<Rightarrow>
          bindE (conn_write (\<lambda>c. if g = cnCreated c \<and> is_close u then c\<lparr>cnClosed := True\<rparr> else c)) (\<lambda>_. on_update env g u)
      | PairingFailed \<Rightarrow> conn_write rejected
      | RestartDue \<Rightarrow> restart env
      | TimerDue \<Rightarrow> timer_fires env
      | RetryDue \<Rightarrow> retry_reconnect env
      | DisconnectBegin \<Rightarrow> disconnect_begin env
      | DisconnectEnd \<Rightarrow> disconnect_end env
      | LogoutBegin \<Rightarrow> logout_begin
      | LogoutEnd \<Rightarrow> logout_end env)"

text \<open>
  When an event can occur: a pending timer, restart or rejection; an update of a socket that exists
  and, for the newest, has not closed (a socket reports nothing after its close).
\<close>

definition enabled :: "conn_event \<Rightarrow> connection \<Rightarrow> bool" where
  "enabled ev c \<longleftrightarrow>
     (case ev of
        Update g u \<Rightarrow> 0 < g \<and> (g < cnCreated c \<or> g = cnCreated c \<and> \<not> cnClosed c)
      | PairingFailed \<Rightarrow> cnConnecting c
      | RestartDue \<Rightarrow> cnRestartDue c
      | TimerDue \<Rightarrow> cnTimer c \<noteq> None
      | RetryDue \<Rightarrow> 0 < cnRetries c
      | _ \<Rightarrow> True)"

text \<open>
  A run: events in their order, between them whatever the rest of the program does to the database,
  as long as it does not lift the pause of a lost authorisation.
\<close>

definition lost_reasons :: "string list" where
  "lost_reasons = [''AUTH_REQUIRED'', ''LOGGED_OUT'', ''FATAL'']"

definition held :: "database \<Rightarrow> bool" where
  "held s \<longleftrightarrow> (\<exists>r \<in> set lost_reasons. state_get pause_reason s = Some r)"

inductive manager_run :: "conn_event list \<Rightarrow> database \<times> connection \<Rightarrow> database \<times> connection \<Rightarrow> bool" where
  start: "manager_run [] x x"
| event: "manager_run evs x y \<Longrightarrow> enabled ev (snd y) \<Longrightarrow>
    (\<And>g s. held s \<Longrightarrow> held (cvListener env g s)) \<Longrightarrow>
    manager_run (evs @ [ev]) x (after (conn_action env ev) y)"
| elsewhere: "manager_run evs x (s, c) \<Longrightarrow> (held s \<Longrightarrow> held t) \<Longrightarrow> manager_run evs x (t, c)"

inductive_cases manager_run_emptyE: "manager_run [] x y"
inductive_cases manager_run_snocE: "manager_run (evs @ [ev]) x y"

section \<open>The handlers on the fields of the manager\<close>

lemma run_conn_write [simp]: "conn_write f (s, c) = (Inr (), (s, f c))"
  by (simp add: conn_write_def run_on_snd after_def)

lemma run_setState [simp]:
  "setState env st (s, c) =
    (Inr (), (after (state_set ''connectivity'' (Some (show_conn_state st)) (cvNow env)) s,
      c\<lparr>cnState := st\<rparr>))"
  by (simp add: setState_def run_bind run_on_fst run_state_set)

lemma run_setSocket [simp]:
  "setSocket env g (s, c) = (Inr (), (cvListener env g s, c\<lparr>cnSocket := g\<rparr>))"
  by (simp add: setSocket_def run_bind run_on_fst after_def)

text \<open>The fields after a handler, whatever the database.\<close>

lemma snd_createSocket:
  "snd (after (createSocket env n) (s, c)) =
    (let c' = c\<lparr>cnGeneration := Suc (cnGeneration c),
        cnState := (if 0 < cnReconnectAttempt c then RECONNECTING else CONNECTING)\<rparr>
     in if cvCreateFails env = None then (new_socket n c')\<lparr>cnSocket := Some (Suc (cnGeneration c))\<rparr>
        else c')"
  "cvCreateFails env = None \<Longrightarrow> fst (createSocket env n (s, c)) = Inr ()"
  "cvCreateFails env = Some e \<Longrightarrow> fst (createSocket env n (s, c)) = Inl e"
  by (auto simp: createSocket_def run_bind after_def new_socket_def Let_def split: option.split)

lemma snd_create_or_reject:
  "snd (after (catchE (createSocket env n) (\<lambda>_. conn_write rejected)) (s, c)) =
    (if cvCreateFails env = None then snd (after (createSocket env n) (s, c))
     else rejected (snd (after (createSocket env n) (s, c))))"
  by (cases "createSocket env n (s, c)"; cases "cvCreateFails env")
    (use snd_createSocket(2) [of env n s c] snd_createSocket(3) [of env _ n s c] in \<open>auto simp: run_catch after_def\<close>)

lemma snd_scheduleReconnect:
  "snd (after (scheduleReconnect env) (s, c)) =
    (if cnTimer c \<noteq> None \<or> cnStopped c then c
     else c\<lparr>cnReconnectAttempt := Suc (cnReconnectAttempt c), cnState := RECONNECTING,
       cnTimer := Some (retryDelayMs (Suc (cnReconnectAttempt c)) (cfgRetryBaseMs (cvConfig env))
         (cfgRetryMaxMs (cvConfig env)) (cvRandom env))\<rparr>)"
  by (simp add: scheduleReconnect_def run_bind after_def)

lemma run_scheduleReconnect:
  "\<exists>s'. scheduleReconnect env (u, c) = (Inr (), (s', snd (after (scheduleReconnect env) (s, c))))"
  by (simp add: snd_scheduleReconnect) (simp add: scheduleReconnect_def run_bind)

lemma snd_connect:
  "snd (after (connect env auto w) (s, c)) =
    (if cnState c = CONNECTED \<and> cnSocket c \<noteq> None then c
     else if cnConnecting c then c\<lparr>cnWaiting := cnWaiting c + w\<rparr>
     else snd (after (catchE (createSocket env 0) (\<lambda>_. conn_write rejected))
       (s, c\<lparr>cnStopped := False, cnAutoReconnect := auto, cnConnecting := True, cnWaiting := w\<rparr>)))"
  by (auto simp: connect_def run_bind after_def)

lemma snd_opened:
  "snd (after (opened env) (s, c)) = c\<lparr>cnSettled := True, cnReconnectAttempt := 0, cnState := CONNECTED\<rparr> \<or>
   snd (after (opened env) (s, c)) =
     resolved (c\<lparr>cnSettled := True, cnReconnectAttempt := 0, cnState := CONNECTED\<rparr>)"
  by (simp add: opened_def run_bind [of "conn_write f" for f] run_bind [of "setState e st" for e st]
      run_bind [of "on_fst m" for m] run_on_fst after_def split: sum.split prod.split)

lemma run_give_up:
  "\<exists>s'. give_up env st e d (s, c) = (Inr (), (s', c\<lparr>cnState := st\<rparr>))"
  by (simp add: give_up_def run_bind run_on_fst run_state_set conn_audit_def run_audit_add)

lemma snd_closed:
  "snd (after (closed env status) (s, c)) =
    (let c1 = c\<lparr>cnSocket := None\<rparr> in
     if restart_wanted env status c1
     then c1\<lparr>cnSettled := True, cnState := RECONNECTING, cnRestartDue := True\<rparr>
     else let c2 =
         (if logged_out_status env status then c1\<lparr>cnState := STATE_LOGGED_OUT\<rparr>
          else if fatal_status env status then c1\<lparr>cnState := FATAL\<rparr>
          else if \<not> cnStopped c \<and> cnAutoReconnect c
          then snd (after (scheduleReconnect env) (s, c1\<lparr>cnState := DISCONNECTED\<rparr>))
          else c1\<lparr>cnState := DISCONNECTED\<rparr>)
       in if cnSettled c then c2 else rejected (c2\<lparr>cnSettled := True\<rparr>))"
proof -
  let ?s = "cvListener env None s" and ?c = "c\<lparr>cnSocket := None\<rparr>"
  consider (restart) "restart_wanted env status ?c"
    | (out) "\<not> restart_wanted env status ?c" "logged_out_status env status"
    | (fatal) "\<not> restart_wanted env status ?c" "\<not> logged_out_status env status" "fatal_status env status"
    | (other) "\<not> restart_wanted env status ?c" "\<not> logged_out_status env status" "\<not> fatal_status env status"
    by blast
  then show ?thesis
  proof cases
    case restart
    then show ?thesis by (simp add: closed_def run_bind after_def)
  next
    case out
    obtain s' where "give_up env STATE_LOGGED_OUT ''auth_required'' (JObj [(''reason'', JStr ''logged_out'')])
        (?s, ?c) = (Inr (), (s', ?c\<lparr>cnState := STATE_LOGGED_OUT\<rparr>))"
      using run_give_up by blast
    with out show ?thesis by (simp add: closed_def run_bind after_def Let_def)
  next
    case fatal
    obtain s' where "give_up env FATAL ''connection_fatal'' (JObj [(''status'', status_json status)])
        (?s, ?c) = (Inr (), (s', ?c\<lparr>cnState := FATAL\<rparr>))"
      using run_give_up by blast
    with fatal show ?thesis by (simp add: closed_def run_bind after_def Let_def)
  next
    case other
    let ?d = "?c\<lparr>cnState := DISCONNECTED\<rparr>"
    let ?s1 = "after (state_set ''connectivity'' (Some (show_conn_state DISCONNECTED)) (cvNow env)) ?s"
    obtain s' where "scheduleReconnect env (?s1, ?d) =
        (Inr (), (s', snd (after (scheduleReconnect env) (s, ?d))))"
      using run_scheduleReconnect [of env ?s1 ?d s] by blast
    with other show ?thesis
      unfolding after_def [of "closed env status"] by (simp add: closed_def run_bind Let_def)
  qed
qed

lemmas conn_fields = snd_create_or_reject snd_createSocket(1) snd_scheduleReconnect snd_connect
  snd_closed new_socket_def rejected_def resolved_def Let_def

section \<open>What every run keeps\<close>

text \<open>
  The shape of the manager in every reachable state: the current socket is the newest one, and open
  unless a later attempt failed before it had one; there have been at most two protocol restarts
  in a row; a reconnect waits at least 100 ms; and only a pending promise is waited for.
\<close>

definition conn_ok :: "connection \<Rightarrow> bool" where
  "conn_ok c \<longleftrightarrow>
     (\<forall>g. cnSocket c = Some g \<longrightarrow>
        g = cnCreated c \<and> (cnGeneration c = cnCreated c \<longrightarrow> \<not> cnClosed c)) \<and>
     cnCreated c \<le> cnGeneration c \<and> cnRestarts c \<le> 2 \<and>
     (cnRestartDue c \<longrightarrow> cnRestarts c < 2) \<and>
     (\<forall>d. cnTimer c = Some d \<longrightarrow> 100 \<le> d) \<and>
     (0 < cnWaiting c \<longrightarrow> cnConnecting c)"

lemma retryDelayMs_floor: "100 \<le> retryDelayMs a b m r"
  by (simp add: retryDelayMs_def Let_def)

lemma snd_conn_action:
  "snd (after (conn_action env (Connect auto)) (s, c)) = snd (after (connect env auto 0) (s, c))"
  "snd (after (conn_action env (Update g u)) (s, c)) =
    (let c' = if g = cnCreated c \<and> is_close u then c\<lparr>cnClosed := True\<rparr> else c
     in if g \<noteq> cnGeneration c then c'
        else case u of UpdateOther \<Rightarrow> c' | UpdateOpen \<Rightarrow> snd (after (opened env) (s, c'))
          | UpdateClose st \<Rightarrow> snd (after (closed env st) (s, c')))"
  "snd (after (conn_action env PairingFailed) (s, c)) = rejected c"
  "snd (after (conn_action env RestartDue) (s, c)) =
    (if cvSaveFails env \<or> cnStopped c then rejected (c\<lparr>cnRestartDue := False\<rparr>)
     else snd (after (catchE (createSocket env (Suc (cnRestarts c))) (\<lambda>_. conn_write rejected))
       (s, c\<lparr>cnRestartDue := False\<rparr>)))"
  "snd (after (conn_action env TimerDue) (s, c)) =
    snd (after (connect env (cnAutoReconnect c) 1) (s, c\<lparr>cnTimer := None\<rparr>))"
  "snd (after (conn_action env RetryDue) (s, c)) =
    snd (after (scheduleReconnect env) (s, c\<lparr>cnRetries := cnRetries c - 1\<rparr>))"
  "snd (after (conn_action env DisconnectBegin) (s, c)) =
    c\<lparr>cnStopped := True, cnTimer := None, cnSocket := None, cnGeneration := Suc (cnGeneration c)\<rparr>"
  "snd (after (conn_action env DisconnectEnd) (s, c)) = c\<lparr>cnState := DISCONNECTED\<rparr>"
  "snd (after (conn_action env LogoutBegin) (s, c)) = c\<lparr>cnStopped := True\<rparr>"
  "snd (after (conn_action env LogoutEnd) (s, c)) = c\<lparr>cnSocket := None, cnState := STATE_LOGGED_OUT\<rparr>"
proof -
  have clear: "\<exists>t. auth_clear s = (Inr (), t)" for s
    by (simp add: auth_clear_def immediateTransaction_def run_atomically run_bind)
  show "snd (after (conn_action env LogoutEnd) (s, c)) =
      c\<lparr>cnSocket := None, cnState := STATE_LOGGED_OUT\<rparr>"
    using clear [of "cvListener env None s"] unfolding after_def [of "conn_action env LogoutEnd"]
    by (elim exE) (simp add: conn_action_def logout_end_def run_bind run_on_fst run_state_set
      run_state_remove conn_audit_def run_audit_add after_def [of auth_clear])
qed (simp_all add: conn_action_def run_bind on_update_def restart_def timer_fires_def
      retry_reconnect_def disconnect_begin_def disconnect_end_def logout_begin_def after_def
      split: conn_update.split)

lemma run_fields:
  assumes "manager_run evs x y" and "P (snd x)"
    and step: "\<And>env ev s c. ev \<in> set evs \<Longrightarrow> enabled ev c \<Longrightarrow> P c \<Longrightarrow>
      P (snd (after (conn_action env ev) (s, c)))"
  shows "P (snd y)"
  using assms(1,2) step
proof (induction rule: manager_run.induct)
  case (event evs x y ev env)
  have "P (snd y)" by (rule event.IH [OF event.prems(1)]) (simp add: event.prems(2))
  then have "P (snd (after (conn_action env ev) (fst y, snd y)))"
    by (intro event.prems(2) event.hyps) simp
  then show ?case by simp
qed simp_all

lemma conn_ok_action:
  assumes "conn_ok c" and "enabled ev c"
  shows "conn_ok (snd (after (conn_action env ev) (s, c)))"
proof (cases ev)
  case (Connect auto)
  with assms show ?thesis
    by (auto simp: snd_conn_action conn_fields conn_ok_def)
next
  case (Update g u)
  show ?thesis
  proof (cases "g = cnGeneration c")
    case False
    with assms Update show ?thesis by (auto simp: snd_conn_action conn_ok_def Let_def)
  next
    case True
    show ?thesis
    proof (cases u)
      case UpdateOther
      with assms Update True show ?thesis by (simp add: snd_conn_action conn_ok_def Let_def is_close_def)
    next
      case UpdateOpen
      with assms Update True snd_opened [of env s c] show ?thesis
        by (auto simp: snd_conn_action conn_ok_def Let_def is_close_def resolved_def)
    next
      case (UpdateClose status)
      with assms Update True show ?thesis
        by (auto simp: snd_conn_action conn_ok_def conn_fields is_close_def restart_wanted_def
            retryDelayMs_floor)
    qed
  qed
next
  case RestartDue
  with assms show ?thesis
    by (auto simp: snd_conn_action conn_fields conn_ok_def enabled_def)
next
  case TimerDue
  with assms show ?thesis by (auto simp: snd_conn_action conn_fields conn_ok_def)
next
  case RetryDue
  with assms show ?thesis
    by (auto simp: snd_conn_action conn_fields conn_ok_def retryDelayMs_floor)
qed (use assms in \<open>auto simp: snd_conn_action conn_ok_def rejected_def\<close>)

lemma conn_ok_run: "manager_run evs x y \<Longrightarrow> conn_ok (snd x) \<Longrightarrow> conn_ok (snd y)"
  by (erule run_fields) (simp_all add: conn_ok_action)

section \<open>How many sockets are opened\<close>

definition starts_attempt :: "conn_event \<Rightarrow> bool" where
  "starts_attempt ev \<longleftrightarrow> (case ev of Connect _ \<Rightarrow> True | TimerDue \<Rightarrow> True | _ \<Rightarrow> False)"

text \<open>Without a new attempt each socket is a protocol restart, and is counted as one.\<close>

lemma sockets_are_restarts:
  assumes "\<not> starts_attempt ev"
  shows "cnSockets (snd (after (conn_action env ev) (s, c))) + cnRestarts c =
    cnSockets c + cnRestarts (snd (after (conn_action env ev) (s, c)))"
proof (cases ev)
  case (Update g u)
  show ?thesis
  proof (cases u)
    case UpdateOpen
    with Update snd_opened [of env s c] show ?thesis
      by (auto simp: snd_conn_action Let_def is_close_def resolved_def)
  qed (auto simp: Update snd_conn_action conn_fields)
qed (use assms in \<open>auto simp: starts_attempt_def snd_conn_action conn_fields\<close>)

text \<open>
  C22.  An attempt to connect opens at most three sockets: its own and two for protocol restarts,
  however the server answers; and a manager that started from scratch is always in the shape of
  \<open>conn_ok\<close>.
\<close>

theorem attempt_opens_three:
  assumes "manager_run before ((s, new_connection)) x" and "starts_attempt ev"
    and "enabled ev (snd x)"
    and "manager_run evs (after (conn_action env ev) x) y" and "\<forall>e \<in> set evs. \<not> starts_attempt e"
  shows "cnSockets (snd y) \<le> cnSockets (snd x) + 3 \<and> conn_ok (snd y)"
proof -
  have x: "conn_ok (snd x)"
    using conn_ok_run [OF assms(1)] by (simp add: new_connection_def conn_ok_def)
  obtain u c where xu: "x = (u, c)" by (cases x)
  let ?z = "after (conn_action env ev) x"
  have z: "conn_ok (snd ?z)" using conn_ok_action [OF x assms(3), of env u] by (simp add: xu)
  have y: "conn_ok (snd y)" by (rule conn_ok_run [OF assms(4) z])
  have "cnSockets (snd y) + cnRestarts (snd ?z) = cnSockets (snd ?z) + cnRestarts (snd y)"
  proof (rule run_fields [OF assms(4)])
    fix env ev s and c :: connection
    assume "ev \<in> set evs" and c: "cnSockets c + cnRestarts (snd ?z) = cnSockets (snd ?z) + cnRestarts c"
    with assms(5) have "\<not> starts_attempt ev" by blast
    from sockets_are_restarts [OF this, of env s c] c
    show "cnSockets (snd (after (conn_action env ev) (s, c))) + cnRestarts (snd ?z) =
        cnSockets (snd ?z) + cnRestarts (snd (after (conn_action env ev) (s, c)))"
      by linarith
  qed simp
  moreover have "cnSockets (snd ?z) \<le> Suc (cnSockets c) \<and>
      (cnSockets (snd ?z) = Suc (cnSockets c) \<longrightarrow> cnRestarts (snd ?z) = 0)"
    using assms(2) by (cases ev) (auto simp: xu starts_attempt_def snd_conn_action conn_fields)
  ultimately show ?thesis using y by (auto simp: xu conn_ok_def)
qed

section \<open>Giving up\<close>

definition lost_status :: "conn_env \<Rightarrow> int option \<Rightarrow> bool" where
  "lost_status env status \<longleftrightarrow>
     (logged_out_status env status \<or> fatal_status env status) \<and>
     status \<noteq> Some (dcRestartRequired (cvCodes env))"

lemma lost_close:
  assumes "lost_status env status"
  shows "snd (after (conn_action env (Update (cnGeneration c) (UpdateClose status))) (s, c)) =
    (let d = (if cnGeneration c = cnCreated c then c\<lparr>cnClosed := True\<rparr> else c)\<lparr>cnSocket := None,
        cnState := (if logged_out_status env status then STATE_LOGGED_OUT else FATAL)\<rparr>
     in if cnSettled c then d else rejected (d\<lparr>cnSettled := True\<rparr>))"
proof (cases "logged_out_status env status")
  case True
  with assms show ?thesis
    by (simp add: snd_conn_action snd_closed restart_wanted_def lost_status_def is_close_def Let_def)
next
  case False
  with assms have "fatal_status env status" by (simp add: lost_status_def)
  with False assms show ?thesis
    by (simp add: snd_conn_action snd_closed restart_wanted_def lost_status_def is_close_def Let_def)
qed

text \<open>Nothing is pending that could open a socket, or report one.\<close>

definition spent :: "connection \<Rightarrow> bool" where
  "spent c \<longleftrightarrow>
     cnTimer c = None \<and> \<not> cnRestartDue c \<and> cnRetries c = 0 \<and> cnWaiting c = 0 \<and>
     (cnClosed c \<or> cnCreated c < cnGeneration c)"

definition dormant :: "connection \<Rightarrow> bool" where
  "dormant c \<longleftrightarrow> cnSocket c = None \<and> cnTimer c = None \<and> (cnStopped c \<or> spent c)"

definition no_connect :: "conn_event list \<Rightarrow> bool" where
  "no_connect evs \<longleftrightarrow> (\<forall>auto. Connect auto \<notin> set evs)"

lemma dormant_action:
  assumes "conn_ok c" and "dormant c" and "enabled ev c" and "\<forall>auto. ev \<noteq> Connect auto"
  shows "dormant (snd (after (conn_action env ev) (s, c))) \<and>
    cnSockets (snd (after (conn_action env ev) (s, c))) = cnSockets c"
proof (cases ev)
  case (Update g u)
  show ?thesis
  proof (cases u)
    case UpdateOpen
    with Update assms snd_opened [of env s c] show ?thesis
      by (auto simp: snd_conn_action Let_def is_close_def resolved_def dormant_def spent_def)
  next
    case (UpdateClose status)
    with Update assms show ?thesis
      by (auto simp: snd_conn_action conn_fields dormant_def spent_def enabled_def is_close_def
          restart_wanted_def conn_ok_def)
  qed (use Update assms in \<open>auto simp: snd_conn_action dormant_def spent_def is_close_def\<close>)
qed (use assms in \<open>auto simp: snd_conn_action conn_fields dormant_def spent_def enabled_def\<close>)

lemma spent_action:
  assumes "conn_ok c" and "spent c" and "enabled ev c" and "\<forall>auto. ev \<noteq> Connect auto"
  shows "spent (snd (after (conn_action env ev) (s, c)))"
    and "\<forall>g. ev = Update g UpdateOpen \<longrightarrow> g \<noteq> cnGeneration c"
proof -
  show stale: "\<forall>g. ev = Update g UpdateOpen \<longrightarrow> g \<noteq> cnGeneration c"
    using assms(1-3) by (auto simp: enabled_def spent_def conn_ok_def)
  show "spent (snd (after (conn_action env ev) (s, c)))"
  proof (cases ev)
    case (Update g u)
    show ?thesis
    proof (cases u)
      case (UpdateClose status)
      with Update assms show ?thesis
        by (auto simp: snd_conn_action conn_fields spent_def enabled_def is_close_def
            restart_wanted_def conn_ok_def)
    qed (use Update assms stale in \<open>auto simp: snd_conn_action spent_def is_close_def\<close>)
  qed (use assms in \<open>auto simp: snd_conn_action conn_fields spent_def enabled_def\<close>)
qed

lemma dormant_run:
  assumes "manager_run evs x y" and "no_connect evs"
    and "conn_ok (snd x)" and "dormant (snd x)" and "cnSockets (snd x) = n"
  shows "conn_ok (snd y) \<and> dormant (snd y) \<and> cnSockets (snd y) = n"
proof (rule run_fields [OF assms(1)])
  show "conn_ok (snd x) \<and> dormant (snd x) \<and> cnSockets (snd x) = n" using assms(3-5) by blast
next
  fix env ev s d
  assume "ev \<in> set evs" "enabled ev d" "conn_ok d \<and> dormant d \<and> cnSockets d = n"
  with assms(2) dormant_action [of d ev env s] conn_ok_action [of d ev env s]
  show "conn_ok (snd (after (conn_action env ev) (s, d))) \<and>
      dormant (snd (after (conn_action env ev) (s, d))) \<and>
      cnSockets (snd (after (conn_action env ev) (s, d))) = n"
    by (auto simp: no_connect_def)
qed

text \<open>
  A manager that was told to disconnect stays disconnected: from then on no socket is opened
  or reported and no reconnect is scheduled before somebody calls \<open>connect\<close>, whatever late events,
  rejections and protocol restarts are still pending.
\<close>

theorem disconnect_rests:
  assumes "conn_ok c" and "manager_run evs (after (conn_action env DisconnectBegin) (s, c)) y"
    and "no_connect evs"
  shows "cnSockets (snd y) = cnSockets c \<and> cnSocket (snd y) = None \<and> cnTimer (snd y) = None"
proof -
  let ?x = "after (conn_action env DisconnectBegin) (s, c)"
  have "conn_ok (snd ?x)" by (rule conn_ok_action [OF assms(1)]) (simp add: enabled_def)
  moreover have "dormant (snd ?x) \<and> cnSockets (snd ?x) = cnSockets c"
    by (simp add: snd_conn_action dormant_def)
  ultimately have "conn_ok (snd y) \<and> dormant (snd y) \<and> cnSockets (snd y) = cnSockets c"
    using dormant_run [OF assms(2,3)] by blast
  then show ?thesis by (simp add: dormant_def)
qed

text \<open>
  The same loss during an attempt of the reconnect timer is not final: the rejection of its promise
  schedules the next attempt, and the reported state is \<open>RECONNECTING\<close> again.
\<close>

lemma logged_out_reconnects:
  fixes c :: connection
  assumes "lost_status env status" and "\<not> cnSettled c" and "0 < cnWaiting c"
    and "\<not> cnStopped c" and "cnTimer c = None"
  shows "enabled RetryDue (snd (after (conn_action env (Update (cnGeneration c) (UpdateClose status))) (s, c)))"
    and "\<exists>d. cnTimer (snd (after (conn_action env' RetryDue)
        (after (conn_action env (Update (cnGeneration c) (UpdateClose status))) (s, c)))) = Some d"
    and "cnState (snd (after (conn_action env' RetryDue)
        (after (conn_action env (Update (cnGeneration c) (UpdateClose status))) (s, c)))) = RECONNECTING"
proof -
  let ?x = "after (conn_action env (Update (cnGeneration c) (UpdateClose status))) (s, c)"
  have 1: "\<not> cnStopped (snd ?x)" "cnTimer (snd ?x) = None" "0 < cnRetries (snd ?x)"
    using assms(2-5) by (simp_all add: lost_close [OF assms(1)] rejected_def Let_def)
  then show "enabled RetryDue (snd ?x)" by (simp add: enabled_def)
  show "\<exists>d. cnTimer (snd (after (conn_action env' RetryDue) ?x)) = Some d"
    and "cnState (snd (after (conn_action env' RetryDue) ?x)) = RECONNECTING"
    using 1 snd_conn_action(6) [of env' "fst ?x" "snd ?x"] by (simp_all add: snd_scheduleReconnect)
qed

section \<open>The handlers on the database\<close>

text \<open>
  What a relation on databases must allow for the handlers to stay within it: the listener, the
  reported state, the pause of a lost authorisation, the audit, and the removal of the identity.
\<close>

locale conn_keeper = state_preorder R for R :: "database \<Rightarrow> database \<Rightarrow> bool" +
  fixes env :: conn_env
  assumes listener: "R s (cvListener env g s)"
    and connectivity: "keeps R (state_set ''connectivity'' v now)"
    and lost: "r \<in> set lost_reasons \<Longrightarrow> keeps R (state_set pause_reason (Some r) now)"
    and audited: "keeps R (audit_add e options now)"
    and cleared: "keeps R auth_clear"
    and forgotten: "k \<in> {''own_jid'', ''own_lid''} \<Longrightarrow> keeps R (state_remove k)"

sublocale conn_keeper \<subseteq> whole: state_preorder "on_first R :: database \<times> connection \<Rightarrow> database \<times> connection \<Rightarrow> bool"
  by unfold_locales (auto simp: on_first_def refl intro: trans)

context conn_keeper
begin

lemma conn_write: "keeps (on_first R) (conn_write f)"
  unfolding conn_write_def by (rule keeps_on_snd) (rule refl)

lemma setState: "keeps (on_first R) (setState env st)"
  unfolding setState_def by (intro whole.keeps_rules conn_write keeps_on_fst connectivity)

lemma setSocket: "keeps (on_first R) (setSocket env g)"
  unfolding setSocket_def
  by (intro whole.keeps_rules conn_write keeps_on_fst keeps_write listener)

lemma createSocket: "keeps (on_first R) (createSocket env n)"
  unfolding createSocket_def
  by (intro whole.keeps_rules conn_write setState setSocket)

lemma connect: "keeps (on_first R) (connect env auto w)"
  unfolding connect_def
  by (intro whole.keeps_rules conn_write createSocket)

lemma scheduleReconnect: "keeps (on_first R) (scheduleReconnect env)"
  unfolding scheduleReconnect_def
  by (intro whole.keeps_rules conn_write setState)

lemma give_up:
  "show_conn_state st \<in> set lost_reasons \<Longrightarrow> keeps (on_first R) (give_up env st e d)"
  unfolding give_up_def conn_audit_def
  by (intro whole.keeps_rules keeps_rules keeps_on_fst setState lost audited)

lemma closed: "keeps (on_first R) (closed env status)"
proof -
  have "show_conn_state STATE_LOGGED_OUT \<in> set lost_reasons" "show_conn_state FATAL \<in> set lost_reasons"
    by (simp_all add: show_conn_state_def lost_reasons_def)
  then show ?thesis
    unfolding closed_def
    by (intro whole.keeps_rules conn_write setState setSocket give_up scheduleReconnect)
qed

lemma disconnect: "keeps (on_first R) (disconnect_begin env)" "keeps (on_first R) (disconnect_end env)"
  unfolding disconnect_begin_def disconnect_end_def
  by (intro whole.keeps_rules conn_write setState setSocket)+

lemma logout: "keeps (on_first R) (logout_end env)"
  unfolding logout_end_def conn_audit_def
  by (intro whole.keeps_rules keeps_rules keeps_on_fst setState setSocket lost audited cleared forgotten)
    (simp_all add: lost_reasons_def)

lemma opened:
  assumes "\<And>k v now. keeps R (state_set k v now)" and "\<And>k. keeps R (state_remove k)"
  shows "keeps (on_first R) (opened env)"
proof -
  have "keeps R (store_identity env k j)" for k j
    unfolding store_identity_def by (auto intro!: keeps_rules assms split: sum.split)
  then show ?thesis
    unfolding opened_def conn_audit_def
    by (intro whole.keeps_rules keeps_rules keeps_on_fst conn_write setState assms audited)
qed

lemma action:
  assumes "keeps (on_first R) (opened env) \<or> (\<forall>g. ev = Update g UpdateOpen \<longrightarrow> g \<noteq> cnGeneration c)"
  shows "R s (fst (after (conn_action env ev) (s, c)))"
proof (cases ev)
  case (Update g u)
  let ?c = "if g = cnCreated c \<and> is_close u then c\<lparr>cnClosed := True\<rparr> else c"
  have "on_first R (s, ?c) (after (on_update env g u) (s, ?c))"
  proof (cases "g = cnGeneration c")
    case False
    then have "after (on_update env g u) (s, ?c) = (s, ?c)"
      by (simp add: on_update_def run_bind after_def)
    then show ?thesis by (simp add: on_first_def refl)
  next
    case True
    have "g = cnGeneration ?c" using True by simp
    then have run: "after (on_update env g u) (s, ?c) =
        after (case u of UpdateOther \<Rightarrow> ret () | UpdateOpen \<Rightarrow> opened env | UpdateClose st \<Rightarrow> closed env st) (s, ?c)"
      by (simp add: on_update_def run_bind after_def)
    show ?thesis
    proof (cases u)
      case UpdateOther
      show ?thesis unfolding run unfolding UpdateOther conn_update.case by (rule keepsD [OF whole.keeps_ret])
    next
      case UpdateOpen
      with True Update assms have "keeps (on_first R) (opened env)" by blast
      then show ?thesis unfolding run unfolding UpdateOpen conn_update.case by (rule keepsD)
    next
      case (UpdateClose status)
      show ?thesis unfolding run unfolding UpdateClose conn_update.case by (rule keepsD [OF closed])
    qed
  qed
  then show ?thesis
    by (simp add: Update conn_action_def run_bind after_def on_first_def)
next
  case (Connect auto)
  then show ?thesis using keepsD [OF connect [of auto 0], of "(s, c)"]
    by (simp add: conn_action_def on_first_def)
next
  case RestartDue
  have "keeps (on_first R) (restart env)"
    unfolding restart_def by (intro whole.keeps_rules conn_write createSocket)
  then show ?thesis using keepsD [of "on_first R" "restart env" "(s, c)"]
    by (simp add: RestartDue conn_action_def on_first_def)
next
  case TimerDue
  have "keeps (on_first R) (timer_fires env)"
    unfolding timer_fires_def by (intro whole.keeps_rules conn_write connect)
  then show ?thesis using keepsD [of "on_first R" "timer_fires env" "(s, c)"]
    by (simp add: TimerDue conn_action_def on_first_def)
next
  case RetryDue
  have "keeps (on_first R) (retry_reconnect env)"
    unfolding retry_reconnect_def by (intro whole.keeps_rules conn_write scheduleReconnect)
  then show ?thesis using keepsD [of "on_first R" "retry_reconnect env" "(s, c)"]
    by (simp add: RetryDue conn_action_def on_first_def)
next
  case DisconnectBegin
  then show ?thesis using keepsD [OF disconnect(1), of "(s, c)"]
    by (simp add: conn_action_def on_first_def)
next
  case DisconnectEnd
  then show ?thesis using keepsD [OF disconnect(2), of "(s, c)"]
    by (simp add: conn_action_def on_first_def)
next
  case LogoutEnd
  then show ?thesis using keepsD [OF logout, of "(s, c)"]
    by (simp add: conn_action_def on_first_def)
qed (simp_all add: conn_action_def after_def logout_begin_def refl)

end

text \<open>A lost authorisation stays lost, and every operation is sound for the rest of the program.\<close>

lemma held_write:
  "held (after (state_set k v now) s) = (if k = pause_reason then v \<in> Some ` set lost_reasons else held s)"
  "held (after (state_remove k) s) = (k \<noteq> pause_reason \<and> held s)"
  "held (after (audit_add e options now) s) = held s"
proof -
  have "after (audit_add e options now) s = after (insertAudit e options now) s"
    by (simp add: after_def [of "audit_add e options now"] run_audit_add)
  then show "held (after (audit_add e options now) s) = held s"
    by (simp add: held_def state_get_audit)
qed (auto simp: held_def image_iff)

lemma held_clear: "held (after auth_clear s) = held s"
  by (simp add: held_def auth_clear_def immediateTransaction_def after_def run_atomically run_bind
      state_get_def)

lemma conn_keeper_held:
  assumes "\<And>g s. held s \<Longrightarrow> held (cvListener env g s)"
  shows "conn_keeper (inv_rel held) env"
  by unfold_locales
    (use assms in \<open>auto simp: inv_rel_def keeps_def held_write held_clear pause_reason_def\<close>)

lemma conn_keeper_sound:
  assumes "\<And>g s. sound s (cvListener env g s)"
  shows "conn_keeper sound env"
  by unfold_locales (auto intro: assms keeps_intro)

interpretation bare_held: conn_keeper "inv_rel held" "env\<lparr>cvListener := (\<lambda>_ s. s)\<rparr>" for env
  by (rule conn_keeper_held) simp

interpretation bare_sound: conn_keeper sound "env\<lparr>cvListener := (\<lambda>_ s. s)\<rparr>" for env
  by (rule conn_keeper_sound) (simp add: soundness.refl)

text \<open>Every event is sound, if the listener is.\<close>

lemma sound_conn_action:
  assumes "\<And>g s. sound s (cvListener env g s)"
  shows "sound s (fst (after (conn_action env ev) (s, c)))"
proof -
  note k = conn_keeper_sound [OF assms]
  have "keeps (on_first sound) (opened env)"
    by (rule conn_keeper.opened [OF k]) (rule keeps_intro)+
  then show ?thesis by (intro conn_keeper.action [OF k]) blast
qed

lemma held_run:
  assumes "manager_run evs (s, c) (t, d)" and "conn_ok c" and "spent c" and "held s" and "no_connect evs"
  shows "conn_ok d \<and> spent d \<and> held t"
proof -
  have "conn_ok (snd (s, c)) \<and> spent (snd (s, c)) \<and> held (fst (s, c)) \<and> no_connect evs \<longrightarrow>
      conn_ok (snd (t, d)) \<and> spent (snd (t, d)) \<and> held (fst (t, d))"
    using assms(1)
  proof (induction evs "(s, c)" "(t, d)" arbitrary: t d rule: manager_run.induct)
    case (event evs y ev env)
    show ?case
    proof
      assume a: "conn_ok (snd (s, c)) \<and> spent (snd (s, c)) \<and> held (fst (s, c)) \<and> no_connect (evs @ [ev])"
      then have ev: "\<forall>auto. ev \<noteq> Connect auto" and "no_connect evs" by (auto simp: no_connect_def)
      obtain u e where y: "y = (u, e)" by (cases y)
      have IH: "conn_ok e" "spent e" "held u"
        using event.hyps(2) [of u e] a \<open>no_connect evs\<close> by (simp_all add: y)
      have en: "enabled ev e" using event.hyps(3) by (simp add: y)
      have k: "conn_keeper (inv_rel held) env" by (rule conn_keeper_held) (rule event.hyps(4))
      have "held (fst (after (conn_action env ev) (u, e)))"
        using conn_keeper.action [OF k, of ev e u] spent_action(2) [OF IH(1,2) en ev] IH(3)
        by (auto simp: inv_rel_def)
      with spent_action(1) [OF IH(1,2) en ev, of env u] conn_ok_action [OF IH(1) en, of env u]
        event.hyps(5)
      show "conn_ok (snd (t, d)) \<and> spent (snd (t, d)) \<and> held (fst (t, d))"
        by (simp add: y)
    qed
  qed (auto simp: no_connect_def)
  then show ?thesis using assms by simp
qed

text \<open>The close that reports the loss sets the pause.\<close>

lemma give_up_holds:
  assumes "st \<in> {STATE_LOGGED_OUT, FATAL}"
  shows "\<exists>t. give_up env st e details (s, c) = (Inr (), (t, c\<lparr>cnState := st\<rparr>)) \<and> held t"
proof -
  let ?m = "bindE (state_set pause_reason (Some (show_conn_state st)) (cvNow env))
    (\<lambda>_. conn_audit env e ''connection'' (Some details))"
  have "\<exists>t. ?m u = (Inr (), t) \<and> held t" for u
    using assms
    by (auto simp: run_bind run_state_set conn_audit_def run_audit_add held_def state_get_audit
        show_conn_state_def lost_reasons_def)
  then obtain t where "?m (after (state_set ''connectivity'' (Some (show_conn_state st)) (cvNow env)) s) =
      (Inr (), t)" and "held t"
    by blast
  then have "give_up env st e details (s, c) = (Inr (), (t, c\<lparr>cnState := st\<rparr>))"
    unfolding give_up_def by (subst run_bind) (simp add: run_on_fst after_def [of ?m])
  with \<open>held t\<close> show ?thesis by blast
qed

lemma lost_close_holds:
  assumes "lost_status env status"
  shows "held (fst (after (conn_action env (Update (cnGeneration c) (UpdateClose status))) (s, c)))"
proof -
  have r: "restart_wanted env status d = False" for d
    using assms by (auto simp: restart_wanted_def lost_status_def)
  have "held (fst (after (closed env status) (s, d)))" for s d
  proof (cases "logged_out_status env status")
    case True
    obtain t where "give_up env STATE_LOGGED_OUT ''auth_required'' (JObj [(''reason'', JStr ''logged_out'')])
        (cvListener env None s, d\<lparr>cnSocket := None\<rparr>) =
        (Inr (), (t, d\<lparr>cnSocket := None, cnState := STATE_LOGGED_OUT\<rparr>))" and "held t"
      using give_up_holds [of STATE_LOGGED_OUT] by fastforce
    then show ?thesis by (simp add: closed_def run_bind r True after_def)
  next
    case False
    with assms have f: "fatal_status env status" by (simp add: lost_status_def)
    obtain t where "give_up env FATAL ''connection_fatal'' (JObj [(''status'', status_json status)])
        (cvListener env None s, d\<lparr>cnSocket := None\<rparr>) =
        (Inr (), (t, d\<lparr>cnSocket := None, cnState := FATAL\<rparr>))" and "held t"
      using give_up_holds [of FATAL] by fastforce
    then show ?thesis by (simp add: closed_def run_bind r False f after_def)
  qed
  then show ?thesis by (simp add: conn_action_def on_update_def run_bind after_def)
qed

text \<open>The connection has been established and nothing but its newest socket is pending.\<close>

definition established :: "connection \<Rightarrow> bool" where
  "established c \<longleftrightarrow>
     cnSettled c \<and> cnGeneration c = cnCreated c \<and> \<not> cnClosed c \<and> cnTimer c = None \<and>
     \<not> cnRestartDue c \<and> cnRetries c = 0 \<and> cnWaiting c = 0"


section \<open>Corners\<close>

text \<open>
  A disconnect during a connect leaves its promise pending: the events of its socket no longer
  count, and a later \<open>connect\<close> waits for the same promise without opening a socket.
\<close>

lemma interrupted_connect_hangs:
  assumes "cnConnecting c"
  shows "cnConnecting (snd (after (conn_action env DisconnectBegin) (s, c)))"
    and "conn_ok c \<Longrightarrow>
      after (on_update env (cnCreated c) u) (after (conn_action env DisconnectBegin) (s, c)) =
        after (conn_action env DisconnectBegin) (s, c)"
    and "cnSocket d = None \<Longrightarrow> cnConnecting d \<Longrightarrow>
      snd (after (conn_action env (Connect auto)) (s, d)) = d"
proof -
  show "cnConnecting (snd (after (conn_action env DisconnectBegin) (s, c)))"
    using assms by (simp add: snd_conn_action)
  show "snd (after (conn_action env (Connect auto)) (s, d)) = d"
    if "cnSocket d = None" "cnConnecting d" for d
    using that by (simp add: snd_conn_action snd_connect)
  assume "conn_ok c"
  then have "cnCreated c \<noteq> Suc (cnGeneration c)" by (simp add: conn_ok_def)
  then show "after (on_update env (cnCreated c) u) (after (conn_action env DisconnectBegin) (s, c)) =
      after (conn_action env DisconnectBegin) (s, c)"
    by (simp add: on_update_def conn_action_def disconnect_begin_def run_bind after_def)
qed

text \<open>A logout inside a short connection is reported as a mere disconnect in the end.\<close>

lemma logout_reported_as_disconnected:
  "state_get ''connectivity'' (fst (after (conn_action env DisconnectEnd) (s, c))) = Some ''DISCONNECTED''"
  by (simp add: conn_action_def disconnect_end_def after_def [of "setState env DISCONNECTED"]
      show_conn_state_def)

section \<open>A connection on the sample database\<close>

definition sample_conn_env :: conn_env where
  "sample_conn_env =
     \<lparr>cvListener = (\<lambda>_ s. s),
      cvCodes = \<lparr>dcRestartRequired = 515, dcLoggedOut = 401, dcBadSession = 500, dcMismatch = 411,
        dcForbidden = 403\<rparr>,
      cvCodec = sample_codec, cvConfig = sample_config, cvUserId = None, cvUserLid = None,
      cvNow = ''2026-02-02'', cvRandom = 0, cvCreateFails = None, cvSaveFails = False\<rparr>"

definition sample_live :: connection where
  "sample_live = new_connection\<lparr>cnSocket := Some 1, cnState := CONNECTED, cnGeneration := 1,
     cnCreated := 1, cnSockets := 1, cnClosed := False\<rparr>"

text \<open>It is what a connect and the open of its socket lead to.\<close>

lemma sample_live_reached:
  "snd (after (conn_action sample_conn_env (Update 1 UpdateOpen))
    (after (conn_action sample_conn_env (Connect True)) (sample_db, new_connection))) = sample_live"
  by code_simp

lemma sample_live_ok: "conn_ok sample_live" "established sample_live"
  by (simp_all add: sample_live_def new_connection_def conn_ok_def established_def)

theorem attempt_opens_three_witness:
  "cnSockets (snd (after (conn_action sample_conn_env (Connect True)) (sample_db, new_connection))) \<le> 0 + 3"
proof -
  have "starts_attempt (Connect True)" "enabled (Connect True) (snd (sample_db, new_connection))"
    by (simp_all add: starts_attempt_def enabled_def)
  from attempt_opens_three [OF manager_run.start this manager_run.start, of sample_conn_env]
  show ?thesis by (simp add: new_connection_def)
qed

theorem disconnect_rests_witness:
  "let x = after (conn_action sample_conn_env DisconnectBegin) (sample_db, sample_live);
     y = after (conn_action sample_conn_env DisconnectEnd) x
   in cnSockets (snd y) = 1 \<and> cnSocket (snd y) = None \<and> cnTimer (snd y) = None"
proof -
  let ?x = "after (conn_action sample_conn_env DisconnectBegin) (sample_db, sample_live)"
  have "manager_run ([] @ [DisconnectEnd]) ?x (after (conn_action sample_conn_env DisconnectEnd) ?x)"
    by (rule manager_run.event [OF manager_run.start])
      (simp_all add: enabled_def sample_conn_env_def)
  moreover have "no_connect ([] @ [DisconnectEnd])" by (simp add: no_connect_def)
  ultimately show ?thesis
    using disconnect_rests [OF sample_live_ok(1), of _ sample_conn_env sample_db]
    by (simp add: Let_def sample_live_def)
qed


end
