(* ===== verification/ProcessLock.thy ===== *)
theory ProcessLock
  imports Json
begin

text \<open>
  The daemon lock, \<open>src/src/lock/process-lock.ts\<close>: a file with the process number of its owner, and
  the object that acquires and releases it.  Every system call is a point at which other processes
  may run (\<open>leOthers\<close>) and which may fail (\<open>leFails\<close>); with nothing in between this is one
  operation, and the file then implements a mutex.
\<close>

section \<open>The file and the processes\<close>

text \<open>The text of the file as the JSON value it denotes; \<open>None\<close> is an empty or torn text.\<close>

record lock_file =
  lfInode :: nat
  lfJson :: "json option"
  lfMtime :: int

record lock_world =
  lwFile :: "lock_file option"
  lwAlive :: "int \<Rightarrow> bool"
  lwInodes :: nat

datatype lock_error = AlreadyRunning int | NotYetReadable | Unacquired | LockIo string

text \<open>The system calls of the two methods, in their order.\<close>

datatype lock_point =
    AtCreate | AtWrite | AtRead | AtKill | AtStat | AtRemove | AtReleaseRead | AtReleaseRemove

text \<open>The environment of one call; the number is the round of the loop.\<close>

record lock_env =
  lePid :: int
  leStartedAt :: string
  leNow :: "nat \<Rightarrow> int"
  leMkdirFails :: "string option"
  leFails :: "nat \<Rightarrow> lock_point \<Rightarrow> string option"
  leOthers :: "nat \<Rightarrow> lock_point \<Rightarrow> lock_world \<Rightarrow> lock_world"

text \<open>The second part of the state is the field \<open>held\<close> of the object.\<close>

type_synonym 'a lock_io = "(lock_world \<times> bool, lock_error, 'a) io"

definition isProcessAlive :: "lock_world \<Rightarrow> int \<Rightarrow> bool" where
  "isProcessAlive w pid \<longleftrightarrow> 0 < pid \<and> lwAlive w pid"

text \<open>The fields of a lock; of two fields with one name \<open>JSON.parse\<close> keeps the last.\<close>

definition read_lock :: "lock_file option \<Rightarrow> (int \<times> string) option" where
  "read_lock file =
     (case file of None \<Rightarrow> None
      | Some f \<Rightarrow>
          (case lfJson f of
             Some (JObj members) \<Rightarrow>
               (case (map_of (rev members) ''pid'', map_of (rev members) ''startedAt'') of
                  (Some (JNum pid), Some (JStr startedAt)) \<Rightarrow> Some (pid, startedAt)
                | _ \<Rightarrow> None)
           | _ \<Rightarrow> None))"

section \<open>The system calls\<close>

definition at_point :: "lock_env \<Rightarrow> nat \<Rightarrow> lock_point \<Rightarrow> 'a lock_io \<Rightarrow> 'a lock_io" where
  "at_point env n pt m = bindE (on_fst (writeE (leOthers env n pt))) (\<lambda>_. m)"

definition or_fails :: "lock_env \<Rightarrow> nat \<Rightarrow> lock_point \<Rightarrow> 'a lock_io \<Rightarrow> 'a lock_io" where
  "or_fails env n pt m =
     at_point env n pt (case leFails env n pt of Some e \<Rightarrow> throw (LockIo e) | None \<Rightarrow> m)"

definition new_file :: "int \<Rightarrow> lock_world \<Rightarrow> lock_world" where
  "new_file now w =
     w\<lparr>lwFile := Some \<lparr>lfInode = lwInodes w, lfJson = None, lfMtime = now\<rparr>,
       lwInodes := Suc (lwInodes w)\<rparr>"

text \<open>A write through a descriptor reaches the file that was opened, wherever it is linked now.\<close>

definition fill_file :: "nat \<Rightarrow> json \<Rightarrow> int \<Rightarrow> lock_world \<Rightarrow> lock_world" where
  "fill_file inode j now w =
     (case lwFile w of None \<Rightarrow> w
      | Some f \<Rightarrow>
          if lfInode f = inode then w\<lparr>lwFile := Some (f\<lparr>lfJson := Some j, lfMtime := now\<rparr>)\<rparr> else w)"

definition lock_text :: "lock_env \<Rightarrow> json" where
  "lock_text env = JObj [(''pid'', JNum (lePid env)), (''startedAt'', JStr (leStartedAt env))]"

text \<open>\<open>None\<close> is the error \<open>EEXIST\<close>.\<close>

definition create_lock :: "lock_env \<Rightarrow> nat \<Rightarrow> nat option lock_io" where
  "create_lock env n =
     or_fails env n AtCreate (bindE (readE fst) (\<lambda>w.
       if lwFile w \<noteq> None then ret None
       else bindE (on_fst (writeE (new_file (leNow env n)))) (\<lambda>_. ret (Some (lwInodes w)))))"

definition write_lock :: "lock_env \<Rightarrow> nat \<Rightarrow> nat \<Rightarrow> unit lock_io" where
  "write_lock env n inode =
     or_fails env n AtWrite (on_fst (writeE (fill_file inode (lock_text env) (leNow env n))))"

definition readExisting :: "lock_env \<Rightarrow> nat \<Rightarrow> lock_point \<Rightarrow> (int \<times> string) option lock_io" where
  "readExisting env n pt =
     at_point env n pt
       (readE (\<lambda>x. if leFails env n pt \<noteq> None then None else read_lock (lwFile (fst x))))"

definition remove_lock :: "lock_env \<Rightarrow> nat \<Rightarrow> lock_point \<Rightarrow> unit lock_io" where
  "remove_lock env n pt = or_fails env n pt (on_fst (writeE (\<lambda>w. w\<lparr>lwFile := None\<rparr>)))"

section \<open>The two methods\<close>

text \<open>What happens after \<open>EEXIST\<close>: whether the file is to be removed, or an error.\<close>

definition inspect :: "lock_env \<Rightarrow> nat \<Rightarrow> bool lock_io" where
  "inspect env n =
     bindE (readExisting env n AtRead) (\<lambda>existing.
       case existing of
         Some (pid, _) \<Rightarrow>
           at_point env n AtKill (bindE (readE fst) (\<lambda>w.
             if isProcessAlive w pid then throw (AlreadyRunning pid) else ret True))
       | None \<Rightarrow>
           or_fails env n AtStat (bindE (readE fst) (\<lambda>w.
             case lwFile w of
               None \<Rightarrow> ret False
             | Some f \<Rightarrow> if leNow env n - lfMtime f < 30000 then throw NotYetReadable else ret True)))"

text \<open>The loop with its number of rounds, and the rounds left.\<close>

fun acquire_from :: "lock_env \<Rightarrow> nat \<Rightarrow> nat \<Rightarrow> unit lock_io" where
  "acquire_from env n 0 = throw Unacquired"
| "acquire_from env n (Suc k) =
     bindE (create_lock env n) (\<lambda>created.
       case created of
         Some inode \<Rightarrow> bindE (write_lock env n inode) (\<lambda>_. on_snd (writeE (\<lambda>_. True)))
       | None \<Rightarrow>
           bindE (inspect env n) (\<lambda>stale.
           bindE (if stale then remove_lock env n AtRemove else ret ()) (\<lambda>_.
           acquire_from env (Suc n) k)))"

definition acquire :: "lock_env \<Rightarrow> unit lock_io" where
  "acquire env =
     (case leMkdirFails env of Some e \<Rightarrow> throw (LockIo e) | None \<Rightarrow> acquire_from env 0 2)"

definition release :: "lock_env \<Rightarrow> unit lock_io" where
  "release env =
     bindE (readE snd) (\<lambda>held.
       if \<not> held then ret ()
       else bindE (readExisting env 0 AtReleaseRead) (\<lambda>existing.
            bindE (if map_option fst existing = Some (lePid env)
                   then remove_lock env 0 AtReleaseRemove else ret ()) (\<lambda>_.
            on_snd (writeE (\<lambda>_. False)))))"

section \<open>One call with nothing in between\<close>

definition quiet :: "lock_env \<Rightarrow> bool" where
  "quiet env \<longleftrightarrow> leOthers env = (\<lambda>_ _ w. w) \<and> (\<forall>n. leFails env n AtRead = None)"

definition no_failures :: "lock_env \<Rightarrow> bool" where
  "no_failures env \<longleftrightarrow> leMkdirFails env = None \<and> leFails env = (\<lambda>_ _. None)"

lemma read_own: "read_lock (Some \<lparr>lfInode = i, lfJson = Some (lock_text env), lfMtime = t\<rparr>) =
    Some (lePid env, leStartedAt env)"
  by (simp add: read_lock_def lock_text_def)

lemma quiet_point: "quiet env \<Longrightarrow> at_point env n pt m = m"
  by (rule ext) (auto simp: at_point_def quiet_def run_bind run_on_fst after_def)

lemma run_calls:
  assumes "quiet env"
  shows "create_lock env n (w, h) =
      (case leFails env n AtCreate of Some e \<Rightarrow> (Inl (LockIo e), (w, h))
       | None \<Rightarrow> if lwFile w \<noteq> None then (Inr None, (w, h))
           else (Inr (Some (lwInodes w)), (new_file (leNow env n) w, h)))"
    and "write_lock env n i (w, h) =
      (case leFails env n AtWrite of Some e \<Rightarrow> (Inl (LockIo e), (w, h))
       | None \<Rightarrow> (Inr (), (fill_file i (lock_text env) (leNow env n) w, h)))"
    and "remove_lock env n pt (w, h) =
      (case leFails env n pt of Some e \<Rightarrow> (Inl (LockIo e), (w, h))
       | None \<Rightarrow> (Inr (), (w\<lparr>lwFile := None\<rparr>, h)))"
    and "inspect env n (w, h) =
      (case read_lock (lwFile w) of
         Some (pid, _) \<Rightarrow>
           (if isProcessAlive w pid then Inl (AlreadyRunning pid) else Inr True, (w, h))
       | None \<Rightarrow>
           (case leFails env n AtStat of Some e \<Rightarrow> Inl (LockIo e)
            | None \<Rightarrow>
              (case lwFile w of None \<Rightarrow> Inr False
               | Some f \<Rightarrow> if leNow env n - lfMtime f < 30000 then Inl NotYetReadable else Inr True),
            (w, h)))"
  using assms
  by (auto simp: create_lock_def write_lock_def remove_lock_def inspect_def readExisting_def or_fails_def
      quiet_point quiet_def run_bind run_on_fst after_def split: option.split)

text \<open>The file the caller owns after a success.\<close>

definition own_file :: "lock_env \<Rightarrow> nat \<Rightarrow> lock_world \<Rightarrow> lock_world" where
  "own_file env n w =
     w\<lparr>lwFile := Some \<lparr>lfInode = lwInodes w, lfJson = Some (lock_text env), lfMtime = leNow env n\<rparr>,
       lwInodes := Suc (lwInodes w)\<rparr>"

lemmas own_simps = new_file_def fill_file_def own_file_def

text \<open>
  The outcome of \<open>acquire\<close> on every branch, when nothing fails and no other process runs in
  between: without a file, with the lock of a process that is not alive, or with an unreadable file
  of 30 seconds or more, the caller owns a new file; with the lock of a live process, or a younger
  unreadable file, it is refused and nothing changes.
\<close>

theorem acquire_branches:
  assumes "quiet env" and "no_failures env"
  shows "acquire env (w, h) =
    (case lwFile w of
       None \<Rightarrow> (Inr (), (own_file env 0 w, True))
     | Some f \<Rightarrow>
         (case read_lock (Some f) of
            Some (pid, _) \<Rightarrow>
              if isProcessAlive w pid then (Inl (AlreadyRunning pid), (w, h))
              else (Inr (), (own_file env 1 w, True))
          | None \<Rightarrow>
              if leNow env 0 - lfMtime f < 30000 then (Inl NotYetReadable, (w, h))
              else (Inr (), (own_file env 1 w, True))))"
  using assms
  by (auto simp: acquire_def numeral_2_eq_2 run_calls own_simps no_failures_def run_bind
      run_on_snd after_def split: option.split)

section \<open>A mutex\<close>

text \<open>
  The lock in the life of the processes that use it: each call runs without another in between,
  processes are started and crash, also between the creation of the file and its text.
\<close>

type_synonym lock_system = "lock_world \<times> (int \<Rightarrow> bool)"

datatype lock_event =
  Acquire lock_env | Release lock_env | CrashCreating lock_env | Crash int | Start int

definition set_alive :: "int \<Rightarrow> bool \<Rightarrow> lock_world \<Rightarrow> lock_world" where
  "set_alive p b w = w\<lparr>lwAlive := (lwAlive w)(p := b)\<rparr>"

definition call_of :: "lock_env \<Rightarrow> unit lock_io \<Rightarrow> lock_system \<Rightarrow> lock_system" where
  "call_of env m x =
     (case after m (fst x, snd x (lePid env)) of (w, b) \<Rightarrow> (w, (snd x)(lePid env := b)))"

definition lock_action :: "lock_event \<Rightarrow> lock_system \<Rightarrow> lock_system" where
  "lock_action ev x =
     (case ev of
        Acquire env \<Rightarrow> call_of env (acquire env) x
      | Release env \<Rightarrow> call_of env (release env) x
      | CrashCreating env \<Rightarrow>
          (set_alive (lePid env) False (fst (after (create_lock env 0) (fst x, False))), snd x)
      | Crash p \<Rightarrow> (set_alive p False (fst x), snd x)
      | Start p \<Rightarrow> (set_alive p True (fst x), (snd x)(p := False)))"

definition lock_enabled :: "lock_event \<Rightarrow> lock_system \<Rightarrow> bool" where
  "lock_enabled ev x \<longleftrightarrow>
     (case ev of
        Acquire env \<Rightarrow> quiet env \<and> isProcessAlive (fst x) (lePid env)
      | Release env \<Rightarrow> quiet env \<and> isProcessAlive (fst x) (lePid env)
      | CrashCreating env \<Rightarrow> quiet env \<and> isProcessAlive (fst x) (lePid env)
      | Crash p \<Rightarrow> True
      | Start p \<Rightarrow> 0 < p \<and> \<not> lwAlive (fst x) p)"

inductive lock_run :: "lock_system \<Rightarrow> lock_system \<Rightarrow> bool" where
  start: "lock_run x x"
| step: "lock_run x y \<Longrightarrow> lock_enabled ev y \<Longrightarrow> lock_run x (lock_action ev y)"

text \<open>The specification: at most one process has the mutex; it is taken when free, and given back.\<close>

inductive mutex_step :: "int set \<Rightarrow> int set \<Rightarrow> bool" where
  take: "mutex_step {} {p}"
| give: "mutex_step {p} {}"

inductive_simps mutex_step_simps: "mutex_step S T"

definition holders :: "lock_system \<Rightarrow> int set" where
  "holders x = {p. isProcessAlive (fst x) p \<and> snd x p}"

text \<open>The invariant: the lock of a live process is the one in the file.\<close>

definition lock_ok :: "lock_system \<Rightarrow> bool" where
  "lock_ok x \<longleftrightarrow>
     (\<forall>p. isProcessAlive (fst x) p \<longrightarrow> snd x p \<longrightarrow> map_option fst (read_lock (lwFile (fst x))) = Some p)"

text \<open>The effect of the calls, with failures.\<close>

definition free_lock :: "lock_world \<Rightarrow> bool" where
  "free_lock w \<longleftrightarrow> (\<forall>pid t. read_lock (lwFile w) = Some (pid, t) \<longrightarrow> \<not> isProcessAlive w pid)"

definition call_effect :: "lock_env \<Rightarrow> lock_world \<times> bool \<Rightarrow> lock_world \<times> bool \<Rightarrow> bool" where
  "call_effect env x y \<longleftrightarrow>
     lwAlive (fst y) = lwAlive (fst x) \<and>
     (lwFile (fst y) = lwFile (fst x) \<and> snd y = snd x \<or>
      free_lock (fst x) \<and>
      (snd y = snd x \<or>
       snd y \<and> map_option fst (read_lock (lwFile (fst y))) = Some (lePid env)))"

lemma acquire_from_effect:
  assumes "quiet env"
  shows "call_effect env (w, h) (after (acquire_from env n k) (w, h))"
proof (induction k arbitrary: n w)
  case 0
  then show ?case by (simp add: call_effect_def after_def)
next
  case (Suc k)
  have gone: "call_effect env (w\<lparr>lwFile := None\<rparr>, h)
      (after (acquire_from env (Suc n) k) (w\<lparr>lwFile := None\<rparr>, h))"
    by (rule Suc.IH)
  have same: "call_effect env (w, h) (w, h)" by (simp add: call_effect_def)
  show ?case
  proof (cases "lwFile w")
    case None
    then have "free_lock w" by (simp add: free_lock_def read_lock_def)
    with None show ?thesis
      by (auto simp: run_bind run_calls [OF assms] run_on_snd after_def call_effect_def own_simps
          read_own split: option.split)
  next
    case (Some f)
    consider (error) e where "inspect env n (w, h) = (Inl e, (w, h))"
      | (stale) "inspect env n (w, h) = (Inr True, (w, h))" "free_lock w"
    proof (cases "read_lock (lwFile w)")
      case None
      with Some that show ?thesis
        by (cases "leFails env n AtStat"; cases "leNow env n - lfMtime f < 30000")
          (simp_all add: run_calls(4) [OF assms] free_lock_def)
    next
      case (Some a)
      with that show ?thesis
        by (cases a; cases "isProcessAlive w (fst a)") (simp_all add: run_calls(4) [OF assms] free_lock_def)
    qed
    then show ?thesis
    proof cases
      case error
      with Some same show ?thesis
        by (auto simp: run_bind run_calls(1-3) [OF assms] after_def split: option.split)
    next
      case stale
      from gone \<open>free_lock w\<close> have "call_effect env (w, h)
          (after (acquire_from env (Suc n) k) (w\<lparr>lwFile := None\<rparr>, h))"
        by (auto simp: call_effect_def)
      with stale(1) Some same show ?thesis
        by (auto simp: run_bind run_calls(1-3) [OF assms] after_def split: option.split)
    qed
  qed
qed

lemma acquire_effect: "quiet env \<Longrightarrow> call_effect env (w, h) (after (acquire env) (w, h))"
  using acquire_from_effect [of env w h 0 2]
  by (auto simp: acquire_def call_effect_def after_def split: option.split)

lemma run_release:
  assumes "quiet env"
  shows "release env (w, h) =
    (if \<not> h then (Inr (), (w, h))
     else if leFails env 0 AtReleaseRead = None \<and> map_option fst (read_lock (lwFile w)) = Some (lePid env)
     then (case leFails env 0 AtReleaseRemove of
             Some e \<Rightarrow> (Inl (LockIo e), (w, h)) | None \<Rightarrow> (Inr (), (w\<lparr>lwFile := None\<rparr>, False)))
     else (Inr (), (w, False)))"
  using assms
  by (auto simp: release_def readExisting_def quiet_point run_calls run_bind run_on_snd after_def
      split: option.split)

text \<open>The invariant, and the mutex it gives.\<close>

lemma lock_ok_exclusive: "lock_ok x \<Longrightarrow> p \<in> holders x \<Longrightarrow> q \<in> holders x \<Longrightarrow> p = q"
  unfolding lock_ok_def holders_def by (metis (mono_tags, lifting) mem_Collect_eq option.inject)

lemma holders_cases: "lock_ok x \<Longrightarrow> holders x = {} \<or> (\<exists>p. holders x = {p})"
  using lock_ok_exclusive by blast

lemma free_no_holder: "lock_ok x \<Longrightarrow> free_lock (fst x) \<Longrightarrow> holders x = {}"
  by (auto simp: lock_ok_def holders_def free_lock_def)

definition mutex_move :: "int set \<Rightarrow> int set \<Rightarrow> bool" where
  "mutex_move S T \<longleftrightarrow> S = T \<or> mutex_step S T"

lemma mutex_moveI: "S = T \<or> S = {} \<and> (\<exists>p. T = {p}) \<or> T = {} \<and> (\<exists>p. S = {p}) \<Longrightarrow> mutex_move S T"
  by (auto simp: mutex_move_def mutex_step_simps)

lemma crash_refines:
  assumes "lock_ok x"
  shows "lock_ok (set_alive p False (fst x), snd x) \<and>
    mutex_move (holders x) (holders (set_alive p False (fst x), snd x))"
proof -
  have h: "holders (set_alive p False (fst x), snd x) = holders x - {p}"
    by (auto simp: holders_def set_alive_def isProcessAlive_def)
  have "lock_ok (set_alive p False (fst x), snd x)"
    using assms by (auto simp: lock_ok_def set_alive_def isProcessAlive_def)
  with holders_cases [OF assms] h show ?thesis by (auto intro!: mutex_moveI)
qed

lemma action_refines:
  assumes ok: "lock_ok x" and en: "lock_enabled ev x"
  shows "lock_ok (lock_action ev x) \<and> mutex_move (holders x) (holders (lock_action ev x))"
proof (cases ev)
  case (Acquire env)
  obtain w h where x: "x = (w, h)" by (cases x)
  obtain w' b where r: "after (acquire env) (w, h (lePid env)) = (w', b)" by (cases "after (acquire env) (w, h (lePid env))")
  have y: "lock_action ev x = (w', h(lePid env := b))" by (simp add: Acquire lock_action_def call_of_def x r)
  have e: "call_effect env (w, h (lePid env)) (w', b)"
    using acquire_effect [of env w "h (lePid env)"] en by (simp add: Acquire lock_enabled_def r)
  then have a: "lwAlive w' = lwAlive w" by (simp add: call_effect_def)
  have live: "isProcessAlive w (lePid env)" using en by (simp add: Acquire lock_enabled_def x)
  consider (same) "lwFile w' = lwFile w" "b = h (lePid env)"
    | (free) "free_lock w" "b = h (lePid env)"
    | (taken) "free_lock w" "b" "map_option fst (read_lock (lwFile w')) = Some (lePid env)"
    using e by (auto simp: call_effect_def)
  then show ?thesis
  proof cases
    case same
    then have "holders (lock_action ev x) = holders x"
      unfolding y by (auto simp: holders_def x isProcessAlive_def a)
    with same ok show ?thesis
      unfolding y by (auto simp: mutex_move_def lock_ok_def x isProcessAlive_def a)
  next
    case free
    have "holders x = {}" using free_no_holder [OF ok] free(1) by (simp add: x)
    with free show ?thesis
      unfolding y by (auto simp: mutex_move_def lock_ok_def x isProcessAlive_def a holders_def)
  next
    case taken
    have none: "holders x = {}" using free_no_holder [OF ok] taken(1) by (simp add: x)
    with taken live have "holders (lock_action ev x) = {lePid env}"
      unfolding y by (auto simp: holders_def x isProcessAlive_def a)
    moreover have "lock_ok (lock_action ev x)"
      unfolding y using none taken by (auto simp: lock_ok_def x holders_def isProcessAlive_def a)
    ultimately show ?thesis using none by (auto intro: mutex_moveI)
  qed
next
  case (Release env)
  have q: "quiet env" using en by (simp add: Release lock_enabled_def)
  obtain w h where x: "x = (w, h)" by (cases x)
  show ?thesis
  proof (cases "h (lePid env)")
    case False
    then have "lock_action ev x = (w, h(lePid env := False))"
      by (simp add: Release lock_action_def call_of_def x after_def run_release [OF q])
    moreover have "h(lePid env := False) = h" using False by (simp add: fun_eq_iff)
    ultimately show ?thesis using ok by (simp add: x mutex_move_def)
  next
    case True
    with en have hold: "holders x = {lePid env}"
      using lock_ok_exclusive [OF ok] by (auto simp: Release lock_enabled_def holders_def x)
    obtain w' b where run: "after (release env) (w, True) = (w', b)"
      by (cases "after (release env) (w, True)")
    then have r: "lwAlive w' = lwAlive w" "b \<and> w' = w \<or> \<not> b"
      by (auto simp: after_def run_release [OF q] split: option.splits if_splits)
    from run have y: "lock_action ev x = (w', h(lePid env := b))"
      using True by (simp add: Release lock_action_def call_of_def x)
    show ?thesis
    proof (cases b)
      case True
      with r y \<open>h (lePid env)\<close> have "lock_action ev x = x" by (auto simp: x fun_eq_iff)
      then show ?thesis using ok by (simp add: mutex_move_def)
    next
      case False
      then have "holders (lock_action ev x) = {}"
        unfolding y using hold r(1) by (auto simp: x holders_def isProcessAlive_def)
      moreover from this have "lock_ok (lock_action ev x)" by (auto simp: lock_ok_def holders_def)
      ultimately show ?thesis using hold by (auto intro: mutex_moveI)
    qed
  qed
next
  case (CrashCreating env)
  have q: "quiet env" using en by (simp add: CrashCreating lock_enabled_def)
  let ?w = "fst (after (create_lock env 0) (fst x, False))"
  have "?w = fst x \<or> lwFile (fst x) = None \<and> lwAlive ?w = lwAlive (fst x)"
    by (auto simp: after_def run_calls [OF q] new_file_def split: option.split)
  then have "lock_ok (?w, snd x) \<and> holders (?w, snd x) = holders x"
  proof
    assume "lwFile (fst x) = None \<and> lwAlive ?w = lwAlive (fst x)"
    moreover from this have "holders x = {}"
      by (intro free_no_holder [OF ok]) (simp add: free_lock_def read_lock_def)
    ultimately have "holders (?w, snd x) = {}" by (simp add: holders_def isProcessAlive_def)
    then show ?thesis using \<open>holders x = {}\<close> by (auto simp: lock_ok_def holders_def)
  qed (use ok in simp)
  with crash_refines [of "(?w, snd x)" "lePid env"] show ?thesis
    by (simp add: CrashCreating lock_action_def)
next
  case (Crash p)
  with crash_refines [OF ok, of p] show ?thesis by (simp add: lock_action_def)
next
  case (Start p)
  then have "\<not> lwAlive (fst x) p" using en by (simp add: lock_enabled_def)
  then have "holders (lock_action ev x) = holders x"
    by (auto simp: Start lock_action_def holders_def set_alive_def isProcessAlive_def)
  with ok show ?thesis
    by (auto simp: Start lock_action_def mutex_move_def lock_ok_def set_alive_def isProcessAlive_def)
qed

text \<open>
  C8.  The lock implements a mutex.  In every life of the processes, with crashes at any time, also
  in the middle of creating the file, and with failing system calls, the live processes that hold
  the lock evolve by the steps of the specification, so that at most one holds it, provided no two
  calls overlap and the file can be read.
\<close>

theorem lock_refines_mutex:
  assumes "lock_run x y" and "lock_ok x"
  shows "mutex_step\<^sup>*\<^sup>* (holders x) (holders y) \<and> lock_ok y \<and>
    (\<forall>p q. p \<in> holders y \<and> q \<in> holders y \<longrightarrow> p = q)"
proof -
  have "mutex_step\<^sup>*\<^sup>* (holders x) (holders y) \<and> lock_ok y"
    using assms
  proof (induction rule: lock_run.induct)
    case (step x y ev)
    then have IH: "mutex_step\<^sup>*\<^sup>* (holders x) (holders y)" "lock_ok y" by simp_all
    from action_refines [OF this(2) step.hyps(2)] IH(1) show ?case
      by (auto simp: mutex_move_def)
  qed simp
  then show ?thesis using lock_ok_exclusive by blast
qed

section \<open>Where calls overlap\<close>

text \<open>
  A process reads the lock of another, which releases it and exits before the reader asks whether
  its owner is alive.  A third process has acquired the lock meanwhile; its file is then removed as
  stale, and both own the lock.
\<close>

definition plain_lock_env :: "int \<Rightarrow> lock_env" where
  "plain_lock_env pid =
     \<lparr>lePid = pid, leStartedAt = ''2026-02-02'', leNow = (\<lambda>_. 1770000000000), leMkdirFails = None,
      leFails = (\<lambda>_ _. None), leOthers = (\<lambda>_ _ w. w)\<rparr>"

definition lock_processes :: "int list \<Rightarrow> lock_world" where
  "lock_processes ps = \<lparr>lwFile = None, lwAlive = (\<lambda>p. p \<in> set ps), lwInodes = 0\<rparr>"

definition owner_changes :: "int \<Rightarrow> int \<Rightarrow> lock_world \<Rightarrow> lock_world" where
  "owner_changes p q w =
     fst (after (acquire (plain_lock_env q))
       (set_alive p False (fst (after (release (plain_lock_env p)) (w, True))), False))"

definition racing_env :: "int \<Rightarrow> int \<Rightarrow> int \<Rightarrow> lock_env" where
  "racing_env pid p q = (plain_lock_env pid)
     \<lparr>leOthers := (\<lambda>n pt w. if n = 0 \<and> pt = AtKill then owner_changes p q w else w)\<rparr>"

lemma overlapping_calls_share_the_lock:
  "let w = fst (after (acquire (plain_lock_env 1)) (lock_processes [1, 2, 3], False));
     exit = set_alive 1 False (fst (after (release (plain_lock_env 1)) (w, True)))
   in fst (acquire (plain_lock_env 3) (exit, False)) = Inr () \<and>
     fst (acquire (racing_env 2 1 3) (w, False)) = Inr () \<and>
     lwAlive (fst (after (acquire (racing_env 2 1 3)) (w, False))) 3"
  by code_simp

text \<open>An error while reading counts as an unreadable file: the lock of a live process is removed.\<close>

lemma unreadable_lock_is_taken_over:
  "let w = fst (after (acquire (plain_lock_env 1)) (lock_processes [1, 2], False));
     env = (plain_lock_env 2)\<lparr>leNow := (\<lambda>_. 1770000030000),
       leFails := (\<lambda>_ pt. if pt = AtRead then Some ''EMFILE'' else None)\<rparr>
   in fst (acquire env (w, False)) = Inr () \<and> lwAlive w 1"
  by code_simp

text \<open>A process never takes over the lock a crash left under its own number.\<close>

lemma own_number_blocks:
  assumes "quiet env" and "no_failures env" and "read_lock (lwFile w) = Some (lePid env, t)"
    and "isProcessAlive w (lePid env)"
  shows "acquire env (w, h) = (Inl (AlreadyRunning (lePid env)), (w, h))"
proof -
  obtain f where "lwFile w = Some f" using assms(3) by (cases "lwFile w") (simp_all add: read_lock_def)
  with assms show ?thesis
    by (simp add: acquire_def no_failures_def numeral_2_eq_2 run_calls run_bind)
qed

section \<open>Witnesses\<close>

lemma plain_quiet: "quiet (plain_lock_env p)" "no_failures (plain_lock_env p)"
  by (simp_all add: plain_lock_env_def quiet_def no_failures_def)

theorem acquire_branches_witness:
  "fst (acquire (plain_lock_env 2) (fst (after (acquire (plain_lock_env 1)) (lock_processes [1, 2], False)), False)) =
     Inl (AlreadyRunning 1) \<and>
   fst (acquire (plain_lock_env 2) (fst (after (acquire (plain_lock_env 1)) (lock_processes [2], False)), False)) =
     Inr ()"
  unfolding acquire_branches [OF plain_quiet] after_def
  by (simp add: lock_processes_def own_file_def read_own isProcessAlive_def plain_lock_env_def)

theorem lock_refines_mutex_witness:
  "let x = (lock_processes [1, 2], \<lambda>_. False);
     y = lock_action (Acquire (plain_lock_env 2)) (lock_action (Acquire (plain_lock_env 1)) x)
   in mutex_step\<^sup>*\<^sup>* {} (holders y) \<and> lock_ok y"
proof -
  let ?x = "(lock_processes [1, 2], \<lambda>_. False)" and ?a = "Acquire (plain_lock_env 1)"
    and ?b = "Acquire (plain_lock_env 2)"
  have x: "lock_ok ?x" "holders ?x = {}" by (simp_all add: lock_ok_def holders_def)
  have "lock_enabled ?a ?x" "lock_enabled ?b (lock_action ?a ?x)"
    unfolding lock_enabled_def by (simp_all add: plain_quiet) (code_simp+)
  then have "lock_run ?x (lock_action ?b (lock_action ?a ?x))"
    by (blast intro: lock_run.intros)
  from lock_refines_mutex [OF this x(1)] show ?thesis by (simp add: x(2) Let_def)
qed

end
