(* ===== verification/Cli.thy ===== *)
theory Cli
  imports Health GroupSetCommands BulkCommands QueueWorker Scheduler
begin

text \<open>
  The operator's command line, \<open>src/src/cli/index.ts\<close>: what each command reads, checks, changes and
  prints.  The parsing of the arguments is commander's; a printed value is a constructor here.  The
  commands that connect to WhatsApp are in theory Daemon.

  The environment holds what the commands hand to the services below, the clock and the date parser,
  and the readings of the one worker round a dry-run send makes.
\<close>

section \<open>What is printed\<close>

record public_job =
  pjId :: string
  pjStatus :: job_status
  pjDryRun :: bool
  pjDestinationJid :: string
  pjPayloadType :: payload_type
  pjContent :: "(string option \<times> string option) option"
  pjMediaHash :: "string option"
  pjScheduledAt :: string
  pjAttempts :: string
  pjNextAttemptAt :: "string option"
  pjLastErrorClass :: "string option"
  pjLastErrorMessage :: "string option"
  pjRemoteMessageId :: "string option"
  pjCreatedAt :: string
  pjUpdatedAt :: string

definition publicJob :: "bool \<Rightarrow> queue_job \<Rightarrow> public_job" where
  "publicJob includeContent j =
     \<lparr>pjId = jUuid j, pjStatus = jStatus j, pjDryRun = jDryRun j,
      pjDestinationJid = jDestinationJid j, pjPayloadType = jPayloadType j,
      pjContent = (if includeContent then Some (jText j, jMediaPath j) else None),
      pjMediaHash = jMediaHash j, pjScheduledAt = jScheduledAt j,
      pjAttempts = show_nat (jAttemptCount j) @ ''/'' @ show_nat (jMaxAttempts j),
      pjNextAttemptAt = jNextAttemptAt j, pjLastErrorClass = jLastErrorClass j,
      pjLastErrorMessage = jLastErrorMessage j, pjRemoteMessageId = jRemoteMessageId j,
      pjCreatedAt = jCreatedAt j, pjUpdatedAt = jUpdatedAt j\<rparr>"

datatype cli_output =
    OutDuplicate string
  | OutQueued string job_status
  | OutSimulated bool "public_job option" nat
  | OutForward string bool string job_status
  | OutNoTargets string nat int
  | OutBulkForward string int bulk_result
  | OutBulkSend "string option" "(string \<times> int) list" bulk_result
  | OutSources "forward_summary list"
  | OutBatch message_batch "(job_status \<times> nat) list"
  | OutDestinations "destination list"
  | OutDestination "destination option"
  | OutSets "group_set list"
  | OutSet group_set
  | OutMembers group_set "group_set_member list"
  | OutChanged string set_action nat nat
  | OutDeleted string
  | OutJobs "public_job list"
  | OutJob public_job
  | OutAudit "audit_row list"
  | OutHealth health_report

record cli_env =
  clCommand :: command_env
  clCall :: call_env
  clNow :: int
  clStamp :: string
  clParse :: "string \<Rightarrow> int option"
  clWorker :: worker_env
  clJson :: "string \<Rightarrow> json option"
  clJournal :: string

abbreviation cl_messages :: "cli_env \<Rightarrow> message_env" where
  "cl_messages ce \<equiv> cmMessages (clCommand ce)"

abbreviation cl_codec :: "cli_env \<Rightarrow> jid_codec" where
  "cl_codec ce \<equiv> cmCodec (clCommand ce)"

section \<open>Arguments\<close>

definition from_sum :: "'e + 'a \<Rightarrow> ('s, 'e, 'a) io" where
  "from_sum r = (case r of Inl e \<Rightarrow> throw e | Inr x \<Rightarrow> ret x)"

definition require :: "'e \<Rightarrow> 'a option \<Rightarrow> ('s, 'e, 'a) io" where
  "require e x = (case x of None \<Rightarrow> throw e | Some y \<Rightarrow> ret y)"

definition targetInputs :: "string list \<Rightarrow> string list" where
  "targetInputs values =
     filter (\<lambda>v. v \<noteq> []) (map js_trim (concat (map (js_split (CHR '','')) values)))"

definition show_reason :: "target_issue_reason \<Rightarrow> string" where
  "show_reason r =
     (case r of NotFound \<Rightarrow> ''not found'' | InvalidJid \<Rightarrow> ''invalid JID'' | NotAGroup \<Rightarrow> ''not a group''
      | Disabled \<Rightarrow> ''disabled'' | NotSendable \<Rightarrow> ''not sendable'')"

definition targetIssueMessage :: "target_issue list \<Rightarrow> string" where
  "targetIssueMessage issues =
     join_with '', '' (map (\<lambda>i. tiInput i @ '': '' @ show_reason (tiReason i)) issues)"

definition schedule_at :: "cli_env \<Rightarrow> string option \<Rightarrow> (world, error, int option) io" where
  "schedule_at ce time =
     (case time of
        None \<Rightarrow> ret None
      | Some t \<Rightarrow>
          if t = [] then ret None
          else bindE (from_sum (parseSchedule (clParse ce) t (clNow ce))) (\<lambda>v. ret (Some v)))"

definition requireGroupSet :: "string \<Rightarrow> group_set db_io" where
  "requireGroupSet name =
     bindE (readE (gs_get name)) (require (PlainError (''Group set not found: '' @ name)))"

definition not_stored :: error where
  "not_stored = PlainError (''Forward source is not stored. Use `wts forwardsources` and '' @
     ''forward it into Message Yourself again if needed.'')"

definition expires_before :: error where
  "expires_before = PlainError
     ''Forward source media expires before delivery. Forward it into Message Yourself again.''"

definition requireForwardSource :: "cli_env \<Rightarrow> string \<Rightarrow> int option \<Rightarrow> string db_io" where
  "requireForwardSource ce reference scheduledAt =
     bindE (bindE (forward_resolve reference) (require not_stored)) (\<lambda>source.
       let deliveryTime = (case scheduledAt of None \<Rightarrow> clNow ce | Some t \<Rightarrow> t) in
       if truthy (fsExpiresAt source) \<and>
          (case clParse ce (or_else (fsExpiresAt source) []) of None \<Rightarrow> False | Some e \<Rightarrow> e \<le> deliveryTime)
       then throw expires_before
       else ret (fsSourceKey source))"

section \<open>Sending\<close>

record send_options =
  soDestination :: string
  soText :: "string option"
  soFile :: "string option"
  soCaption :: "string option"
  soFilename :: "string option"
  soAt :: "string option"
  soForce :: bool

definition given :: "string option \<Rightarrow> string option" where
  "given x = (if truthy x then x else None)"

definition send_request :: "send_options \<Rightarrow> int option \<Rightarrow> queue_request" where
  "send_request opts scheduled =
     \<lparr>rqDestination = soDestination opts,
      rqText = (if truthy (soFile opts) then given (soCaption opts) else given (soText opts)),
      rqMediaPath = given (soFile opts), rqFilename = given (soFilename opts), rqScheduledAt = scheduled,
      rqForce = soForce opts, rqActor = Some ''cli'', rqOptions = [], rqBatchId = None, rqDryRun = None\<rparr>"

text \<open>The one round of a new worker with the dry-run transport: whether it did anything, and its sends.\<close>

definition dry_worker :: "cli_env \<Rightarrow> worker_env" where
  "dry_worker ce =
     (clWorker ce)\<lparr>weTransport := dry_run_transport, weConfig := meConfig (cl_messages ce)\<rparr>"

definition dry_round :: "cli_env \<Rightarrow> string \<Rightarrow> (bool \<times> nat) db_io" where
  "dry_round ce reference =
     (\<lambda>s. case processOnce (dry_worker ce) (Some reference) (s, idle_worker) of
            (Inl e, (t, w)) \<Rightarrow> (Inl e, t)
          | (Inr r, (t, w)) \<Rightarrow> (Inr (r = Some True, length (wkSent w)), t))"

definition enqueueAndMaybeDryRun :: "cli_env \<Rightarrow> send_options \<Rightarrow> cli_output world_io" where
  "enqueueAndMaybeDryRun ce opts =
     bindE (schedule_at ce (soAt opts)) (\<lambda>scheduled.
     bindE (enqueue (cl_messages ce) (clCall ce) (send_request opts scheduled)) (\<lambda>result.
       if qrDuplicate result then ret (OutDuplicate (jUuid (qrJob result)))
       else if cfgDryRun (meConfig (cl_messages ce)) \<and> jStatus (qrJob result) = PENDING then
         bindE (on_fst (dry_round ce (jUuid (qrJob result)))) (\<lambda>(processed, calls).
         bindE (on_fst (job_get (jUuid (qrJob result)))) (\<lambda>finished.
         ret (OutSimulated processed (map_option (publicJob False) finished) calls)))
       else ret (OutQueued (jUuid (qrJob result)) (jStatus (qrJob result)))))"

definition cli_forward :: "cli_env \<Rightarrow> string \<Rightarrow> string \<Rightarrow> string option \<Rightarrow> cli_output world_io" where
  "cli_forward ce destination source time =
     bindE (schedule_at ce time) (\<lambda>scheduled.
     bindE (on_fst (requireForwardSource ce source scheduled)) (\<lambda>key.
     bindE (enqueueForward (cl_messages ce) (clCall ce)
         \<lparr>frDestination = destination, frSourceKey = key, frScheduledAt = scheduled,
          frActor = Some ''cli'', frBatchId = None\<rparr>) (\<lambda>result.
     bindE (if \<not> qrDuplicate result \<and> cfgDryRun (meConfig (cl_messages ce)) \<and> jStatus (qrJob result) = PENDING
            then bindE (on_fst (dry_round ce (jUuid (qrJob result)))) (\<lambda>_. ret ()) else ret ()) (\<lambda>_.
     bindE (on_fst (job_get (jUuid (qrJob result)))) (\<lambda>current.
     ret (OutForward key (qrDuplicate result) (jUuid (qrJob result))
       (case current of None \<Rightarrow> jStatus (qrJob result) | Some j \<Rightarrow> jStatus j)))))))"

section \<open>Sending to many\<close>

definition cli_order ::
    "batch_type \<Rightarrow> destination list \<Rightarrow> string option \<Rightarrow> string option \<Rightarrow> int option \<Rightarrow> bool \<Rightarrow> nat \<Rightarrow> bulk_request" where
  "cli_order ty ds t key scheduled force dups =
     \<lparr>bkType = ty, bkDestinations = ds, bkText = t, bkForwardSourceKey = key,
      bkScheduledAt = scheduled, bkForce = force, bkActor = Some ''cli'', bkDuplicateTargets = dups\<rparr>"

text \<open>The destinations of a bulk command: their type, the number requested, duplicates and skipped.\<close>

record selection =
  slType :: batch_type
  slDestinations :: "destination list"
  slRequested :: nat
  slDuplicates :: nat
  slSkipped :: int

datatype forward_mode = ModeAll | ModeMulti "string list" | ModeSet string

definition cli_members :: "string \<Rightarrow> (world, error, group_set_member list) io" where
  "cli_members name =
     bindE (readE (\<lambda>(s, _). gs_members name s)) (require (PlainError (''Group set not found: '' @ name)))"

definition select_forward :: "cli_env \<Rightarrow> forward_mode \<Rightarrow> selection world_io" where
  "select_forward ce mode =
     (case mode of
        ModeAll \<Rightarrow>
          bindE (read_snapshot (clCommand ce)) (\<lambda>snapshot.
            ret \<lparr>slType = BT_sendall, slDestinations = asDestinations snapshot,
                 slRequested = asRequested snapshot, slDuplicates = asDuplicates snapshot,
                 slSkipped = int (asSkipped snapshot)\<rparr>)
      | ModeMulti values \<Rightarrow>
          (let inputs = targetInputs values in
           if inputs = [] then throw (PlainError ''At least one group target is required'')
           else bindE (read_targets (clCommand ce) inputs) (\<lambda>resolved.
             if tgIssues resolved \<noteq> []
             then throw (PlainError (''Multi-forward aborted; invalid targets: '' @
                    targetIssueMessage (tgIssues resolved)))
             else ret \<lparr>slType = BT_sendmulti, slDestinations = tgDestinations resolved,
                    slRequested = length inputs, slDuplicates = tgDuplicates resolved, slSkipped = 0\<rparr>))
      | ModeSet rawName \<Rightarrow>
          bindE (from_sum (normalizeGroupSetName rawName)) (\<lambda>name.
          bindE (cli_members name) (\<lambda>members.
          bindE (read_targets (clCommand ce) (map gmJid (present_members members))) (\<lambda>resolved.
          ret \<lparr>slType = BT_sendset, slDestinations = tgDestinations resolved,
               slRequested = length members, slDuplicates = tgDuplicates resolved,
               slSkipped = int (length members) - int (length (tgDestinations resolved)) -
                 int (tgDuplicates resolved)\<rparr>))))"

definition queueCliForwardBulk ::
    "cli_env \<Rightarrow> forward_mode \<Rightarrow> string \<Rightarrow> string option \<Rightarrow> cli_output world_io" where
  "queueCliForwardBulk ce mode source time =
     bindE (schedule_at ce time) (\<lambda>scheduled.
     bindE (on_fst (requireForwardSource ce source scheduled)) (\<lambda>key.
     bindE (select_forward ce mode) (\<lambda>sel.
       if slDestinations sel = [] then ret (OutNoTargets key (slRequested sel) (slSkipped sel))
       else bindE (submit (clCommand ce) (cli_order (slType sel) (slDestinations sel) None (Some key)
                     scheduled False (slDuplicates sel))) (\<lambda>result.
         ret (OutBulkForward key
           (slSkipped sel + int (brDuplicateJobs result + brDuplicateTargets result)) result)))))"

definition cli_sendall :: "cli_env \<Rightarrow> string \<Rightarrow> bool \<Rightarrow> cli_output world_io" where
  "cli_sendall ce t force =
     bindE (read_snapshot (clCommand ce)) (\<lambda>snapshot.
       if asDestinations snapshot = []
       then throw (PlainError ''No allowed and sendable groups were found'')
       else bindE (submit (clCommand ce) (cli_order BT_sendall (asDestinations snapshot) (Some t) None None
                     force (asDuplicates snapshot))) (\<lambda>result.
         ret (OutBulkSend None (skipped_line (int (asSkipped snapshot))) result)))"

definition cli_sendmulti :: "cli_env \<Rightarrow> string list \<Rightarrow> string \<Rightarrow> bool \<Rightarrow> cli_output world_io" where
  "cli_sendmulti ce rawTargets t force =
     bindE (read_targets (clCommand ce) (targetInputs rawTargets)) (\<lambda>resolved.
       if tgIssues resolved \<noteq> []
       then throw (PlainError (''Multi-send aborted; invalid targets: '' @
              targetIssueMessage (tgIssues resolved)))
       else if tgDestinations resolved = []
       then throw (PlainError ''At least one destination is required'')
       else bindE (submit (clCommand ce) (cli_order BT_sendmulti (tgDestinations resolved) (Some t) None None
                     force (tgDuplicates resolved))) (\<lambda>result.
         ret (OutBulkSend None [] result)))"

definition cli_sendset :: "cli_env \<Rightarrow> string \<Rightarrow> string \<Rightarrow> bool \<Rightarrow> cli_output world_io" where
  "cli_sendset ce rawName t force =
     bindE (from_sum (normalizeGroupSetName rawName)) (\<lambda>name.
     bindE (cli_members name) (\<lambda>members.
     bindE (read_targets (clCommand ce) (map gmJid (present_members members))) (\<lambda>resolved.
       if tgDestinations resolved = []
       then throw (PlainError (''No eligible groups in set: '' @ name))
       else bindE (submit (clCommand ce) (cli_order BT_sendset (tgDestinations resolved) (Some t) None None
                     force (tgDuplicates resolved))) (\<lambda>result.
         ret (OutBulkSend (Some name) (set_summary members resolved) result)))))"

section \<open>Groups and group sets\<close>

definition cli_group_import ::
    "cli_env \<Rightarrow> string \<Rightarrow> string \<Rightarrow> string option \<Rightarrow> cli_output db_io" where
  "cli_group_import ce jid subject al =
     bindE (from_sum (normalizeJid (cl_codec ce) jid)) (\<lambda>normalized.
       if \<not> isGroupJid (cl_codec ce) normalized
       then throw (PlainError ''Only @g.us group JIDs may be imported'')
       else
         bindE (synchronize [\<lparr>ddJid = normalized, ddSubject = subject, ddDescription = None,
             ddOwnerJid = None, ddParticipantCount = None, ddAddressingMode = None,
             ddCanSend = None\<rparr>] ''cli-import'' (clStamp ce)) (\<lambda>_.
         bindE (if truthy al
                then bindE (setAlias normalized al ''cli-import'' (clStamp ce)) (\<lambda>_. ret ()) else ret ()) (\<lambda>_.
         readE (\<lambda>s. OutDestination (resolve normalized s)))))"

definition cli_group_show :: "string \<Rightarrow> cli_output db_io" where
  "cli_group_show reference =
     bindE (bindE (readE (resolve reference))
       (require (PlainError (''Unknown destination: '' @ reference)))) (\<lambda>d.
     ret (OutDestination (Some d)))"

definition printed :: "destination db_io \<Rightarrow> cli_output db_io" where
  "printed m = bindE m (\<lambda>d. ret (OutDestination (Some d)))"

definition cli_group_alias :: "cli_env \<Rightarrow> string \<Rightarrow> string \<Rightarrow> cli_output db_io" where
  "cli_group_alias ce jid al =
     bindE (from_sum (normalizeJid (cl_codec ce) jid)) (\<lambda>normalized.
     printed (setAlias normalized (Some al) ''cli'' (clStamp ce)))"

definition cli_set_create :: "cli_env \<Rightarrow> string \<Rightarrow> cli_output db_io" where
  "cli_set_create ce rawName =
     bindE (from_sum (normalizeGroupSetName rawName)) (\<lambda>name.
     bindE (gs_create name ''cli'' (clStamp ce)) (\<lambda>created.
       case created of
         None \<Rightarrow> throw (PlainError (''Group set already exists: '' @ name))
       | Some g \<Rightarrow> ret (OutSet g)))"

definition cli_set_show :: "string \<Rightarrow> cli_output db_io" where
  "cli_set_show rawName =
     bindE (from_sum (normalizeGroupSetName rawName)) (\<lambda>name.
     bindE (requireGroupSet name) (\<lambda>g.
     readE (\<lambda>s. OutMembers g (or_else (gs_members name s) []))))"

definition show_action :: "set_action \<Rightarrow> string" where
  "show_action action = (case action of AddTargets \<Rightarrow> ''add'' | RemoveTargets \<Rightarrow> ''remove'')"

definition cli_change :: "cli_env \<Rightarrow> set_action \<Rightarrow> string \<Rightarrow> string list \<Rightarrow> membership_change option db_io" where
  "cli_change ce action name jids =
     (case action of
        AddTargets \<Rightarrow> addMembers name jids ''cli'' (clStamp ce)
      | RemoveTargets \<Rightarrow> removeMembers name jids ''cli'' (clStamp ce))"

definition cli_set_modify :: "cli_env \<Rightarrow> set_action \<Rightarrow> string \<Rightarrow> string list \<Rightarrow> cli_output db_io" where
  "cli_set_modify ce action rawName rawTargets =
     bindE (from_sum (normalizeGroupSetName rawName)) (\<lambda>name.
     bindE (requireGroupSet name) (\<lambda>_.
       let inputs = targetInputs rawTargets in
       if inputs = []
       then throw (PlainError (''At least one target is required for groupset '' @ show_action action))
       else bindE (bindE (readE (resolveTargets (cl_codec ce) inputs False)) from_sum) (\<lambda>resolved.
         if tgIssues resolved \<noteq> []
         then throw (PlainError (''Group set '' @ show_action action @ '' aborted; invalid targets: '' @
                targetIssueMessage (tgIssues resolved)))
         else bindE (cli_change ce action name (map dJid (tgDestinations resolved))) (\<lambda>change.
           case change of
             None \<Rightarrow> throw (PlainError (''Group set not found: '' @ name))
           | Some ch \<Rightarrow>
               ret (OutChanged name action (mcChanged ch) (mcUnchanged ch + tgDuplicates resolved))))))"

definition cli_set_delete :: "cli_env \<Rightarrow> string \<Rightarrow> cli_output db_io" where
  "cli_set_delete ce rawName =
     bindE (from_sum (normalizeGroupSetName rawName)) (\<lambda>name.
     bindE (gs_delete name ''cli'' (clStamp ce)) (\<lambda>deleted.
       if deleted then ret (OutDeleted name)
       else throw (PlainError (''Group set not found: '' @ name))))"

section \<open>The queue and the logs\<close>

definition cli_sources :: "int option \<Rightarrow> cli_output db_io" where
  "cli_sources limit =
     (case limit of
        None \<Rightarrow> throw (PlainError ''Limit must be between 1 and 100'')
      | Some n \<Rightarrow>
          if n < 1 \<or> 100 < n then throw (PlainError ''Limit must be between 1 and 100'')
          else readE (\<lambda>s. OutSources (forward_list n s)))"

definition cli_batch :: "string \<Rightarrow> cli_output db_io" where
  "cli_batch i =
     bindE (bindE (readE (batch_get i)) (require (PlainError (''Batch not found: '' @ i)))) (\<lambda>(b, cs).
     ret (OutBatch b cs))"

definition cli_jobs :: "job_status list \<Rightarrow> int \<Rightarrow> cli_output db_io" where
  "cli_jobs statuses limit = readE (\<lambda>s. OutJobs (map (publicJob False) (list_jobs statuses limit s)))"

definition cli_job_show :: "string \<Rightarrow> bool \<Rightarrow> cli_output db_io" where
  "cli_job_show i includeContent =
     bindE (bindE (job_get i) (require (PlainError (''Unknown job: '' @ i)))) (\<lambda>j.
     ret (OutJob (publicJob includeContent j)))"

definition job_printed :: "queue_job db_io \<Rightarrow> cli_output db_io" where
  "job_printed m = bindE m (\<lambda>j. ret (OutJob (publicJob False j)))"

definition pending_statuses :: "job_status list" where
  "pending_statuses = [PENDING, SCHEDULED, RETRY, WAITING_RATE_LIMIT]"

definition cli_status :: "cli_env \<Rightarrow> cli_output db_io" where
  "cli_status ce =
     readE (\<lambda>s. OutHealth (health_of (clJson ce) (clJournal ce) (meConfig (cl_messages ce)) s))"

text \<open>\<open>auth logout --local-only\<close>, and \<open>auth logout\<close> without credentials.\<close>

definition cli_logout_local :: "cli_env \<Rightarrow> unit db_io" where
  "cli_logout_local ce =
     bindE auth_clear (\<lambda>_.
     bindE (state_set ''connectivity'' (Some ''AUTH_REQUIRED'') (clStamp ce)) (\<lambda>_.
     bindE (state_set pause_reason (Some ''AUTH_REQUIRED'') (clStamp ce)) (\<lambda>_.
     audit_add ''auth_logout_local''
       \<lparr>aoActor = Some ''cli'', aoEntityType = None, aoEntityId = None, aoDetails = None\<rparr> (clStamp ce))))"

section \<open>The commands\<close>

datatype cli_command =
    CliSend send_options
  | CliForward string string "string option"
  | CliForwardBulk forward_mode string "string option"
  | CliSendAll string bool
  | CliSendMulti "string list" string bool
  | CliSendSet string string bool
  | CliSources "int option"
  | CliBatch string
  | CliGroups bool
  | CliGroupShow string
  | CliGroupEnable string bool
  | CliGroupAlias string string
  | CliGroupUnalias string
  | CliGroupImport string string "string option"
  | CliSets
  | CliSetCreate string
  | CliSetShow string
  | CliSetModify set_action string "string list"
  | CliSetDelete string
  | CliQueue int
  | CliJobShow string bool
  | CliReview
  | CliFailed
  | CliPending
  | CliRetry string
  | CliCancel string
  | CliMarkSent string
  | CliAudit int
  | CliStatus

definition cli_run :: "cli_env \<Rightarrow> cli_command \<Rightarrow> cli_output world_io" where
  "cli_run ce cmd =
     (case cmd of
        CliSend opts \<Rightarrow> enqueueAndMaybeDryRun ce opts
      | CliForward d source time \<Rightarrow> cli_forward ce d source time
      | CliForwardBulk mode source time \<Rightarrow> queueCliForwardBulk ce mode source time
      | CliSendAll t force \<Rightarrow> cli_sendall ce t force
      | CliSendMulti targets t force \<Rightarrow> cli_sendmulti ce targets t force
      | CliSendSet name t force \<Rightarrow> cli_sendset ce name t force
      | CliSources limit \<Rightarrow> on_fst (cli_sources limit)
      | CliBatch i \<Rightarrow> on_fst (cli_batch i)
      | CliGroups allowed \<Rightarrow> on_fst (readE (\<lambda>s. OutDestinations (list_destinations allowed s)))
      | CliGroupShow r \<Rightarrow> on_fst (cli_group_show r)
      | CliGroupEnable r enabled \<Rightarrow> on_fst (printed (setEnabled r enabled ''cli'' (clStamp ce)))
      | CliGroupAlias jid al \<Rightarrow> on_fst (cli_group_alias ce jid al)
      | CliGroupUnalias r \<Rightarrow> on_fst (printed (setAlias r None ''cli'' (clStamp ce)))
      | CliGroupImport jid subject al \<Rightarrow> on_fst (cli_group_import ce jid subject al)
      | CliSets \<Rightarrow> on_fst (readE (\<lambda>s. OutSets (gs_list s)))
      | CliSetCreate name \<Rightarrow> on_fst (cli_set_create ce name)
      | CliSetShow name \<Rightarrow> on_fst (cli_set_show name)
      | CliSetModify action name targets \<Rightarrow> on_fst (cli_set_modify ce action name targets)
      | CliSetDelete name \<Rightarrow> on_fst (cli_set_delete ce name)
      | CliQueue limit \<Rightarrow> on_fst (cli_jobs [] limit)
      | CliJobShow i content \<Rightarrow> on_fst (cli_job_show i content)
      | CliReview \<Rightarrow> on_fst (cli_jobs [REVIEW_REQUIRED] 100)
      | CliFailed \<Rightarrow> on_fst (cli_jobs [FAILED] 100)
      | CliPending \<Rightarrow> on_fst (cli_jobs pending_statuses 100)
      | CliRetry i \<Rightarrow> on_fst (job_printed (retry i ''cli'' (clStamp ce)))
      | CliCancel i \<Rightarrow> on_fst (job_printed (cancel i ''cli'' (clStamp ce)))
      | CliMarkSent i \<Rightarrow> on_fst (job_printed (markSent i ''cli'' (clStamp ce)))
      | CliAudit limit \<Rightarrow> on_fst (readE (\<lambda>s. OutAudit (audit_list limit s)))
      | CliStatus \<Rightarrow> on_fst (cli_status ce))"

end
