(* ===== verification/CliFacts.thy ===== *)
theory CliFacts
  imports Cli
begin

text \<open>
  What the commands of the operator do: every command is sound, a dry-run send reaches only the
  simulated transport, a forward source is checked against the time of its delivery, a bulk forward
  accounts for every group, and the commands on group sets agree with those of the self-chat.
\<close>

section \<open>Soundness\<close>

lemma keeps_from_sum:
  assumes "state_preorder R"
  shows "keeps R (from_sum r)"
  using assms
  by (auto simp: from_sum_def intro: state_preorder.keeps_ret state_preorder.keeps_throw split: sum.split)

lemma keeps_require:
  assumes "state_preorder R"
  shows "keeps R (require e x)"
  using assms
  by (auto simp: require_def intro: state_preorder.keeps_ret state_preorder.keeps_throw split: option.split)

lemma sound_from_sum [keeps_intro]: "keeps sound (from_sum r)"
  by (rule keeps_from_sum) unfold_locales

lemma sound_require [keeps_intro]: "keeps sound (require e x)"
  by (rule keeps_require) unfold_locales

lemma world_from_sum: "keeps world_sound (from_sum r)"
  by (rule keeps_from_sum) unfold_locales

lemma world_require: "keeps world_sound (require e x)"
  by (rule keeps_require) unfold_locales

lemma world_read: "keeps world_sound (readE f)"
  by (rule world_soundness.keeps_read)

definition cli_others_sound :: "cli_env \<Rightarrow> bool" where
  "cli_others_sound ce \<longleftrightarrow> others_sound_calls (clCommand ce) \<and> others_sound (clWorker ce)"

lemma sound_dry_round:
  assumes "others_sound (clWorker ce)"
  shows "keeps sound (dry_round ce r)"
proof (rule keepsI)
  fix s
  have "others_sound (dry_worker ce)" using assms by (simp add: others_sound_def dry_worker_def)
  from keepsD [OF sound_processOnce [OF this, of "Some r"], of "(s, idle_worker)"]
  show "sound s (after (dry_round ce r) s)"
    by (auto simp: dry_round_def after_def on_first_def split: prod.split sum.split)
qed

lemma sound_requireForwardSource [keeps_intro]: "keeps sound (requireForwardSource ce r time)"
  unfolding requireForwardSource_def Let_def by (intro keeps_intro)

lemma world_schedule: "keeps world_sound (schedule_at ce time)"
  unfolding schedule_at_def by (intro world_rules world_from_sum)

lemma world_members: "keeps world_sound (cli_members name)"
  unfolding cli_members_def by (intro world_rules world_require)

lemma world_select: "keeps world_sound (select_forward ce mode)"
  unfolding select_forward_def Let_def
  by (cases mode)
    (auto intro!: world_rules world_from_sum world_members sound_read_targets sound_read_snapshot)

lemma sound_group_commands:
  "keeps sound (cli_group_import ce jid subject al)" "keeps sound (cli_group_show r)"
  "keeps sound (cli_group_alias ce jid a)" "keeps sound (printed (setEnabled r b actor now))"
  "keeps sound (printed (setAlias r al actor now))"
  unfolding cli_group_import_def cli_group_show_def cli_group_alias_def printed_def
  by (intro keeps_intro)+

lemma sound_set_commands:
  "keeps sound (cli_set_create ce name)" "keeps sound (cli_set_show name)"
  "keeps sound (cli_set_delete ce name)" "keeps sound (cli_set_modify ce action name targets)"
proof -
  have "keeps sound (cli_change ce action name jids)" for name jids
    by (cases action) (simp_all add: cli_change_def sound_addMembers sound_removeMembers)
  then show "keeps sound (cli_set_modify ce action name targets)"
    unfolding cli_set_modify_def requireGroupSet_def Let_def by (intro keeps_intro)
qed (auto simp: cli_set_create_def cli_set_show_def cli_set_delete_def requireGroupSet_def
    intro!: keeps_intro)

lemma sound_queue_commands:
  "keeps sound (cli_sources limit)" "keeps sound (cli_batch i)" "keeps sound (cli_jobs sts n)"
  "keeps sound (cli_job_show i b)" "keeps sound (cli_status ce)" "keeps sound (cli_logout_local ce)"
  "keeps sound m \<Longrightarrow> keeps sound (job_printed m)"
  unfolding cli_sources_def cli_batch_def cli_jobs_def cli_job_show_def cli_status_def
    cli_logout_local_def job_printed_def job_get_def
  by (auto intro!: keeps_intro split: prod.split)

lemma sound_cli_run:
  assumes "cli_others_sound ce"
  shows "keeps world_sound (cli_run ce cmd)"
proof -
  have o: "others_sound_calls (clCommand ce)" "others_sound (clWorker ce)"
    using assms by (simp_all add: cli_others_sound_def)
  note rules = world_rules world_schedule world_members world_select world_from_sum
    sound_enqueue sound_enqueueForward sound_submit [OF o(1)] sound_dry_round [OF o(2)]
    sound_read_targets sound_read_snapshot sound_requireForwardSource
  have "keeps world_sound (enqueueAndMaybeDryRun ce opts)" for opts
    unfolding enqueueAndMaybeDryRun_def job_get_def
    by (intro rules) (auto intro!: rules split: prod.split)
  moreover have "keeps world_sound (cli_forward ce d source time)" for d source time
    unfolding cli_forward_def job_get_def by (intro rules)
  moreover have "keeps world_sound (queueCliForwardBulk ce mode source time)" for mode source time
    unfolding queueCliForwardBulk_def by (intro rules)
  moreover have "keeps world_sound (cli_sendall ce t b)" for t b
    unfolding cli_sendall_def by (intro rules)
  moreover have "keeps world_sound (cli_sendmulti ce ts t b)" for ts t b
    unfolding cli_sendmulti_def by (intro rules)
  moreover have "keeps world_sound (cli_sendset ce n t b)" for n t b
    unfolding cli_sendset_def by (intro rules)
  ultimately show ?thesis
    by (cases cmd) (simp_all add: cli_run_def world_sound_fst sound_group_commands sound_set_commands
        sound_queue_commands sound_retry sound_cancel sound_markSent soundness.keeps_read)
qed

section \<open>Forward sources\<close>

definition usable_source :: "cli_env \<Rightarrow> int \<Rightarrow> forward_source \<Rightarrow> bool" where
  "usable_source ce t f \<longleftrightarrow>
     \<not> (truthy (fsExpiresAt f) \<and>
        (case clParse ce (or_else (fsExpiresAt f) []) of None \<Rightarrow> False | Some e \<Rightarrow> e \<le> t))"

definition named_sources :: "string \<Rightarrow> database \<Rightarrow> forward_source list" where
  "named_sources r s =
     filter (\<lambda>f. if CHR ''|'' \<in> set r then fsSourceKey f = r else message_part (fsSourceKey f) = r)
       (dbForwardSources s)"

lemma forward_resolve_cases:
  "forward_resolve r s =
    (if CHR ''|'' \<notin> set r \<and> 1 < length (named_sources r s)
     then (Inl (PlainError ''Source message ID is ambiguous; use the full source key from forwardsources''), s)
     else (Inr (case named_sources r s of [] \<Rightarrow> None | f # _ \<Rightarrow> forward_get (fsSourceKey f) s), s))"
proof (cases "CHR ''|'' \<in> set r")
  case True
  then have n: "named_sources r s = filter (\<lambda>f. fsSourceKey f = r) (dbForwardSources s)"
    by (simp add: named_sources_def)
  have "(case named_sources r s of [] \<Rightarrow> None | f # _ \<Rightarrow> forward_get (fsSourceKey f) s) = forward_get r s"
  proof (cases "named_sources r s")
    case Nil
    then have "forward_get r s = None"
      by (auto simp: n filter_empty_conv forward_get_def find_first_None_iff)
    with Nil show ?thesis by simp
  next
    case (Cons f fs)
    then have "f \<in> set (named_sources r s)" by simp
    then have "fsSourceKey f = r" unfolding n by simp
    with Cons show ?thesis by simp
  qed
  with True show ?thesis by (simp add: forward_resolve_def)
next
  case False
  then show ?thesis
    by (cases "named_sources r s"; cases "tl (named_sources r s)")
      (auto simp: forward_resolve_def named_sources_def sql_limit_def split: list.split)
qed

lemma forward_source_result:
  "\<exists>res. requireForwardSource ce r scheduled s = (res, s) \<and>
    (case res of
       Inr key \<Rightarrow> \<exists>f. f \<in> set (named_sources r s) \<and> fsSourceKey f = key \<and>
         usable_source ce (case scheduled of None \<Rightarrow> clNow ce | Some t \<Rightarrow> t) f
     | Inl e \<Rightarrow> named_sources r s = [] \<and> e = not_stored \<or>
         1 < length (named_sources r s) \<and> CHR ''|'' \<notin> set r \<or>
         e = expires_before \<and> (\<exists>f. f \<in> set (named_sources r s) \<and>
           \<not> usable_source ce (case scheduled of None \<Rightarrow> clNow ce | Some t \<Rightarrow> t) f))"
proof (cases "CHR ''|'' \<notin> set r \<and> 1 < length (named_sources r s)")
  case True
  then show ?thesis
    by (simp add: requireForwardSource_def run_bind forward_resolve_cases)
next
  case False
  show ?thesis
  proof (cases "named_sources r s")
    case Nil
    with False show ?thesis
      by (simp add: requireForwardSource_def run_bind forward_resolve_cases require_def)
  next
    case (Cons f fs)
    then have "f \<in> set (named_sources r s)" by simp
    then have "f \<in> set (dbForwardSources s)" by (simp add: named_sources_def)
    then obtain g where g: "forward_get (fsSourceKey f) s = Some g"
      by (cases "forward_get (fsSourceKey f) s") (auto simp: forward_get_def find_first_None_iff)
    then have "g \<in> set (dbForwardSources s)" "fsSourceKey g = fsSourceKey f"
      unfolding forward_get_def by (auto dest: find_first_SomeD)
    moreover have "f \<in> set (named_sources r s)" using Cons by simp
    ultimately have "g \<in> set (named_sources r s)" by (auto simp: named_sources_def split: if_splits)
    with False Cons g show ?thesis
      by (auto simp: requireForwardSource_def run_bind forward_resolve_cases require_def Let_def
          usable_source_def)
  qed
qed

text \<open>
  A forward is accepted only for a stored source that is still there at its delivery.  The
  command only reads; the key it returns is that of a stored source the reference names, which does
  not expire before the scheduled time, or before the present one without a schedule; and it fails
  exactly when no source or several sources are named, or when the named one expires by then.
\<close>

theorem forward_source_usable:
  "\<exists>res. requireForwardSource ce r scheduled s = (res, s) \<and>
    (case res of
       Inr key \<Rightarrow> \<exists>f. f \<in> set (named_sources r s) \<and> fsSourceKey f = key \<and>
         usable_source ce (case scheduled of None \<Rightarrow> clNow ce | Some t \<Rightarrow> t) f
     | Inl e \<Rightarrow> named_sources r s = [] \<and> e = not_stored \<or>
         1 < length (named_sources r s) \<and> CHR ''|'' \<notin> set r \<or>
         e = expires_before \<and> (\<exists>f. f \<in> set (named_sources r s) \<and>
           \<not> usable_source ce (case scheduled of None \<Rightarrow> clNow ce | Some t \<Rightarrow> t) f))"
  by (rule forward_source_result)

section \<open>Bulk commands\<close>

text \<open>Alone on the database a bulk request accounts for its destinations, which are distinct.\<close>

lemma cli_submit_result:
  assumes "db_ok s" and "uuids_dashed s" and "fresh_calls ce" and "distinct (map dJid ds)"
    and "submit ce (cli_order ty ds t key time force dups) (s, fs) = (Inr b, (u, fs'))"
  shows "bulk_outcome (cmBatch ce) (length ds) b s u \<and> brDuplicateTargets b = dups"
proof -
  have d: "dashed (ceUuid (cmCalls ce i))" for i using assms(3) by (simp add: fresh_calls_def)
  have run: "bulkEnqueue (cmMessages ce) (cmCalls ce) (\<lambda>_ w. w) (cmBatch ce) (cmBatchNow ce)
      (cli_order ty ds t key time force dups) (s, fs) = (Inr b, (u, fs'))"
    using assms(3,5) by (simp add: submit_def fresh_calls_def)
  have "card (set (map dJid ds)) = length ds" using distinct_card [OF assms(4)] by simp
  with bulkEnqueue_result [OF assms(1,2) d run] show ?thesis
    by (simp add: cli_order_def bulk_outcome_def)
qed

text \<open>The selection of a bulk forward: allowed groups, each once, with numbers that add up.\<close>

definition selection_ok :: "jid_codec \<Rightarrow> database \<Rightarrow> selection \<Rightarrow> bool" where
  "selection_ok c s sel \<longleftrightarrow>
     (\<forall>d \<in> set (slDestinations sel). group_target c s True d) \<and>
     distinct (map dJid (slDestinations sel)) \<and>
     int (length (slDestinations sel)) + int (slDuplicates sel) + slSkipped sel = int (slRequested sel)"

lemma targetInputs_requested: "requested_targets (targetInputs vs) = targetInputs vs"
proof -
  have "map js_trim (filter (\<lambda>v. v \<noteq> []) (map js_trim xs)) = filter (\<lambda>v. v \<noteq> []) (map js_trim xs)" for xs
    by (induction xs) (simp_all add: js_trim_idem)
  then show ?thesis by (simp add: requested_targets_def targetInputs_def)
qed

definition jids_named :: "database \<Rightarrow> bool" where
  "jids_named s \<longleftrightarrow> (\<forall>d \<in> set (dbDestinations s). js_trim (dJid d) \<noteq> [])"

lemma select_forward_ok:
  assumes "select_forward ce mode (s, fs) = (Inr sel, x)" and "jids_named s"
  shows "x = (s, fs) \<and> selection_ok (cl_codec ce) s sel"
proof (cases mode)
  case ModeAll
  let ?el = "filter eligible (list_destinations False s)"
  obtain r where r: "resolveTargets (cl_codec ce) (map dJid ?el) True s = Inr r"
    and len: "length (requested_targets (map dJid ?el)) =
      length (tgDestinations r) + length (tgIssues r) + tgDuplicates r"
    and ok: "\<forall>d \<in> set (tgDestinations r). group_target (cl_codec ce) s True d"
    and dist: "distinct (map (normalizeJid (cl_codec ce) \<circ> dJid) (tgDestinations r))"
    using resolveTargets_result [of "cl_codec ce" "map dJid ?el" True s] by blast
  have "requested_targets (map dJid ?el) = map (js_trim \<circ> dJid) ?el"
    using assms(2) by (auto simp: requested_targets_def jids_named_def list_destinations_def
        intro!: filter_True)
  then have "length ?el = length (tgDestinations r) + length (tgIssues r) + tgDuplicates r"
    using len by simp
  moreover have "length ?el \<le> length (list_destinations False s)" by (rule length_filter_le)
  ultimately show ?thesis
    using assms(1) ok distinct_jids [OF dist]
    by (auto simp: ModeAll select_forward_def read_snapshot_def run_bind snapshotAllowed_def Let_def r
        selection_ok_def)
next
  case (ModeMulti vs)
  obtain r where r: "resolveTargets (cl_codec ce) (targetInputs vs) True s = Inr r"
    and len: "length (requested_targets (targetInputs vs)) =
      length (tgDestinations r) + length (tgIssues r) + tgDuplicates r"
    and ok: "\<forall>d \<in> set (tgDestinations r). group_target (cl_codec ce) s True d"
    and dist: "distinct (map (normalizeJid (cl_codec ce) \<circ> dJid) (tgDestinations r))"
    using resolveTargets_result [of "cl_codec ce" "targetInputs vs" True s] by blast
  show ?thesis
    using assms(1) ok distinct_jids [OF dist] len
    by (auto simp: ModeMulti select_forward_def Let_def read_targets_def run_bind r selection_ok_def
        targetInputs_requested split: if_splits)
next
  case (ModeSet rawName)
  then obtain name members where n: "normalizeGroupSetName rawName = Inr name"
    and m: "gs_members name s = Some members"
    using assms(1) by (cases "normalizeGroupSetName rawName"; cases "gs_members (projr (normalizeGroupSetName rawName)) s")
      (auto simp: select_forward_def from_sum_def cli_members_def require_def run_bind)
  let ?in = "map gmJid (present_members members)"
  obtain r where r: "resolveTargets (cl_codec ce) ?in True s = Inr r"
    and ok: "\<forall>d \<in> set (tgDestinations r). group_target (cl_codec ce) s True d"
    and dist: "distinct (map (normalizeJid (cl_codec ce) \<circ> dJid) (tgDestinations r))"
    using resolveTargets_result [of "cl_codec ce" ?in True s] by blast
  show ?thesis
    using assms(1) ok distinct_jids [OF dist]
    by (auto simp: ModeSet select_forward_def from_sum_def cli_members_def require_def run_bind n m
        read_targets_def r selection_ok_def)
qed

text \<open>A bulk forward that succeeds has read its schedule and its source, and changed nothing by that.\<close>

lemma queueCliForwardBulk_run:
  assumes "queueCliForwardBulk ce mode source time (s, fs) = (Inr out, y)"
  obtains time' key where "queueCliForwardBulk ce mode source time (s, fs) =
      bindE (select_forward ce mode) (\<lambda>sel.
       if slDestinations sel = [] then ret (OutNoTargets key (slRequested sel) (slSkipped sel))
       else bindE (submit (clCommand ce) (cli_order (slType sel) (slDestinations sel) None (Some key)
                     time' False (slDuplicates sel))) (\<lambda>result.
         ret (OutBulkForward key
           (slSkipped sel + int (brDuplicateJobs result + brDuplicateTargets result)) result))) (s, fs)"
proof -
  obtain time' where t: "schedule_at ce time (s, fs) = (Inr time', (s, fs))"
    using assms by (cases time; cases "parseSchedule (clParse ce) (the time) (clNow ce)")
      (auto simp: queueCliForwardBulk_def schedule_at_def from_sum_def run_bind split: if_splits)
  obtain res where r: "requireForwardSource ce source time' s = (res, s)"
    using forward_source_result [of ce source time' s] by blast
  with t assms obtain key where "res = Inr key"
    by (cases res) (auto simp: queueCliForwardBulk_def run_bind run_on_fst after_def)
  with t r that show thesis by (simp add: queueCliForwardBulk_def run_bind run_on_fst after_def)
qed


section \<open>Group sets\<close>

text \<open>The change of a set depends on who makes it in the audit log only.\<close>

lemma change_by_anyone:
  assumes "db_ok s" and "select_set name s = Some g"
  shows "\<exists>ch t u. apply_change action name jids now s = (Inr (Some ch), t) \<and>
    cli_change ce action name jids s = (Inr (Some ch), u) \<and>
    (\<forall>k. set (set_jids t k) = set (set_jids u k)) \<and> dbJobs t = dbJobs u"
proof (cases action)
  case AddTargets
  obtain t where t: "addMembers name jids chat_actor now s =
      (Inr (Some \<lparr>mcChanged = card (set jids - set (set_jids s (grId g))),
                  mcUnchanged = length jids - card (set jids - set (set_jids s (grId g)))\<rparr>), t)"
    "set (set_jids t (grId g)) = set (set_jids s (grId g)) \<union> set jids"
    "\<forall>k. k \<noteq> grId g \<longrightarrow> set_jids t k = set_jids s k" "dbJobs t = dbJobs s"
    using addMembers_result [OF assms, of jids chat_actor now] by blast
  obtain u where u: "addMembers name jids ''cli'' (clStamp ce) s =
      (Inr (Some \<lparr>mcChanged = card (set jids - set (set_jids s (grId g))),
                  mcUnchanged = length jids - card (set jids - set (set_jids s (grId g)))\<rparr>), u)"
    "set (set_jids u (grId g)) = set (set_jids s (grId g)) \<union> set jids"
    "\<forall>k. k \<noteq> grId g \<longrightarrow> set_jids u k = set_jids s k" "dbJobs u = dbJobs s"
    using addMembers_result [OF assms, of jids "''cli''" "clStamp ce"] by blast
  have "set (set_jids t k) = set (set_jids u k)" for k
    using t(2,3) u(2,3) by (cases "k = grId g") simp_all
  with t u AddTargets show ?thesis by (simp add: apply_change_def cli_change_def)
next
  case RemoveTargets
  obtain t where t: "removeMembers name jids chat_actor now s =
      (Inr (Some \<lparr>mcChanged = card (set jids \<inter> set (set_jids s (grId g))),
                  mcUnchanged = length jids - card (set jids \<inter> set (set_jids s (grId g)))\<rparr>), t)"
    "set_jids t (grId g) = filter (\<lambda>x. x \<notin> set jids) (set_jids s (grId g))"
    "\<forall>k. k \<noteq> grId g \<longrightarrow> set_jids t k = set_jids s k" "dbJobs t = dbJobs s"
    using removeMembers_result [OF assms, of jids chat_actor now] by blast
  obtain u where u: "removeMembers name jids ''cli'' (clStamp ce) s =
      (Inr (Some \<lparr>mcChanged = card (set jids \<inter> set (set_jids s (grId g))),
                  mcUnchanged = length jids - card (set jids \<inter> set (set_jids s (grId g)))\<rparr>), u)"
    "set_jids u (grId g) = filter (\<lambda>x. x \<notin> set jids) (set_jids s (grId g))"
    "\<forall>k. k \<noteq> grId g \<longrightarrow> set_jids u k = set_jids s k" "dbJobs u = dbJobs s"
    using removeMembers_result [OF assms, of jids "''cli''" "clStamp ce"] by blast
  have "set (set_jids t k) = set (set_jids u k)" for k
    using t(2,3) u(2,3) by (cases "k = grId g") simp_all
  with t u RemoveTargets show ?thesis by (simp add: apply_change_def cli_change_def)
qed

text \<open>
  C36.  The two ways to change a group set agree.  The command line's \<open>groupset add\<close> and \<open>remove\<close> and
  the self-chat command, given the same set and the same targets, leave the same members in every
  set and the same jobs; they report the same numbers, and one is refused when the other is.
\<close>

theorem groupset_interfaces_agree:
  assumes "db_ok s" and "normalizeGroupSetName rawName = Inr name" and "select_set name s = Some g"
    and "targetInputs rawTargets \<noteq> []"
    and "modify_groupset (cl_codec ce) action name (targetInputs rawTargets) now s = (Inr reply, t)"
    and "cli_set_modify ce action rawName rawTargets s = (out, u)"
  shows "(\<forall>k. set (set_jids t k) = set (set_jids u k)) \<and> dbJobs t = dbJobs u \<and>
    (case out of
       Inl e \<Rightarrow> \<exists>issues. reply = SetAborted action issues \<and> issues \<noteq> []
     | Inr x \<Rightarrow> \<exists>n m. reply = SetUpdated name action n m \<and> x = OutChanged name action n m)"
proof -
  obtain r where r: "resolveTargets (cl_codec ce) (targetInputs rawTargets) False s = Inr r"
    using resolveTargets_result by blast
  have g: "gs_get name s \<noteq> None" using assms(3) by (simp add: gs_get_def)
  then obtain gg where gg: "gs_get name s = Some gg" by blast
  show ?thesis
  proof (cases "tgIssues r = []")
    case False
    with assms(2,4-6) r gg show ?thesis
      by (auto simp: modify_groupset_def cli_set_modify_def from_sum_def requireGroupSet_def
          require_def run_bind Let_def)
  next
    case True
    obtain ch t' u' where "apply_change action name (map dJid (tgDestinations r)) now s = (Inr (Some ch), t')"
      "cli_change ce action name (map dJid (tgDestinations r)) s = (Inr (Some ch), u')"
      "\<forall>k. set (set_jids t' k) = set (set_jids u' k)" "dbJobs t' = dbJobs u'"
      using change_by_anyone [OF assms(1,3)] by metis
    with True assms(2,4-6) r gg show ?thesis
      by (auto simp: modify_groupset_def cli_set_modify_def from_sum_def requireGroupSet_def
          require_def run_bind Let_def)
  qed
qed

section \<open>What is shown of a job\<close>

text \<open>Without \<open>--include-content\<close> the output does not depend on the text or the files of a job.\<close>

lemma publicJob_hides_content:
  "publicJob False (j\<lparr>jText := t, jMediaPath := p, jFilename := f, jOptionsJson := opts,
     jIdempotencyKey := k\<rparr>) = publicJob False j"
  by (simp add: publicJob_def)

section \<open>A dry run\<close>

text \<open>A round of the dry-run worker hands nothing to a live transport.\<close>

lemma dry_worker_transport: "trName (chosen_transport (dry_worker ce) j) = ''dry-run''"
  by (simp add: chosen_transport_def dry_worker_def dry_run_transport_def)

section \<open>The commands on the sample database\<close>

definition sample_cli :: cli_env where
  "sample_cli = \<lparr>clCommand = sample_command_env, clCall = sample_call, clNow = 1770000000000,
     clStamp = ''2026-02-02'', clParse = parse_iso, clWorker = sample_worker_env sample_answer,
     clJson = (\<lambda>_. None), clJournal = ''wal''\<rparr>"

definition sample_source :: forward_source where
  "sample_source = \<lparr>fsSourceKey = ''me|m1'', fsPayload = ''p'', fsContentType = ''text'',
     fsReceivedAt = ''2026-01-01'', fsExpiresAt = None\<rparr>"

definition source_db :: database where
  "source_db = sample_db\<lparr>dbForwardSources := [sample_source],
     dbDestinations := [sample_destination ''1@g.us'' (Some ''ops'') False,
       sample_destination ''2@g.us'' None False]\<rparr>"

lemma source_db_ok: "db_ok source_db" "uuids_dashed source_db" "jids_named source_db"
proof -
  show "uuids_dashed source_db" "jids_named source_db" by code_simp+
  show "db_ok source_db"
    by (simp add: db_ok_defs source_db_def sample_source_def sample_defs active_keys_def is_active_def
        alias_keys_def List.map_filter_def references_ok_def nocase_def)
qed


theorem groupset_interfaces_agree_witness:
  "\<exists>e. fst (cli_set_modify sample_cli AddTargets ''Team'' [''ops,nobody''] sample_sets) = Inl e \<and>
    (\<forall>k. set (set_jids (snd (modify_groupset sample_codec AddTargets ''team'' [''ops'', ''nobody''] ''2026-01-05'' sample_sets)) k) =
       set (set_jids (snd (cli_set_modify sample_cli AddTargets ''Team'' [''ops,nobody''] sample_sets)) k))"
proof -
  let ?c = "cli_set_modify sample_cli AddTargets ''Team'' [''ops,nobody''] sample_sets"
  let ?m = "modify_groupset sample_codec AddTargets ''team'' [''ops'', ''nobody''] ''2026-01-05'' sample_sets"
  have i: "targetInputs [''ops,nobody''] = [''ops'', ''nobody'']"
    "normalizeGroupSetName ''Team'' = Inr ''team''" by code_simp+
  have k: "cl_codec sample_cli = sample_codec" by (simp add: sample_cli_def sample_command_env_def)
  have m: "fst ?m = Inr (SetAborted AddTargets [\<lparr>tiInput = ''nobody'', tiReason = NotFound\<rparr>])"
    by code_simp
  then have mm: "modify_groupset (cl_codec sample_cli) AddTargets ''team'' (targetInputs [''ops,nobody'']) ''2026-01-05'' sample_sets =
      (Inr (SetAborted AddTargets [\<lparr>tiInput = ''nobody'', tiReason = NotFound\<rparr>]), snd ?m)"
    unfolding i k by (metis prod.collapse)
  have g: "select_set ''team'' sample_sets = Some sample_set" by code_simp
  have n: "targetInputs [''ops,nobody''] \<noteq> []" by (simp add: i)
  have cc: "?c = (fst ?c, snd ?c)" by simp
  from groupset_interfaces_agree [OF sample_sets_ok i(2) g n mm cc]
  show ?thesis by (cases "fst ?c") auto
qed

end
