(* ===== verification/Daemon.thy ===== *)
theory Daemon
  imports ConnectionManager ProcessLock CliFacts
begin

text \<open>
  The process as a whole, \<open>src/src/daemon.ts\<close>, and the short connections of the command line,
  \<open>withConnectedManager\<close> of \<open>src/src/cli/index.ts\<close>: who takes the process lock, in which order the
  components are started and stopped, and what is left behind on every way out.

  One record holds the database, the connection manager, the lock and the worker, and whether the
  daemon has created a manager and a self-chat controller.  Waiting for the
  connection is a list of events of the manager; where it ends without the promise being settled,
  and where the worker's loop still goes on, the operation has not returned, which is a result of
  its own here (\<open>None\<close>, \<open>StillRunning\<close>).
\<close>

section \<open>The state of a process\<close>

record process =
  prDb :: database
  prConn :: connection
  prLock :: lock_world
  prHeld :: bool
  prWorker :: worker
  prManager :: bool
  prController :: bool

type_synonym 'a process_io = "(process, error, 'a) io"

definition on_db :: "'a db_io \<Rightarrow> 'a process_io" where
  "on_db m = (\<lambda>p. case m (prDb p) of (r, s) \<Rightarrow> (r, p\<lparr>prDb := s\<rparr>))"

definition on_conn :: "'a conn_io \<Rightarrow> 'a process_io" where
  "on_conn m = (\<lambda>p. case m (prDb p, prConn p) of (r, (s, c)) \<Rightarrow> (r, p\<lparr>prDb := s, prConn := c\<rparr>))"

definition on_worker :: "'a worker_io \<Rightarrow> 'a process_io" where
  "on_worker m = (\<lambda>p. case m (prDb p, prWorker p) of (r, (s, w)) \<Rightarrow> (r, p\<lparr>prDb := s, prWorker := w\<rparr>))"

definition lock_failure :: "lock_error \<Rightarrow> error" where
  "lock_failure e =
     PlainError (case e of
         AlreadyRunning pid \<Rightarrow> ''Daemon is already running with PID '' @ show_int pid
       | NotYetReadable \<Rightarrow> ''Daemon lock exists but is not yet readable''
       | Unacquired \<Rightarrow> ''Unable to acquire daemon process lock''
       | LockIo m \<Rightarrow> m)"

definition on_lock :: "'a lock_io \<Rightarrow> 'a process_io" where
  "on_lock m = (\<lambda>p. case m (prLock p, prHeld p) of
     (r, (w, h)) \<Rightarrow> (map_sum lock_failure id r, p\<lparr>prLock := w, prHeld := h\<rparr>))"

text \<open>A \<open>finally\<close> block with operations of its own: what it throws replaces the result.\<close>

definition lastly :: "('s, 'e, 'a) io \<Rightarrow> ('s, 'e, unit) io \<Rightarrow> ('s, 'e, 'a) io" where
  "lastly m f =
     (\<lambda>s. case m s of (r, t) \<Rightarrow> (case f t of (Inl e, u) \<Rightarrow> (Inl e, u) | (Inr _, u) \<Rightarrow> (r, u)))"

section \<open>Waiting for the connection\<close>

text \<open>\<open>Some True\<close>: the promise of \<open>connect\<close> is resolved; \<open>Some False\<close>: it is rejected.\<close>

definition connect_outcome :: "connection \<Rightarrow> bool option" where
  "connect_outcome c = (if cnConnecting c then None else Some (cnState c = CONNECTED))"

fun await_connect :: "(conn_env \<times> conn_event) list \<Rightarrow> bool option conn_io" where
  "await_connect [] = readE (\<lambda>(s, c). connect_outcome c)"
| "await_connect ((env, ev) # rest) =
     bindE (readE (\<lambda>(s, c). connect_outcome c)) (\<lambda>out.
       if out \<noteq> None then ret out
       else bindE (catchE (conn_action env ev) (\<lambda>_. ret ())) (\<lambda>_. await_connect rest))"

text \<open>A manager without a listener.\<close>

definition bare :: "conn_env \<Rightarrow> conn_env" where
  "bare env = env\<lparr>cvListener := (\<lambda>_ s. s)\<rparr>"

section \<open>A short connection\<close>

record short_env =
  seLock :: lock_env
  seConn :: conn_env
  seEvents :: "(conn_env \<times> conn_event) list"
  seRejection :: error

definition hang_up :: "short_env \<Rightarrow> unit process_io" where
  "hang_up se =
     bindE (on_conn (disconnect_begin (bare (seConn se)))) (\<lambda>_.
     bindE (on_conn (disconnect_end (bare (seConn se)))) (\<lambda>_.
     on_lock (release (seLock se))))"

definition connect_and_wait :: "short_env \<Rightarrow> bool \<Rightarrow> bool option process_io" where
  "connect_and_wait se autoReconnect =
     bindE (on_conn (connect (bare (seConn se)) autoReconnect 0)) (\<lambda>_.
     on_conn (await_connect (map (\<lambda>(env, ev). (bare env, ev)) (seEvents se))))"

definition withConnectedManager :: "short_env \<Rightarrow> 'a process_io \<Rightarrow> 'a option process_io" where
  "withConnectedManager se operation =
     bindE (on_lock (acquire (seLock se))) (\<lambda>_.
     bindE (connect_and_wait se False) (\<lambda>outcome.
       case outcome of
         None \<Rightarrow> ret None
       | Some ok \<Rightarrow>
           lastly
             (if ok then bindE operation (\<lambda>x. ret (Some x)) else throw (seRejection se))
             (hang_up se)))"

definition auth_event :: "string \<Rightarrow> string \<Rightarrow> string \<Rightarrow> unit db_io" where
  "auth_event event actor now =
     audit_add event \<lparr>aoActor = Some actor, aoEntityType = None, aoEntityId = None, aoDetails = None\<rparr> now"

definition auth_login :: "short_env \<Rightarrow> string \<Rightarrow> unit option process_io" where
  "auth_login se actor =
     withConnectedManager se (on_db (auth_event ''auth_login'' actor (cvNow (seConn se))))"

definition logout :: "conn_env \<Rightarrow> error option \<Rightarrow> unit conn_io" where
  "logout env fails =
     bindE logout_begin (\<lambda>_.
     bindE (readE snd) (\<lambda>c.
       case (cnSocket c, fails) of
         (Some _, Some e) \<Rightarrow> throw e
       | _ \<Rightarrow> logout_end env))"

definition auth_logout ::
    "cli_env \<Rightarrow> short_env \<Rightarrow> error option \<Rightarrow> bool \<Rightarrow> unit option process_io" where
  "auth_logout ce se fails localOnly =
     bindE (on_db (readE (hasCredentials (clJson ce)))) (\<lambda>available.
       if localOnly \<or> \<not> available
       then bindE (on_db (cli_logout_local ce)) (\<lambda>_. ret (Some ()))
       else withConnectedManager se (on_conn (logout (bare (seConn se)) fails)))"

text \<open>\<open>groups refresh\<close>: the account's groups come from the current socket.\<close>

definition refresh_now ::
    "jid_codec \<Rightarrow> group_socket \<Rightarrow> string \<Rightarrow> string \<Rightarrow> nat process_io" where
  "refresh_now c socket actor now =
     (\<lambda>p. on_db (refresh c (if cnSocket (prConn p) = None then None else Some socket) actor now) p)"

definition groups_refresh :: "short_env \<Rightarrow> group_socket \<Rightarrow> nat option process_io" where
  "groups_refresh se socket =
     withConnectedManager se (refresh_now (cvCodec (seConn se)) socket ''cli'' (cvNow (seConn se)))"

section \<open>The daemon\<close>

datatype daemon_exit = Stopped | AuthRequiredExit | StillRunning

record daemon_env =
  deConfig :: app_config
  deShort :: short_env
  deOpen :: "error option"
  deJson :: "string \<Rightarrow> json option"
  deGroups :: group_socket
  deRounds :: "worker_env list"
  deNow :: string

text \<open>The listener the daemon registers on the connection.\<close>

definition controller_state :: "bool \<Rightarrow> string" where
  "controller_state attached = (if attached then ''ATTACHED'' else ''DETACHED'')"

definition daemon_listener :: "string \<Rightarrow> nat option \<Rightarrow> database \<Rightarrow> database" where
  "daemon_listener now socket =
     after (state_set ''controller_state'' (Some (controller_state (socket \<noteq> None))) now)"

text \<open>What happens before the transport is chosen.\<close>

definition daemon_begin :: "daemon_env \<Rightarrow> unit process_io" where
  "daemon_begin de =
     on_db (bindE (audit_add ''startup''
         \<lparr>aoActor = Some ''daemon'', aoEntityType = None, aoEntityId = None,
          aoDetails = Some (JObj [(''dryRun'', JBool (cfgDryRun (deConfig de)))])\<rparr> (deNow de)) (\<lambda>_.
       bindE (recoverStaleProcessing (deNow de)) (\<lambda>_. ret ())))"

text \<open>The live start up to the worker: \<open>Some True\<close> to go on, \<open>Some False\<close> to leave for a login.\<close>

definition ask_login :: "daemon_env \<Rightarrow> unit process_io" where
  "ask_login de =
     on_db (bindE (state_set ''connectivity'' (Some ''AUTH_REQUIRED'') (deNow de)) (\<lambda>_.
       bindE (state_set pause_reason (Some ''AUTH_REQUIRED'') (deNow de)) (\<lambda>_.
       auth_event ''auth_required'' ''daemon'' (deNow de))))"

definition go_online :: "daemon_env \<Rightarrow> bool option process_io" where
  "go_online de =
     bindE (on_db (readE (hasCredentials (deJson de)))) (\<lambda>available.
       if \<not> available then bindE (ask_login de) (\<lambda>_. ret (Some False))
       else bindE (writeE (\<lambda>p. p\<lparr>prManager := True\<rparr>)) (\<lambda>_.
            bindE (connect_and_wait (deShort de) True) (\<lambda>outcome.
              case outcome of
                None \<Rightarrow> ret None
              | Some False \<Rightarrow>
                  bindE (readE prConn) (\<lambda>c.
                    if cnState c = STATE_LOGGED_OUT \<or> cnState c = STATE_AUTH_REQUIRED
                    then ret (Some False) else throw (seRejection (deShort de)))
              | Some True \<Rightarrow>
                  bindE (catchE (bindE (refresh_now (cvCodec (seConn (deShort de))) (deGroups de)
                      ''startup'' (deNow de)) (\<lambda>_. ret ())) (\<lambda>_. ret ())) (\<lambda>_.
                  bindE (if cfgSelfControllerEnabled (deConfig de)
                         then bindE (writeE (\<lambda>p. p\<lparr>prController := True\<rparr>)) (\<lambda>_.
                              on_conn (\<lambda>(s, c). (Inr (), (daemon_listener (deNow de) (cnSocket c) s, c))))
                         else ret ()) (\<lambda>_.
                  ret (Some True))))))"

definition choose_transport :: "daemon_env \<Rightarrow> bool option process_io" where
  "choose_transport de =
     (if cfgDryRun (deConfig de)
      then bindE (on_db (state_set ''connectivity'' (Some ''OFFLINE_DRY_RUN'') (deNow de))) (\<lambda>_.
           ret (Some True))
      else go_online de)"

text \<open>
  The loop of the worker; a signal is the stop request between two of its rounds.  The worker has
  the daemon's configuration, and with a dry run the simulated transport.
\<close>

definition daemon_round :: "daemon_env \<Rightarrow> worker_env \<Rightarrow> worker_env" where
  "daemon_round de env = env\<lparr>weConfig := deConfig de,
     weTransport := (if cfgDryRun (deConfig de) then dry_run_transport else weTransport env)\<rparr>"

definition run_worker :: "daemon_env \<Rightarrow> daemon_exit process_io" where
  "run_worker de =
     bindE (on_worker (run (map (daemon_round de) (deRounds de)) (deNow de) (deNow de))) (\<lambda>ended.
       if ended then bindE (on_worker (on_snd (writeE requestStop))) (\<lambda>_. ret Stopped)
       else ret StillRunning)"

definition daemon_body :: "daemon_env \<Rightarrow> daemon_exit process_io" where
  "daemon_body de =
     bindE (daemon_begin de) (\<lambda>_.
     bindE (choose_transport de) (\<lambda>go.
       case go of
         None \<Rightarrow> ret StillRunning
       | Some False \<Rightarrow> ret AuthRequiredExit
       | Some True \<Rightarrow> run_worker de))"

definition daemon_cleanup :: "daemon_env \<Rightarrow> unit process_io" where
  "daemon_cleanup de =
     bindE (readE prController) (\<lambda>controller.
     bindE (if controller
            then on_db (state_set ''controller_state'' (Some (controller_state False)) (deNow de)) else ret ()) (\<lambda>_.
     bindE (on_worker (on_snd (writeE requestStop))) (\<lambda>_.
     bindE (readE prManager) (\<lambda>manager.
     bindE (if manager
            then bindE (on_conn (disconnect_begin (bare (seConn (deShort de))))) (\<lambda>_.
                 on_conn (disconnect_end (bare (seConn (deShort de))))) else ret ()) (\<lambda>_.
     bindE (on_db (auth_event ''shutdown'' ''daemon'' (deNow de))) (\<lambda>_.
     on_lock (release (seLock (deShort de)))))))))"

text \<open>The body with its \<open>finally\<close>, which waits for as long as the body runs.\<close>

definition until_left :: "daemon_env \<Rightarrow> daemon_exit process_io" where
  "until_left de =
     (\<lambda>p. case daemon_body de p of
            (Inr StillRunning, q) \<Rightarrow> (Inr StillRunning, q)
          | (r, q) \<Rightarrow> lastly (\<lambda>q. (r, q)) (daemon_cleanup de) q)"

definition runDaemon :: "daemon_env \<Rightarrow> daemon_exit process_io" where
  "runDaemon de =
     bindE (on_lock (acquire (seLock (deShort de)))) (\<lambda>_.
       case deOpen de of
         Some e \<Rightarrow> bindE (on_lock (release (seLock (deShort de)))) (\<lambda>_. throw e)
       | None \<Rightarrow> until_left de)"

section \<open>Operations on the parts of a process\<close>

lemma run_process_parts:
  "on_db m p = (fst (m (prDb p)), p\<lparr>prDb := after m (prDb p)\<rparr>)"
  "on_conn n p = (fst (n (prDb p, prConn p)),
     p\<lparr>prDb := fst (after n (prDb p, prConn p)), prConn := snd (after n (prDb p, prConn p))\<rparr>)"
  "on_worker k p = (fst (k (prDb p, prWorker p)),
     p\<lparr>prDb := fst (after k (prDb p, prWorker p)), prWorker := snd (after k (prDb p, prWorker p))\<rparr>)"
  "on_lock l p = (map_sum lock_failure id (fst (l (prLock p, prHeld p))),
     p\<lparr>prLock := fst (after l (prLock p, prHeld p)), prHeld := snd (after l (prLock p, prHeld p))\<rparr>)"
  by (simp_all add: on_db_def on_conn_def on_worker_def on_lock_def after_def split: prod.split)

definition on_prDb :: "(database \<Rightarrow> database \<Rightarrow> bool) \<Rightarrow> process \<Rightarrow> process \<Rightarrow> bool" where
  "on_prDb R p q \<longleftrightarrow> R (prDb p) (prDb q)"

text \<open>
  The contract of the services the process uses while it starts, connects and stops: a relation on
  databases that they keep.  Whatever satisfies it is kept by those phases of the process.
\<close>

locale process_keeper = state_preorder R for R :: "database \<Rightarrow> database \<Rightarrow> bool" +
  assumes state_set: "keeps R (state_set k v now)"
    and state_remove: "keeps R (state_remove k)"
    and audited: "keeps R (audit_add e options now)"
    and cleared: "keeps R auth_clear"
    and refreshed: "keeps R (refresh c so actor now)"

sublocale process_keeper \<subseteq> whole: state_preorder "on_prDb R"
  by unfold_locales (auto simp: on_prDb_def refl intro: trans)

sublocale process_keeper \<subseteq> bare: conn_keeper R "bare env" for env
  by unfold_locales (simp_all add: bare_def refl state_set audited cleared state_remove)

context process_keeper
begin

lemma on_db: "keeps R m \<Longrightarrow> keeps (on_prDb R) (on_db m)"
  by (simp add: keeps_def on_prDb_def run_process_parts after_def)

lemma on_conn: "keeps (on_first R) m \<Longrightarrow> keeps (on_prDb R) (on_conn m)"
  by (simp add: keeps_def on_prDb_def on_first_def run_process_parts after_def)

lemma on_worker: "keeps (on_first R) m \<Longrightarrow> keeps (on_prDb R) (on_worker m)"
  by (simp add: keeps_def on_prDb_def on_first_def run_process_parts after_def)

lemma on_lock: "keeps (on_prDb R) (on_lock m)"
  by (simp add: keeps_def on_prDb_def run_process_parts after_def refl)

lemma on_flag: "(\<And>p. prDb (f p) = prDb p) \<Longrightarrow> keeps (on_prDb R) (writeE f)"
  by (simp add: keeps_def on_prDb_def after_def refl)

lemma lastly: "keeps (on_prDb R) m \<Longrightarrow> keeps (on_prDb R) f \<Longrightarrow> keeps (on_prDb R) (lastly m f)"
  by (auto simp: keeps_def lastly_def after_def split: prod.split sum.split)
    (metis snd_conv whole.trans)+

lemma on_first_refl: "on_first R x x"
  by (simp add: on_first_def refl)

lemma action: "keeps (on_first R) (conn_action (bare env) ev)"
proof (rule keepsI)
  fix x
  have "keeps (on_first R) (opened (bare env))"
    by (rule bare.opened) (rule state_set state_remove)+
  then show "on_first R x (after (conn_action (bare env) ev) x)"
    using bare.action [of env ev "snd x" "fst x"] by (simp add: on_first_def)
qed

lemma await: "keeps (on_first R) (await_connect (map (\<lambda>(env, ev). (bare env, ev)) events))"
proof (induction events)
  case Nil
  show ?case unfolding list.map await_connect.simps by (rule bare.whole.keeps_read)
next
  case (Cons x events)
  obtain env ev where x: "x = (env, ev)" by (cases x)
  show ?case
    unfolding x list.map prod.case await_connect.simps
    by (intro bare.whole.keeps_rules action Cons.IH)
qed

lemma keeps_bool:
  "keeps (on_prDb R) m \<Longrightarrow> keeps (on_prDb R) n \<Longrightarrow> keeps (on_prDb R) (case b of True \<Rightarrow> m | False \<Rightarrow> n)"
  by (cases b) simp_all

lemmas parts = keeps_bool whole.keeps_rules on_db on_conn on_worker on_lock on_flag lastly

lemma connect_and_wait: "keeps (on_prDb R) (connect_and_wait se b)"
  unfolding connect_and_wait_def by (intro parts bare.connect await)

lemma event: "keeps R (auth_event e a now)"
  unfolding auth_event_def by (rule audited)

lemma hang_up: "keeps (on_prDb R) (hang_up se)"
  unfolding hang_up_def by (intro parts bare.disconnect)

lemma connected:
  "keeps (on_prDb R) operation \<Longrightarrow> keeps (on_prDb R) (withConnectedManager se operation)"
  unfolding withConnectedManager_def by (intro parts connect_and_wait hang_up)

lemma leave: "keeps (on_first R) (logout (bare env) fails)"
  unfolding logout_def logout_begin_def
  by (auto intro!: bare.whole.keeps_rules bare.conn_write bare.logout split: option.split)

lemma refresh_now: "keeps (on_prDb R) (refresh_now c so actor now)"
proof (rule keepsI)
  fix p
  have "keeps (on_prDb R) (on_db (refresh c so' actor now))" for so' by (rule on_db) (rule refreshed)
  from keepsD [OF this, of p] show "on_prDb R p (after (refresh_now c so actor now) p)"
    by (simp add: refresh_now_def after_def)
qed

lemma ask_login: "keeps (on_prDb R) (ask_login de)"
  unfolding ask_login_def by (intro parts keeps_rules state_set event)

lemma attach: "keeps (on_first R) (\<lambda>(s, c). (Inr (), (daemon_listener now (cnSocket c) s, c)))"
  by (auto simp: keeps_def on_first_def after_def daemon_listener_def intro!: keepsD [OF state_set, unfolded after_def])

lemma go_online: "keeps (on_prDb R) (go_online de)"
  unfolding go_online_def
  by (intro parts keeps_rules ask_login connect_and_wait refresh_now attach) simp_all

lemma choose_transport: "keeps (on_prDb R) (choose_transport de)"
  unfolding choose_transport_def by (intro parts keeps_rules state_set go_online)

lemma cleanup: "keeps (on_prDb R) (daemon_cleanup de)"
  unfolding daemon_cleanup_def
  by (intro parts keeps_rules state_set bare.disconnect event bare.conn_write) (simp_all add: keeps_on_snd on_first_refl refl)

end

section \<open>What the phases leave of the jobs\<close>

text \<open>Outside the worker and the operator's commands a job changes only by being cancelled unsent.\<close>

definition swept_job :: "queue_job \<Rightarrow> queue_job \<Rightarrow> bool" where
  "swept_job a b \<longleftrightarrow>
     jId b = jId a \<and> (jStatus b = jStatus a \<or> is_unsent (jStatus a) \<and> jStatus b = CANCELLED)"

definition swept :: "database \<Rightarrow> database \<Rightarrow> bool" where
  "swept s t \<longleftrightarrow> list_all2 swept_job (dbJobs s) (dbJobs t)"

lemma unsent_not_cancelled: "\<not> is_unsent CANCELLED"
  by (simp add: is_unsent_def unsent_statuses_def)

interpretation sweeping: state_preorder swept
proof
  show "swept s s" for s
    by (simp add: swept_def swept_job_def list.rel_refl)
  show "swept s u" if "swept s t" "swept t u" for s t u
    using that list_all2_trans [of swept_job swept_job swept_job "dbJobs s" "dbJobs t" "dbJobs u"]
      unsent_not_cancelled
    unfolding swept_def by (force simp: swept_job_def)
qed

lemma keeps_swept_same: "(\<And>s. dbJobs (after m s) = dbJobs s) \<Longrightarrow> keeps swept m"
  by (simp add: keeps_def swept_def swept_job_def list.rel_refl)

lemma keeps_swept_update:
  assumes "\<And>j. P j \<Longrightarrow> is_unsent (jStatus j)" and "\<And>j. jId (f j) = jId j" and "\<And>j. jStatus (f j) = CANCELLED"
  shows "keeps swept (update_jobs P f)"
  by (rule keepsI)
    (use assms in \<open>auto simp: swept_def swept_job_def update_jobs_after update_where_def list_all2_map2
      intro!: list.rel_refl_strong\<close>)

lemma swept_audit: "keeps swept (insertAudit e a now)" "keeps swept (audit_add e a now)"
proof -
  show a: "keeps swept (insertAudit e a now)"
    by (rule keeps_swept_same) (simp add: insertAudit_def after_def)
  show "keeps swept (audit_add e a now)"
    unfolding audit_add_def immediateTransaction_def by (intro sweeping.keeps_rules a)
qed

lemma swept_clear: "keeps swept auth_clear"
  unfolding auth_clear_def immediateTransaction_def
  by (intro sweeping.keeps_rules keeps_swept_same) (simp_all add: after_def)

lemma swept_refresh: "keeps swept (refresh c so actor now)"
proof -
  have "keeps swept (upsertDestination now item)" for item
    by (rule keeps_swept_same) (simp add: upsertDestination_def after_def)
  then have "keeps swept (synchronize items actor now)" for items
    unfolding synchronize_def immediateTransaction_def
    by (intro sweeping.keeps_rules keeps_swept_update swept_audit) (simp_all add: cancelled_row_def)
  then show ?thesis
    unfolding refresh_def
    by (auto split: option.split sum.split intro!: sweeping.keeps_rules)
qed

interpretation swept_process: process_keeper swept
  by unfold_locales (simp_all add: swept_audit swept_clear swept_refresh keeps_swept_same
      state_set_def state_remove_def after_def)

interpretation sound_process: process_keeper sound
  by unfold_locales (rule keeps_intro)+

section \<open>The start\<close>

text \<open>A job whose delivery was interrupted is set aside.\<close>

lemma recovered_jobs:
  assumes "recoverStaleProcessing now s = (Inr n, t)"
  shows "dbJobs t = update_where (\<lambda>j. jStatus j = PROCESSING) (review_row now) (dbJobs s)"
proof -
  let ?f = "\<lambda>uuid. insertAudit ''job_review_required''
    \<lparr>aoActor = Some ''startup'', aoEntityType = Some ''job'', aoEntityId = Some uuid,
     aoDetails = Some (JObj [(''reason'', JStr ''delivery_uncertain_after_restart'')])\<rparr> now"
  have "keeps (same_part dbJobs) (forE us ?f)" for us
    by (intro part_keep.keeps_for) (simp add: keeps_def same_part_def insertAudit_def after_def)
  from keepsD [OF this] have loop: "forE us ?f u = (r, v) \<Longrightarrow> dbJobs v = dbJobs u" for us u r v
    by (auto simp: same_part_def after_def) (metis snd_conv)
  show ?thesis
    using assms
    by (auto simp: recoverStaleProcessing_def immediateTransaction_def run_atomically run_bind
        update_jobs_def Let_def dest!: loop split: prod.splits sum.splits if_splits)
qed

lemma daemon_begin_jobs:
  assumes "daemon_begin de p = (Inr (), q)"
  shows "dbJobs (prDb q) = update_where (\<lambda>j. jStatus j = PROCESSING) (review_row (deNow de)) (dbJobs (prDb p))"
proof -
  let ?a = "audit_add ''startup'' \<lparr>aoActor = Some ''daemon'', aoEntityType = None, aoEntityId = None,
    aoDetails = Some (JObj [(''dryRun'', JBool (cfgDryRun (deConfig de)))])\<rparr> (deNow de)"
  obtain s where s: "?a (prDb p) = (Inr (), s)" "dbJobs s = dbJobs (prDb p)"
    by (simp add: run_audit_add)
  obtain n t where "recoverStaleProcessing (deNow de) s = (Inr n, t)" "prDb q = t"
    using assms s(1)
    by (auto simp: daemon_begin_def on_db_def run_bind split: prod.splits sum.splits)
  from recovered_jobs [OF this(1)] this(2) s(2) show ?thesis by simp
qed


section \<open>The way out\<close>

text \<open>A call of \<open>acquire\<close> with nothing in between owns the file or leaves the object as it was.\<close>

lemma acquire_from_result:
  assumes "quiet env" and "acquire_from env n k (w, h) = (r, (w', h'))"
  shows "case r of Inl e \<Rightarrow> h' = h
    | Inr _ \<Rightarrow> h' \<and> map_option fst (read_lock (lwFile w')) = Some (lePid env)"
  using assms(2)
proof (induction k arbitrary: n w)
  case (Suc k)
  note calls = run_calls(1-3) [OF assms(1)]
  show ?case
  proof (cases "lwFile w")
    case None
    with Suc.prems show ?thesis
      by (auto simp: run_bind calls run_on_snd after_def own_simps read_own split: option.splits)
  next
    case (Some f)
    have "snd (inspect env n (w, h)) = (w, h)"
      by (simp add: run_calls(4) [OF assms(1)] split: option.split prod.split)
    then obtain x where i: "inspect env n (w, h) = (x, (w, h))"
      by (cases "inspect env n (w, h)") simp
    show ?thesis
    proof (cases x)
      case (Inl e)
      with Some i Suc.prems show ?thesis by (auto simp: run_bind calls split: option.splits)
    next
      case (Inr b)
      note IH = Suc.IH [of "Suc n" w] Suc.IH [of "Suc n" "w\<lparr>lwFile := None\<rparr>"]
      have c: "create_lock env n (w, h) =
          (case leFails env n AtCreate of Some e \<Rightarrow> (Inl (LockIo e), (w, h)) | None \<Rightarrow> (Inr None, (w, h)))"
        using Some by (simp add: calls)
      show ?thesis
      proof (cases "leFails env n AtCreate")
        case None
        with Some i Inr Suc.prems c IH show ?thesis
          by (cases b; cases "leFails env n AtRemove") (auto simp: run_bind calls(3))
      next
        case (Some e)
        with Suc.prems c show ?thesis by (auto simp: run_bind)
      qed
    qed
  qed
qed auto

lemma acquire_result:
  assumes "quiet env" and "acquire env (w, h) = (r, (w', h'))"
  shows "case r of Inl e \<Rightarrow> h' = h
    | Inr _ \<Rightarrow> h' \<and> map_option fst (read_lock (lwFile w')) = Some (lePid env)"
  using assms(2) acquire_from_result [OF assms(1), of 0 2 w h r w' h']
  by (auto simp: acquire_def split: option.splits)

text \<open>Operations that leave the lock alone, and those that also always return.\<close>

definition lock_part :: "process \<Rightarrow> lock_world \<times> bool" where
  "lock_part p = (prLock p, prHeld p)"

lemma spares_lock:
  "keeps (same_part lock_part) (on_db m)" "keeps (same_part lock_part) (on_conn n)"
  "keeps (same_part lock_part) (on_worker k)" "keeps (same_part lock_part) (refresh_now c so a now)"
  "(\<And>p. lock_part (f p) = lock_part p) \<Longrightarrow> keeps (same_part lock_part) (writeE f)"
  by (simp_all add: keeps_def same_part_def lock_part_def refresh_now_def run_process_parts after_def)

lemma body_spares_lock: "keeps (same_part lock_part) (daemon_body de)"
proof -
  have b: "keeps R m \<Longrightarrow> keeps R n \<Longrightarrow> keeps R (case b of True \<Rightarrow> m | False \<Rightarrow> n)"
    for R :: "process \<Rightarrow> process \<Rightarrow> bool" and m n :: "'a process_io" and b by (cases b) simp_all
  show ?thesis
    unfolding daemon_body_def daemon_begin_def choose_transport_def go_online_def run_worker_def
      ask_login_def connect_and_wait_def
    by (intro part_keep.keeps_rules b spares_lock) (simp_all add: lock_part_def)
qed

definition smooth :: "unit process_io \<Rightarrow> bool" where
  "smooth m \<longleftrightarrow> (\<forall>p. \<exists>q. m p = (Inr (), q) \<and> lock_part q = lock_part p)"

lemma smoothE:
  assumes "smooth m"
  obtains q where "m p = (Inr (), q)" and "lock_part q = lock_part p"
  using assms unfolding smooth_def by blast

lemma smooth_parts:
  "(\<And>s. fst (m s) = Inr ()) \<Longrightarrow> smooth (on_db m)"
  "(\<And>x. fst (n x) = Inr ()) \<Longrightarrow> smooth (on_conn n)"
  "(\<And>x. fst (k x) = Inr ()) \<Longrightarrow> smooth (on_worker k)"
  "smooth (ret ())"
  by (simp_all add: smooth_def run_process_parts lock_part_def)

lemma smooth_if: "smooth m \<Longrightarrow> smooth n \<Longrightarrow> smooth (if b then m else n)"
  by simp

lemma smooth_both:
  assumes "smooth m" and "smooth n"
  shows "smooth (bindE m (\<lambda>_. n))"
  unfolding smooth_def
proof
  fix p
  obtain q where q: "m p = (Inr (), q)" "lock_part q = lock_part p" using assms(1) by (rule smoothE)
  obtain u where "n q = (Inr (), u)" "lock_part u = lock_part q" using assms(2) by (rule smoothE)
  with q show "\<exists>q. bindE m (\<lambda>_. n) p = (Inr (), q) \<and> lock_part q = lock_part p"
    by (simp add: run_bind)
qed

lemma disconnect_returns:
  "fst (disconnect_begin env x) = Inr ()" "fst (disconnect_end env x) = Inr ()"
  by (cases x, simp add: disconnect_begin_def disconnect_end_def run_bind)+

text \<open>The clean-up always reaches the release of the lock.\<close>

definition releases :: "lock_env \<Rightarrow> process \<Rightarrow> (error + unit) \<times> process \<Rightarrow> bool" where
  "releases le p res \<longleftrightarrow>
     fst res = map_sum lock_failure id (fst (release le (lock_part p))) \<and>
     lock_part (snd res) = after (release le) (lock_part p)"

lemma releases_now: "releases le p (on_lock (release le) p)"
  by (simp add: releases_def run_process_parts lock_part_def)

lemma releases_bind:
  assumes "smooth m" and "\<And>q. releases le q (f () q)"
  shows "releases le p (bindE m f p)"
proof -
  obtain q where "m p = (Inr (), q)" "lock_part q = lock_part p" using assms(1) by (rule smoothE)
  with assms(2) [of q] show ?thesis by (simp add: run_bind releases_def)
qed

lemma releases_read: "(\<And>x. releases le p (f x p)) \<Longrightarrow> releases le p (bindE (readE g) f p)"
  by simp

lemma hang_up_releases: "releases (seLock se) p (hang_up se p)"
  unfolding hang_up_def
  by (intro releases_bind releases_now smooth_parts disconnect_returns)

lemma state_set_returns: "fst (state_set k v now s) = Inr ()"
  by (simp add: run_state_set)

lemma auth_event_returns: "fst (auth_event e a now s) = Inr ()"
  by (simp add: auth_event_def run_audit_add)

lemma request_returns: "fst (on_snd (writeE requestStop) x) = Inr ()"
  by (cases x) (simp add: run_on_snd)

lemma cleanup_releases: "releases (seLock (deShort de)) p (daemon_cleanup de p)"
  unfolding daemon_cleanup_def
  by (intro releases_read releases_bind releases_now smooth_if smooth_both smooth_parts
      disconnect_returns state_set_returns auth_event_returns request_returns)

lemma release_owned:
  assumes "quiet le" and "leFails le 0 AtReleaseRead = None" and "leFails le 0 AtReleaseRemove = None"
    and "map_option fst (read_lock (lwFile w)) = Some (lePid le)"
  shows "release le (w, True) = (Inr (), (w\<lparr>lwFile := None\<rparr>, False))"
  using assms by (simp add: run_release)

lemma lastly_releases:
  assumes "releases le u (f u)"
  shows "lock_part (snd (lastly (\<lambda>q. (r, q)) f u)) = after (release le) (lock_part u)"
  using assms by (auto simp: lastly_def releases_def split: prod.split sum.split)


text \<open>The same for a short connection, whatever its operation, as long as that spares the lock.\<close>

lemma connect_returns: "fst (connect env b n x) = Inr ()"
proof (cases x)
  case (Pair s c)
  have "fst (catchE (createSocket env 0) (\<lambda>_. conn_write rejected) (u, d)) = Inr ()" for u d
    by (cases "createSocket env 0 (u, d)"; cases "fst (createSocket env 0 (u, d))")
      (auto simp: run_catch split: sum.split)
  then show ?thesis by (simp add: Pair connect_def run_bind)
qed

lemma await_returns: "\<exists>out. fst (await_connect events x) = Inr out"
proof (induction events arbitrary: x)
  case (Cons e events)
  obtain env ev where e: "e = (env, ev)" by (cases e)
  have "\<exists>t. catchE (conn_action env ev) (\<lambda>_. ret ()) x = (Inr (), t)"
    by (cases "conn_action env ev x"; cases "fst (conn_action env ev x)") (auto simp: run_catch)
  with Cons show ?case by (auto simp: e run_bind)
qed simp

lemma connect_and_wait_returns: "\<exists>out. fst (connect_and_wait se b p) = Inr out"
proof -
  obtain q where "on_conn (connect (bare (seConn se)) b 0) p = (Inr (), q)"
    by (simp add: run_process_parts connect_returns)
  with await_returns show ?thesis
    by (simp add: connect_and_wait_def run_bind run_process_parts(2) [of "await_connect e" for e])
qed

lemma short_connection_frees_lock:
  assumes "quiet (seLock se)" and "leFails (seLock se) 0 AtReleaseRead = None"
    and "leFails (seLock se) 0 AtReleaseRemove = None" and "keeps (same_part lock_part) operation"
    and "withConnectedManager se operation p = (r, q)" and "r \<noteq> Inr None"
    and "fst (acquire (seLock se) (lock_part p)) = Inr ()"
  shows "lwFile (prLock q) = None \<and> \<not> prHeld q"
proof -
  let ?le = "seLock se"
  obtain ra w h where "acquire ?le (lock_part p) = (ra, (w, h))" by (metis prod_cases3)
  then have a: "acquire ?le (lock_part p) = (Inr (), (w, h))" using assms(7) by simp
  have own: "h" "map_option fst (read_lock (lwFile w)) = Some (lePid ?le)"
    using acquire_result [OF assms(1), of "prLock p" "prHeld p"] a by (auto simp: lock_part_def)
  let ?p = "p\<lparr>prLock := w, prHeld := h\<rparr>"
  obtain ro u where c: "connect_and_wait se False ?p = (ro, u)" by (cases "connect_and_wait se False ?p")
  have "keeps (same_part lock_part) (connect_and_wait se False)"
    unfolding connect_and_wait_def by (intro part_keep.keeps_rules spares_lock)
  from keepsD [OF this, of ?p] have "lock_part u = lock_part ?p"
    by (simp add: same_part_def c after_def)
  then have u: "lock_part u = (w, True)" using own by (simp add: lock_part_def)
  obtain out where out: "ro = Inr out"
    using connect_and_wait_returns [of se False ?p] c by auto
  have run: "withConnectedManager se operation p = (case out of
         None \<Rightarrow> ret None
       | Some ok \<Rightarrow>
           lastly
             (if ok then bindE operation (\<lambda>x. ret (Some x)) else throw (seRejection se))
             (hang_up se)) u"
    using a c out by (simp add: withConnectedManager_def run_bind run_process_parts(4) [of "acquire ?le"]
        after_def lock_part_def)
  then obtain ok where ok: "out = Some ok" using assms(5,6) by (cases out) auto
  let ?m = "if ok then bindE operation (\<lambda>x. ret (Some x)) else throw (seRejection se)"
  obtain rm v where v: "?m u = (rm, v)" by (cases "?m u")
  have "keeps (same_part lock_part) ?m" by (intro part_keep.keeps_rules assms(4))
  from keepsD [OF this, of u] have "lock_part v = (w, True)" using u v by (simp add: same_part_def after_def)
  moreover have "q = snd (lastly (\<lambda>q. (rm, q)) (hang_up se) v)"
    using run assms(5) ok v by (simp add: lastly_def) (metis snd_conv)
  ultimately show ?thesis
    using lastly_releases [where f = "hang_up se" and u = v and r = rm, OF hang_up_releases] release_owned [OF assms(1-3) own(2)]
    by (simp add: after_def lock_part_def)
qed

section \<open>Without a login\<close>

lemma same_credentials:
  "keeps (same_part dbAuthCreds) (insertAudit e a now)" "keeps (same_part dbAuthCreds) (audit_add e a now)"
  "keeps (same_part dbAuthCreds) (recoverStaleProcessing now)"
proof -
  show a: "keeps (same_part dbAuthCreds) (insertAudit e a now)" for e a
    by (simp add: keeps_def same_part_def insertAudit_def after_def)
  show "keeps (same_part dbAuthCreds) (audit_add e a now)"
    unfolding audit_add_def immediateTransaction_def by (intro part_keep.keeps_rules a)
  have "keeps (same_part dbAuthCreds) (update_jobs P f)" for P f
    by (simp add: keeps_def same_part_def update_jobs_after)
  then show "keeps (same_part dbAuthCreds) (recoverStaleProcessing now)"
    unfolding recoverStaleProcessing_def immediateTransaction_def by (intro part_keep.keeps_rules a)
qed

lemma daemon_begin_keeps:
  assumes "daemon_begin de p = (r, q)"
  shows "hasCredentials parse (prDb q) = hasCredentials parse (prDb p) \<and>
    q = p\<lparr>prDb := prDb q\<rparr>"
proof -
  let ?m = "bindE (audit_add ''startup''
         \<lparr>aoActor = Some ''daemon'', aoEntityType = None, aoEntityId = None,
          aoDetails = Some (JObj [(''dryRun'', JBool (cfgDryRun (deConfig de)))])\<rparr> (deNow de)) (\<lambda>_.
       bindE (recoverStaleProcessing (deNow de)) (\<lambda>_. ret ()))"
  have "keeps (same_part dbAuthCreds) ?m" by (intro part_keep.keeps_rules same_credentials)
  from keepsD [OF this, of "prDb p"] have "dbAuthCreds (after ?m (prDb p)) = dbAuthCreds (prDb p)"
    by (simp add: same_part_def)
  moreover have "q = p\<lparr>prDb := after ?m (prDb p)\<rparr>"
    using assms by (simp add: daemon_begin_def run_process_parts)
  ultimately show ?thesis by (simp add: hasCredentials_def auth_getCredentials_def)
qed

lemma ask_login_effect:
  "\<exists>t. ask_login de p = (Inr (), p\<lparr>prDb := t\<rparr>) \<and> state_get pause_reason t = Some ''AUTH_REQUIRED'' \<and>
    state_get ''connectivity'' t = Some ''AUTH_REQUIRED''"
  unfolding ask_login_def
  by (simp add: run_process_parts run_bind run_state_set auth_event_def run_audit_add
      after_def [of "bindE m f" for m f])
    (intro exI conjI, rule refl, simp_all add: state_get_audit pause_reason_def)

lemma cleanup_without_manager:
  assumes "\<not> prManager p" and "\<not> prController p"
    and "lastly (\<lambda>q. (r, q)) (daemon_cleanup de) p = (x, q)"
  shows "wkSent (prWorker q) = wkSent (prWorker p) \<and> prConn q = prConn p \<and>
    (\<forall>k. state_get k (prDb q) = state_get k (prDb p)) \<and> (\<forall>y. x = Inr y \<longrightarrow> r = Inr y)"
  using assms
  by (auto simp: daemon_cleanup_def lastly_def run_bind run_process_parts run_on_snd requestStop_def
      auth_event_def run_audit_add state_get_audit after_def [of "audit_add e a n" for e a n]
      after_def [of "on_snd m" for m] after_def [of "writeE f" for f] split: prod.splits sum.splits)

text \<open>
  C19.  Without stored credentials a live daemon asks for a login and leaves.  It hands nothing to a
  transport, opens no connection, reports \<open>AUTH_REQUIRED\<close>, and holds every live worker back with
  that reason.
\<close>

theorem login_required_sends_nothing:
  assumes "\<not> cfgDryRun (deConfig de)" and "\<not> hasCredentials (deJson de) (prDb p)"
    and "\<not> prManager p" and "\<not> prController p" and "runDaemon de p = (Inr exit, q)"
  shows "exit = AuthRequiredExit \<and> wkSent (prWorker q) = wkSent (prWorker p) \<and>
    prConn q = prConn p \<and> state_get ''connectivity'' (prDb q) = Some ''AUTH_REQUIRED'' \<and>
    state_get pause_reason (prDb q) = Some ''AUTH_REQUIRED''"
proof -
  let ?le = "seLock (deShort de)"
  obtain ra w h where a: "acquire ?le (prLock p, prHeld p) = (ra, (w, h))" by (metis prod_cases3)
  let ?p = "p\<lparr>prLock := w, prHeld := h\<rparr>"
  have "on_lock (acquire ?le) p = (map_sum lock_failure id ra, ?p)"
    by (simp add: run_process_parts a after_def)
  with assms(5) have run: "until_left de ?p = (Inr exit, q)" "deOpen de = None"
    by (cases ra; cases "deOpen de"; auto simp: runDaemon_def run_bind split: prod.splits sum.splits)+
  obtain rb u where b: "daemon_begin de ?p = (rb, u)" by (cases "daemon_begin de ?p")
  from daemon_begin_keeps [OF b] assms(2) have u: "\<not> hasCredentials (deJson de) (prDb u)"
    "u = ?p\<lparr>prDb := prDb u\<rparr>" by auto
  obtain t where t: "ask_login de u = (Inr (), u\<lparr>prDb := t\<rparr>)"
    "state_get pause_reason t = Some ''AUTH_REQUIRED''" "state_get ''connectivity'' t = Some ''AUTH_REQUIRED''"
    using ask_login_effect by blast
  have body: "daemon_body de ?p = (case rb of Inl e \<Rightarrow> (Inl e, u) | Inr _ \<Rightarrow> (Inr AuthRequiredExit, u\<lparr>prDb := t\<rparr>))"
    using b u(1) t(1) assms(1)
    by (simp add: daemon_body_def run_bind choose_transport_def go_online_def run_process_parts(1) [of "readE f" for f]
        after_def split: sum.split)
  let ?v = "u\<lparr>prDb := t\<rparr>"
  have v: "\<not> prManager ?v" "\<not> prController ?v" "prConn ?v = prConn p" "wkSent (prWorker ?v) = wkSent (prWorker p)"
    using assms(3,4) by (subst u(2), simp)+
  have none: "\<not> prManager u" "\<not> prController u" using assms(3,4) by (subst u(2), simp)+
  show ?thesis
  proof (cases rb)
    case (Inl e)
    then have "lastly (\<lambda>q. (Inl e, q)) (daemon_cleanup de) u = (Inr exit, q)"
      using run(1) by (simp add: until_left_def body)
    from cleanup_without_manager [OF none this] show ?thesis by simp
  next
    case (Inr _)
    then have "lastly (\<lambda>q. (Inr AuthRequiredExit, q)) (daemon_cleanup de) ?v = (Inr exit, q)"
      using run(1) by (simp add: until_left_def body)
    from cleanup_without_manager [OF v(1,2) this] v(3,4) t(2,3)
    show ?thesis by simp
  qed
qed

text \<open>
  A manager the daemon has created is disconnected on the way out, so the reported state is
  \<open>DISCONNECTED\<close> even after a logout ended the daemon; the reason of the pause stays.
\<close>

lemma way_out_reports_disconnected:
  assumes "prManager p" and "daemon_cleanup de p = (r, q)"
  shows "state_get ''connectivity'' (prDb q) = Some ''DISCONNECTED'' \<and>
    state_get pause_reason (prDb q) = state_get pause_reason (prDb p)"
proof -
  have begin': "after (disconnect_begin (bare env)) (s, c) =
      (s, c\<lparr>cnStopped := True, cnTimer := None, cnSocket := None, cnGeneration := Suc (cnGeneration c)\<rparr>)"
    for env s c
    by (simp add: disconnect_begin_def run_bind after_def bare_def)
  have end': "after (disconnect_end env) (s, c) =
      (after (state_set ''connectivity'' (Some ''DISCONNECTED'') (cvNow env)) s, c\<lparr>cnState := DISCONNECTED\<rparr>)"
    for env s c
    by (simp add: disconnect_end_def after_def [of "setState env DISCONNECTED"] show_conn_state_def)
  have audit: "after (auth_event e a now) s = after (insertAudit e
      \<lparr>aoActor = Some a, aoEntityType = None, aoEntityId = None, aoDetails = None\<rparr> now) s" for e a now s
    by (simp add: auth_event_def after_def [of "audit_add e a n" for e a n] run_audit_add)
  have "''controller_state'' \<noteq> pause_reason" "''connectivity'' \<noteq> pause_reason"
    by (simp_all add: pause_reason_def)
  with assms show ?thesis
    by (cases "prController p")
      (auto simp: daemon_cleanup_def run_bind run_process_parts disconnect_returns state_set_returns
        auth_event_returns request_returns begin' end' audit state_get_audit run_on_snd
        after_def [of "on_snd m" for m])
qed

section \<open>A dry run\<close>

definition only_dry :: "send_event list \<Rightarrow> bool" where
  "only_dry evs \<longleftrightarrow> (\<forall>ev \<in> set evs. seTransport ev = ''dry-run'')"

text \<open>What the worker hands over is handed to the simulated transport.\<close>

definition hands_dry :: "database \<times> worker \<Rightarrow> database \<times> worker \<Rightarrow> bool" where
  "hands_dry x y \<longleftrightarrow> (\<exists>evs. wkSent (snd y) = wkSent (snd x) @ evs \<and> only_dry evs)"

interpretation dry: state_preorder hands_dry
proof
  show "hands_dry x x" for x by (simp add: hands_dry_def only_dry_def)
  show "hands_dry x z" if "hands_dry x y" "hands_dry y z" for x y z
    using that unfolding hands_dry_def only_dry_def by (force simp: ball_Un)
qed

lemma dry_same: "(\<And>x. wkSent (snd (after m x)) = wkSent (snd x)) \<Longrightarrow> keeps hands_dry m"
  by (simp add: keeps_def hands_dry_def only_dry_def)

lemma dry_fst: "keeps hands_dry (on_fst m)"
  by (rule dry_same) (simp add: on_fst_def after_def split: prod.split)

lemma dry_snd: "(\<And>w. wkSent (f w) = wkSent w) \<Longrightarrow> keeps hands_dry (on_snd (writeE f))"
  by (rule dry_same) (simp add: on_snd_def after_def split: prod.split)

lemma dry_stop: "keeps hands_dry (on_snd (writeE requestStop))"
  by (rule dry_snd) (simp add: requestStop_def)

lemma dry_handleError: "keeps hands_dry (handleError env job e)"
  by (rule dry_same) (rule handleError_trace)

lemma dry_attempt:
  assumes "weTransport env = dry_run_transport"
  shows "keeps hands_dry (attempt env job)"
proof -
  have "trName (chosen_transport env job) = ''dry-run''"
    by (simp add: chosen_transport_def assms dry_run_transport_def)
  then have mark: "keeps hands_dry (on_snd (writeE (\<lambda>w. w\<lparr>wkSent := wkSent w @
      [\<lparr>seTransport = trName (chosen_transport env job), seJob = j, seDb = s\<rparr>]\<rparr>)))" for j s
    by (simp add: keeps_def hands_dry_def only_dry_def on_snd_def after_def split: prod.split)
  then have "keeps hands_dry (send_stage env job)"
    unfolding send_stage_def
    by (intro dry.keeps_rules) (auto split: sum.split intro!: dry.keeps_rules mark dry_fst)
  then show ?thesis
    unfolding attempt_def
    by (intro dry.keeps_finally dry.keeps_rules dry_fst dry_handleError)
      (auto simp: hands_dry_def only_dry_def)
qed

lemma dry_processOnce:
  assumes "weTransport env = dry_run_transport"
  shows "keeps hands_dry (processOnce env r)"
proof -
  have "keeps hands_dry (after_pace env job go)" for job go
    unfolding after_pace_def
    by (auto split: option.split bool.split
        intro!: dry.keeps_rules dry_fst dry_stop dry_attempt assms)
  then show ?thesis
    unfolding processOnce_def by (intro dry.keeps_rules dry_fst)
qed

lemma dry_work:
  "\<forall>env \<in> set envs. weTransport env = dry_run_transport \<Longrightarrow> keeps hands_dry (work envs)"
proof (induction envs)
  case Nil
  show ?case unfolding work.simps [of "[]"] list.case by (intro dry.keeps_rules)
next
  case (Cons env envs)
  have "keeps hands_dry (between env)"
    unfolding between_def by (rule dry_same) (simp add: after_def requestStop_def split: prod.split)
  with Cons show ?case
    unfolding work.simps [of "env # envs"] list.case
    by (intro dry.keeps_rules dry_processOnce) auto
qed

lemma dry_run:
  assumes "\<forall>env \<in> set envs. weTransport env = dry_run_transport"
  shows "keeps hands_dry (run envs a b)"
  unfolding run_def
proof (intro dry.keeps_rules dry_fst dry_snd keepsI)
  fix x
  have "hands_dry x (after (work envs) x)" by (rule keepsD [OF dry_work [OF assms]])
  then show "hands_dry x (after (\<lambda>x. case work envs x of
      (Inr False, y) \<Rightarrow> (Inr False, y) | (r, y) \<Rightarrow> (r, stopped b y)) x)"
    by (cases "work envs x"; cases "fst (work envs x)")
      (auto simp: after_def hands_dry_def stopped_def split: bool.split prod.split)
qed simp

text \<open>The same of a whole process, which also keeps its connection and creates no manager.\<close>

definition offline :: "process \<Rightarrow> process \<Rightarrow> bool" where
  "offline p q \<longleftrightarrow> prConn q = prConn p \<and> prManager q = prManager p \<and>
     prController q = prController p \<and> hands_dry (prDb p, prWorker p) (prDb q, prWorker q)"

interpretation offline: state_preorder offline
  by unfold_locales (auto simp: offline_def dry.refl intro: dry.trans)

lemma offline_parts:
  "keeps offline (on_db m)" "keeps offline (on_lock l)"
  "keeps hands_dry k \<Longrightarrow> keeps offline (on_worker k)"
  by (simp_all add: keeps_def offline_def run_process_parts after_def)
    (simp_all add: hands_dry_def only_dry_def)

lemma offline_body:
  assumes "cfgDryRun (deConfig de)"
  shows "keeps offline (daemon_body de)"
proof -
  have "\<forall>env \<in> set (map (daemon_round de) (deRounds de)). weTransport env = dry_run_transport"
    using assms by (simp add: daemon_round_def)
  note r = dry_run [OF this]
  have t: "choose_transport de = bindE (on_db (state_set ''connectivity''
      (Some ''OFFLINE_DRY_RUN'') (deNow de))) (\<lambda>_. ret (Some True))"
    using assms by (simp add: choose_transport_def)
  have b: "keeps offline m \<Longrightarrow> keeps offline n \<Longrightarrow> keeps offline (case b of True \<Rightarrow> m | False \<Rightarrow> n)"
    for m n :: "'a process_io" and b by (cases b) simp_all
  show ?thesis
    unfolding daemon_body_def daemon_begin_def t run_worker_def
    by (intro offline.keeps_rules b offline_parts r dry_stop)
qed

lemma offline_cleanup:
  assumes "\<not> prManager p" and "\<not> prController p"
  shows "offline p (snd (lastly (\<lambda>q. (r, q)) (daemon_cleanup de) p))"
proof -
  obtain x q where l: "lastly (\<lambda>q. (r, q)) (daemon_cleanup de) p = (x, q)"
    by (cases "lastly (\<lambda>q. (r, q)) (daemon_cleanup de) p")
  have "prManager q = prManager p \<and> prController q = prController p"
    using l assms
    by (auto simp: daemon_cleanup_def lastly_def run_bind run_process_parts split: prod.splits sum.splits)
  with cleanup_without_manager [OF assms l] l show ?thesis
    by (simp add: offline_def hands_dry_def only_dry_def)
qed

text \<open>
  C16.  A dry run stays off the network.  A daemon configured for a dry run opens no connection,
  whatever it finds stored, and everything its worker hands over in any number of rounds, with
  whatever other processes do in between, goes to the simulated transport.
\<close>

theorem dry_run_daemon_is_offline:
  assumes "cfgDryRun (deConfig de)" and "\<not> prManager p" and "\<not> prController p"
    and "runDaemon de p = (r, q)"
  shows "prConn q = prConn p \<and> \<not> prManager q \<and> \<not> prController q \<and>
    (\<exists>evs. wkSent (prWorker q) = wkSent (prWorker p) @ evs \<and>
      (\<forall>ev \<in> set evs. seTransport ev = ''dry-run''))"
proof -
  have left: "offline u (after (until_left de) u)" if u: "\<not> prManager u" "\<not> prController u" for u
  proof -
    obtain rb v where b: "daemon_body de u = (rb, v)" by (cases "daemon_body de u")
    have uv: "offline u v" using keepsD [OF offline_body [OF assms(1)], of u] b by (simp add: after_def)
    with u have "offline v (snd (lastly (\<lambda>q. (rb, q)) (daemon_cleanup de) v))"
      by (intro offline_cleanup) (simp_all add: offline_def)
    with uv b show ?thesis
      by (auto simp: until_left_def after_def split: sum.split daemon_exit.split intro: offline.trans)
  qed
  let ?le = "seLock (deShort de)"
  obtain ra u where l: "on_lock (acquire ?le) p = (ra, u)" by (cases "on_lock (acquire ?le) p")
  have pu: "offline p u" using keepsD [OF offline_parts(2), of p "acquire ?le"] l by (simp add: after_def)
  have "offline u q \<or> q = u"
  proof (cases "deOpen de")
    case (Some e)
    have "keeps offline (bindE (on_lock (release ?le)) (\<lambda>_. throw e :: daemon_exit process_io))"
      by (intro offline.keeps_rules offline_parts)
    from keepsD [OF this, of u] assms(4) l Some show ?thesis
      by (cases ra) (auto simp: runDaemon_def run_bind [of _ _ p] after_def)
  next
    case None
    have "offline u (after (until_left de) u)" using pu assms(2,3) by (intro left) (simp_all add: offline_def)
    with assms(4) l None show ?thesis
      by (cases ra) (auto simp: runDaemon_def run_bind [of _ _ p] after_def)
  qed
  with pu have "offline p q" by (blast intro: offline.trans)
  with assms(2,3) show ?thesis by (simp add: offline_def hands_dry_def only_dry_def)
qed

section \<open>The listener of the daemon\<close>

lemma daemon_listener_state:
  "state_get k (daemon_listener now g s) =
    (if k = ''controller_state'' then Some (controller_state (g \<noteq> None)) else state_get k s)"
  by (simp add: daemon_listener_def)

interpretation daemon_held: conn_keeper "inv_rel held" "env\<lparr>cvListener := daemon_listener now\<rparr>" for env now
  by (rule conn_keeper_held) (simp add: held_def daemon_listener_state pause_reason_def)

interpretation daemon_sound: conn_keeper sound "env\<lparr>cvListener := daemon_listener now\<rparr>" for env now
  by (rule conn_keeper_sound) (simp add: daemon_listener_def keepsD [OF sound_state_set])

section \<open>Soundness\<close>

lemma sound_short:
  "keeps (on_prDb sound) (auth_login se actor)" "keeps (on_prDb sound) (groups_refresh se socket)"
  "keeps (on_prDb sound) (auth_logout ce se fails b)"
proof -
  note k = sound_process.parts sound_process.connected sound_process.event sound_process.refresh_now
  show "keeps (on_prDb sound) (auth_login se actor)" "keeps (on_prDb sound) (groups_refresh se socket)"
    unfolding auth_login_def groups_refresh_def by (intro k)+
  show "keeps (on_prDb sound) (auth_logout ce se fails b)"
    unfolding auth_logout_def
    by (intro k sound_process.leave sound_queue_commands soundness.keeps_read)
qed

lemma sound_runDaemon:
  assumes "\<forall>env \<in> set (deRounds de). others_sound env"
  shows "keeps (on_prDb sound) (runDaemon de)"
proof -
  have "\<forall>env \<in> set (map (daemon_round de) (deRounds de)). others_sound env"
    using assms by (simp add: others_sound_def daemon_round_def)
  then have w: "keeps (on_prDb sound) (run_worker de)"
    unfolding run_worker_def
    by (intro sound_process.parts sound_run keeps_on_snd) (simp_all add: soundness.refl)
  have b: "keeps (on_prDb sound) (daemon_body de)"
    unfolding daemon_body_def daemon_begin_def
    by (intro sound_process.parts w sound_process.choose_transport keeps_intro)
  have l: "keeps (on_prDb sound) (lastly (\<lambda>q. (r, q)) (daemon_cleanup de))" for r :: "error + daemon_exit"
    by (intro sound_process.lastly sound_process.cleanup)
      (simp add: keeps_def after_def on_prDb_def soundness.refl)
  have "keeps (on_prDb sound) (until_left de)"
  proof (rule keepsI)
    fix p
    obtain r q where q: "daemon_body de p = (r, q)" by (cases "daemon_body de p")
    have pq: "on_prDb sound p q" using keepsD [OF b, of p] q by (simp add: after_def)
    have "on_prDb sound q (after (lastly (\<lambda>q. (r, q)) (daemon_cleanup de)) q)" by (rule keepsD [OF l])
    with pq q show "on_prDb sound p (after (until_left de) p)"
      by (auto simp: until_left_def after_def split: sum.split daemon_exit.split
          intro: sound_process.whole.trans)
  qed
  then show ?thesis
    unfolding runDaemon_def by (intro sound_process.parts)
qed

section \<open>A process on the sample database\<close>

definition sample_process :: process where
  "sample_process = \<lparr>prDb = sample_db, prConn = new_connection, prLock = lock_processes [7],
     prHeld = False, prWorker = idle_worker, prManager = False, prController = False\<rparr>"

definition sample_daemon :: "bool \<Rightarrow> daemon_env" where
  "sample_daemon dry =
     \<lparr>deConfig = sample_config\<lparr>cfgDryRun := dry\<rparr>,
      deShort = \<lparr>seLock = plain_lock_env 7, seConn = sample_conn_env,
        seEvents = [(sample_conn_env, Update 1 UpdateOpen)], seRejection = PlainError ''closed''\<rparr>,
      deOpen = None, deJson = (\<lambda>_. Some (JObj [(''registered'', JBool True)])), deGroups = sample_groups,
      deRounds = [], deNow = ''2026-02-02''\<rparr>"

text \<open>The same with the due job queued under a dry run.\<close>

definition sample_dry_process :: process where
  "sample_dry_process = sample_process\<lparr>prDb := sample_db\<lparr>dbJobs :=
     [(sample_job 2 ''b-2'' ''1@g.us'' ''k2'' PENDING None True)]\<rparr>\<rparr>"

definition logged_in :: process where
  "logged_in = sample_process\<lparr>prDb := sample_db\<lparr>dbAuthCreds :=
     Some \<lparr>avValueJson = ''creds'', avUpdatedAt = ''2026-01-01''\<rparr>\<rparr>\<rparr>"



theorem login_required_sends_nothing_witness:
  "wkSent (prWorker (snd (runDaemon (sample_daemon False) sample_process))) = [] \<and>
   state_get ''connectivity'' (prDb (snd (runDaemon (sample_daemon False) sample_process))) =
     Some ''AUTH_REQUIRED''"
proof -
  let ?d = "sample_daemon False"
  have c: "\<not> cfgDryRun (deConfig ?d)" "\<not> hasCredentials (deJson ?d) (prDb sample_process)"
    "\<not> prManager sample_process" "\<not> prController sample_process"
    by code_simp+
  have "fst (runDaemon ?d sample_process) = Inr AuthRequiredExit" by code_simp
  then have "runDaemon ?d sample_process = (Inr AuthRequiredExit, snd (runDaemon ?d sample_process))"
    by (metis prod.collapse)
  from login_required_sends_nothing [OF c this] show ?thesis
    by (simp add: sample_process_def idle_worker_def)
qed

theorem dry_run_daemon_is_offline_witness:
  "\<exists>ev. wkSent (prWorker (snd (runDaemon ((sample_daemon True)
        \<lparr>deRounds := [sample_worker_env sample_answer]\<rparr>) sample_dry_process))) = [ev] \<and>
     seTransport ev = ''dry-run''"
proof -
  let ?d = "(sample_daemon True)\<lparr>deRounds := [sample_worker_env sample_answer]\<rparr>"
  let ?x = "runDaemon ?d sample_dry_process"
  have d: "cfgDryRun (deConfig ?d)" by (simp add: sample_daemon_def)
  have p: "\<not> prManager sample_dry_process" "\<not> prController sample_dry_process"
    "wkSent (prWorker sample_dry_process) = []"
    by (simp_all add: sample_dry_process_def sample_process_def idle_worker_def)
  have "length (wkSent (prWorker (snd ?x))) = 1" by code_simp
  moreover have "?x = (fst ?x, snd ?x)" by simp
  from dry_run_daemon_is_offline [OF d p(1,2) this]
  have "\<forall>ev \<in> set (wkSent (prWorker (snd ?x))). seTransport ev = ''dry-run''"
    unfolding p(3) by (elim conjE exE) (simp only: append.simps)
  ultimately show ?thesis by (cases "wkSent (prWorker (snd ?x))") simp_all
qed

end
