(* ===== verification/AuthState.thy ===== *)
theory AuthState
  imports SmallRepos
begin

text \<open>
  The authentication state the library of WhatsApp works on, \<open>src/src/whatsapp/auth-state.ts\<close>: the
  credentials and the session keys, kept as texts in the two tables of the auth repository.  The
  values, their texts and the conversion of an application state key are the library's: a
  parameter, of which only that reading gives back what was written is used.
\<close>

section \<open>Operations\<close>

record 'v auth_codec =
  acSerialize :: "'v \<Rightarrow> string"
  acDeserialize :: "string \<Rightarrow> error + 'v"
  acAppStateKey :: "'v \<Rightarrow> 'v"
  acInit :: 'v

definition load_creds :: "'v auth_codec \<Rightarrow> database \<Rightarrow> error + 'v" where
  "load_creds ac s =
     (case auth_getCredentials s of
        None \<Rightarrow> Inr (acInit ac)
      | Some stored \<Rightarrow> if stored = [] then Inr (acInit ac) else acDeserialize ac stored)"

definition saveCreds :: "'v auth_codec \<Rightarrow> 'v \<Rightarrow> string \<Rightarrow> unit db_io" where
  "saveCreds ac creds now = auth_saveCredentials (acSerialize ac creds) now"

definition key_value :: "'v auth_codec \<Rightarrow> string \<Rightarrow> 'v \<Rightarrow> 'v" where
  "key_value ac type v = (if type = ''app-state-sync-key'' then acAppStateKey ac v else v)"

text \<open>The loop over the keys asked for; the result is the object it fills.\<close>

fun read_keys ::
    "'v auth_codec \<Rightarrow> string \<Rightarrow> (string \<rightharpoonup> string) \<Rightarrow> string list \<Rightarrow> (string \<rightharpoonup> 'v) \<Rightarrow> error + (string \<rightharpoonup> 'v)" where
  "read_keys ac type rows [] result = Inr result"
| "read_keys ac type rows (i # ids) result =
     (case rows i of
        None \<Rightarrow> read_keys ac type rows ids result
      | Some stored \<Rightarrow>
          if stored = [] then read_keys ac type rows ids result
          else (case acDeserialize ac stored of
                  Inl e \<Rightarrow> Inl e
                | Inr v \<Rightarrow> read_keys ac type rows ids (result(i \<mapsto> key_value ac type v))))"

definition keys_get :: "'v auth_codec \<Rightarrow> string \<Rightarrow> string list \<Rightarrow> database \<Rightarrow> error + (string \<rightharpoonup> 'v)" where
  "keys_get ac type ids s = read_keys ac type (auth_getKeys type ids s) ids Map.empty"

text \<open>\<open>None\<close> is \<open>null\<close> or \<open>undefined\<close>: the key is to be deleted.\<close>

definition key_updates ::
    "'v auth_codec \<Rightarrow> (string \<times> (string \<times> 'v option) list) list \<Rightarrow>
     (string \<times> (string \<times> string option) list) list" where
  "key_updates ac data =
     map (\<lambda>(category, vs). (category, map (\<lambda>(i, v). (i, map_option (acSerialize ac) v)) vs)) data"

definition keys_set :: "'v auth_codec \<Rightarrow> (string \<times> (string \<times> 'v option) list) list \<Rightarrow> string \<Rightarrow> unit db_io" where
  "keys_set ac data now = auth_setKeys (key_updates ac data) now"

section \<open>What is written is read\<close>

definition codec_faithful :: "'v auth_codec \<Rightarrow> bool" where
  "codec_faithful ac \<longleftrightarrow> (\<forall>v. acDeserialize ac (acSerialize ac v) = Inr v \<and> acSerialize ac v \<noteq> [])"

definition key_entry :: "'v auth_codec \<Rightarrow> string \<Rightarrow> string option \<Rightarrow> error + 'v option" where
  "key_entry ac type stored =
     (case stored of None \<Rightarrow> Inr None
      | Some t \<Rightarrow> if t = [] then Inr None
          else (case acDeserialize ac t of Inl e \<Rightarrow> Inl e | Inr v \<Rightarrow> Inr (Some (key_value ac type v))))"

lemma read_keys_Inr:
  "read_keys ac type rows ids result = Inr m \<longleftrightarrow>
    (\<forall>i. if i \<in> set ids
         then \<exists>v. key_entry ac type (rows i) = Inr v \<and> m i = (case v of None \<Rightarrow> result i | Some x \<Rightarrow> Some x)
         else m i = result i)"
proof (induction ids arbitrary: result)
  case Nil
  then show ?case by auto
next
  case (Cons i ids)
  show ?case
  proof (cases "key_entry ac type (rows i)")
    case (Inl e)
    then have "read_keys ac type rows (i # ids) result = Inl e"
      by (auto simp: key_entry_def split: option.splits sum.splits if_splits)
    with Inl show ?thesis by (auto intro!: exI [of _ i])
  next
    case (Inr v)
    then have eq: "read_keys ac type rows (i # ids) result =
        read_keys ac type rows ids (case v of None \<Rightarrow> result | Some x \<Rightarrow> result(i \<mapsto> x))"
      by (auto simp: key_entry_def split: option.splits sum.splits if_splits)
    show ?thesis
      unfolding eq Cons.IH
    proof (rule iff_allI)
      fix j
      show "(if j \<in> set ids
          then \<exists>w. key_entry ac type (rows j) = Inr w \<and>
            m j = (case w of None \<Rightarrow> (case v of None \<Rightarrow> result | Some x \<Rightarrow> result(i \<mapsto> x)) j | Some x \<Rightarrow> Some x)
          else m j = (case v of None \<Rightarrow> result | Some x \<Rightarrow> result(i \<mapsto> x)) j) \<longleftrightarrow>
        (if j \<in> set (i # ids)
          then \<exists>w. key_entry ac type (rows j) = Inr w \<and> m j = (case w of None \<Rightarrow> result j | Some x \<Rightarrow> Some x)
          else m j = result j)"
        using Inr by (cases "j = i"; cases v) (auto split: option.splits)
    qed
  qed
qed

text \<open>The value the data gives a key, if it mentions the key.\<close>

definition written :: "(string \<times> (string \<times> 'v option) list) list \<Rightarrow> string \<Rightarrow> string \<Rightarrow> 'v option option" where
  "written data category i = map_of (concat (map (\<lambda>(c, vs). map (\<lambda>(i, v). ((c, i), v)) vs) data)) (category, i)"

definition distinct_data :: "(string \<times> (string \<times> 'v option) list) list \<Rightarrow> bool" where
  "distinct_data data \<longleftrightarrow> distinct (map fst (concat (map (\<lambda>(c, vs). map (\<lambda>(i, v). ((c, i), v)) vs) data)))"

lemma entries_of_updates:
  "auth_entries (key_updates ac data) =
    map (\<lambda>(k, v). (k, map_option (acSerialize ac) v)) (concat (map (\<lambda>(c, vs). map (\<lambda>(i, v). ((c, i), v)) vs) data))"
  by (simp add: auth_entries_def key_updates_def map_concat comp_def case_prod_beta)

lemma key_after_set:
  assumes "distinct_data data"
  shows "auth_key (category, i) (after (keys_set ac data now) s) =
    (case written data category i of None \<Rightarrow> auth_key (category, i) s
     | Some v \<Rightarrow> map_option (acSerialize ac) v)"
proof -
  let ?ws = "auth_entries (key_updates ac data)"
  have w: "after (case p of (k, v) \<Rightarrow> (writeE (auth_write_key now k v) :: unit db_io)) = (case p of (k, v) \<Rightarrow> auth_write_key now k v)"
    for p by (cases p) (simp add: after_def fun_eq_iff)
  have "(forE ?ws (\<lambda>(k, v). writeE (auth_write_key now k v)) :: unit list db_io) s =
      (Inr (replicate (length ?ws) ()), fold (\<lambda>p. after (case p of (k, v) \<Rightarrow> (writeE (auth_write_key now k v) :: unit db_io))) ?ws s)"
    using forE_fold [where f = "\<lambda>(k, v). writeE (auth_write_key now k v)" and xs = ?ws and s = s]
    by (simp add: after_def case_prod_beta)
  then have "after (keys_set ac data now) s = fold (\<lambda>(k, v). auth_write_key now k v) ?ws s"
    by (simp add: keys_set_def auth_setKeys_def immediateTransaction_def run_atomically run_bind w
        after_def [of "atomically m" for m])
  moreover have "distinct (map fst ?ws)"
    using assms by (simp add: entries_of_updates distinct_data_def comp_def case_prod_beta)
  ultimately show ?thesis
    by (simp add: auth_keys.fetch_puts_distinct entries_of_updates map_of_map written_def
        split: option.split)
qed

text \<open>
  C38.  Session keys survive the database.  After a write the keys that were given a value are read
  back with it (an application state key in its converted form), the keys that were given \<open>null\<close> are
  gone, and every other key reads as before.
\<close>

theorem keys_roundtrip:
  assumes "codec_faithful ac" and "distinct_data data" and "keys_get ac type ids s = Inr old"
  shows "\<exists>m. keys_get ac type ids (after (keys_set ac data now) s) = Inr m \<and>
    (\<forall>i \<in> set ids. m i =
      (case written data type i of None \<Rightarrow> old i | Some v \<Rightarrow> map_option (key_value ac type) v))"
proof -
  let ?s = "after (keys_set ac data now) s"
  have rows: "auth_getKeys type ids u i = auth_key (type, i) u" if "i \<in> set ids" for u i
    using that by (simp add: auth_getKeys_def auth_key_def)
  have old: "key_entry ac type (auth_key (type, i) s) = Inr (old i)" if "i \<in> set ids" for i
  proof -
    have "if i \<in> set ids
        then \<exists>v. key_entry ac type (auth_getKeys type ids s i) = Inr v \<and>
          old i = (case v of None \<Rightarrow> None | Some x \<Rightarrow> Some x)
        else old i = None"
      using assms(3) unfolding keys_get_def read_keys_Inr by blast
    with that show ?thesis by (auto simp: rows split: option.splits)
  qed
  have new: "key_entry ac type (auth_key (type, i) ?s) = Inr
      (case written data type i of None \<Rightarrow> old i | Some v \<Rightarrow> map_option (key_value ac type) v)"
    if "i \<in> set ids" for i
    using old [OF that] assms(1) unfolding key_after_set [OF assms(2)]
    by (auto simp: key_entry_def codec_faithful_def split: option.split)
  let ?m = "\<lambda>i. if i \<in> set ids then
      (case written data type i of None \<Rightarrow> old i | Some v \<Rightarrow> map_option (key_value ac type) v) else None"
  have "keys_get ac type ids ?s = Inr ?m"
    unfolding keys_get_def read_keys_Inr by (auto simp: rows new split: option.splits)
  then show ?thesis by (intro exI [of _ ?m]) simp
qed

section \<open>Witness\<close>

text \<open>Values that are their own texts, after a letter.\<close>

definition plain_codec :: "string auth_codec" where
  "plain_codec = \<lparr>acSerialize = (\<lambda>v. CHR ''J'' # v), acDeserialize = (\<lambda>t. Inr (tl t)),
     acAppStateKey = (\<lambda>v. v), acInit = []\<rparr>"

theorem keys_roundtrip_witness:
  "\<exists>m. keys_get plain_codec ''session'' [''a'', ''b'']
      (after (keys_set plain_codec [(''session'', [(''a'', Some ''x''), (''b'', None)])] ''2026-02-02'') empty_db) =
      Inr m \<and> m ''a'' = Some ''x'' \<and> m ''b'' = None"
proof -
  let ?d = "[(''session'', [(''a'', Some ''x''), (''b'', None)])]"
  have c: "codec_faithful plain_codec" by (simp add: codec_faithful_def plain_codec_def)
  have d: "distinct_data ?d" by (simp add: distinct_data_def)
  have "keys_get plain_codec ''session'' [''a'', ''b''] empty_db = Inr Map.empty"
    by (simp add: keys_get_def auth_getKeys_def empty_db_def)
  from keys_roundtrip [OF c d this, of "''2026-02-02''"] show ?thesis
    by (auto simp: written_def key_value_def)
qed

end
