(* ===== verification/System.thy ===== *)
theory System
  imports Daemon SelfController AuthState
begin

text \<open>
  The program as a whole: every process works on one database, and what happens to it is a sequence of
  commands of the operator, messages of the self chat, rounds of the worker, events of the connection,
  runs of the daemon and short connections, in any order.

  The specification is a table of jobs that only grows and whose rows move along the transition table;
  the program refines it, and its database always satisfies the constraints of its schema.
\<close>

section \<open>Steps of the program\<close>

text \<open>
  Each step is one operation with the environment of its moment.  What other processes do while it waits
  is part of that environment and restricted as the steps themselves are: it keeps \<open>sound\<close>.
\<close>

inductive system_step :: "world \<Rightarrow> world \<Rightarrow> bool" where
  operator: "cli_others_sound ce \<Longrightarrow> system_step w (after (cli_run ce cmd) w)"
| self_chat: "others_sound_calls (exCommand ex) \<Longrightarrow> ceExecute ce = executor ex \<Longrightarrow>
    system_step w (fst (after (handleUpsert ce event) (w, chat)))"
| worker_round: "others_sound env \<Longrightarrow>
    system_step (s, fs) (fst (after (processOnce env reference) (s, wk)), fs)"
| socket_event: "(\<And>g t. sound t (cvListener env g t)) \<Longrightarrow>
    system_step (s, fs) (fst (after (conn_action env ev) (s, conn)), fs)"
| session_keys: "system_step (s, fs) (after (keys_set (codec :: string auth_codec) entries now) s, fs)"
| credentials: "system_step (s, fs) (after (saveCreds (codec :: string auth_codec) creds now) s, fs)"
| service: "\<forall>env \<in> set (deRounds de). others_sound env \<Longrightarrow>
    system_step (prDb p, fs) (prDb (after (runDaemon de) p), fs)"
| login: "system_step (prDb p, fs) (prDb (after (auth_login se actor) p), fs)"
| logging_out: "system_step (prDb p, fs) (prDb (after (auth_logout ce se fails localOnly) p), fs)"
| refreshing: "system_step (prDb p, fs) (prDb (after (groups_refresh se sock) p), fs)"

definition system_run :: "world \<Rightarrow> world \<Rightarrow> bool" where
  "system_run = system_step\<^sup>*\<^sup>*"

section \<open>Every step is sound\<close>

text \<open>The chat keeps what its executor keeps.\<close>

definition chat_sound :: "world \<times> 'r chat \<Rightarrow> world \<times> 'r chat \<Rightarrow> bool" where
  "chat_sound x y \<longleftrightarrow> world_sound (fst x) (fst y)"

interpretation chats: state_preorder chat_sound
  by unfold_locales (auto simp: chat_sound_def on_first_def intro: soundness.refl soundness.trans)

lemma chat_on_world: "keeps world_sound m \<Longrightarrow> keeps chat_sound (on_fst m)"
  by (auto simp: keeps_def chat_sound_def after_def on_fst_def split: prod.split) (metis snd_conv)

lemma chat_on_db: "keeps sound m \<Longrightarrow> keeps chat_sound (on_fst (on_fst m))"
  by (intro chat_on_world keeps_on_fst)

lemma chat_on_chat: "keeps chat_sound (on_snd m)"
  by (auto simp: keeps_def chat_sound_def after_def on_first_def on_snd_def soundness.refl split: prod.split)

lemma sound_storeForwardSource: "keeps sound (storeForwardSource ce m)"
  unfolding storeForwardSource_def Let_def by (auto intro!: keeps_intro split: option.split)

lemma sound_handleUpsert:
  assumes "\<And>t key. keeps world_sound (ceExecute ce t key)"
  shows "keeps chat_sound (handleUpsert ce event)"
proof -
  have send: "keeps chat_sound (send_reply ce i t)" for i t
    unfolding send_reply_def by (intro chats.keeps_rules chat_on_chat)
  have cmd: "keeps chat_sound (run_command ce i t m)" for i t m
    unfolding run_command_def by (intro chats.keeps_rules chat_on_chat chat_on_world assms)
  have "keeps chat_sound (handleMessage ce m)" for m
    unfolding handleMessage_def handle_command_def answer_command_def Let_def
    by (intro chats.keeps_rules send cmd chat_on_db keeps_intro)
  then show ?thesis
    unfolding handleUpsert_def by (intro chats.keeps_rules chat_on_db sound_storeForwardSource)
qed

lemma sound_on_process: "keeps (on_prDb sound) m \<Longrightarrow> sound (prDb p) (prDb (after m p))"
  by (drule keepsD [of _ _ p]) (simp add: on_prDb_def)

lemma system_step_sound: "system_step w w' \<Longrightarrow> sound (fst w) (fst w')"
proof (induction rule: system_step.induct)
  case (operator ce w cmd)
  from keepsD [OF sound_cli_run [OF this]] show ?case by (simp add: on_first_def)
next
  case (self_chat ex ce w event chat)
  then have "keeps chat_sound (handleUpsert ce event)"
    by (intro sound_handleUpsert) (simp add: sound_executor)
  from keepsD [OF this, of "(w, chat)"] show ?case by (simp add: chat_sound_def on_first_def)
next
  case (worker_round env s fs reference wk)
  from keepsD [OF sound_processOnce [OF this], of "(s, wk)"] show ?case by (simp add: on_first_def)
next
  case (socket_event env s fs ev conn)
  from sound_conn_action [OF this] show ?case by simp
next
  case (session_keys s fs codec entries now)
  show ?case by (simp add: keys_set_def keepsD keeps_intro)
next
  case (credentials s fs codec creds now)
  show ?case by (simp add: saveCreds_def keepsD keeps_intro)
next
  case (service de p fs)
  from sound_on_process [OF sound_runDaemon [OF this]] show ?case by simp
qed (simp_all add: sound_on_process sound_short)

lemma system_run_sound: "system_run w w' \<Longrightarrow> sound (fst w) (fst w')"
  unfolding system_run_def
  by (induction rule: rtranclp_induct) (blast intro: soundness.refl soundness.trans system_step_sound)+

section \<open>The life of the jobs\<close>

text \<open>
  The specification: a ledger with one row per job, its identity and its status.  A row is added, or
  the status of a row moves along the transition table; nothing else happens.
\<close>

type_synonym job_ident = "(nat \<times> string \<times> string \<times> string) \<times> payload_type \<times> string option \<times>
  string option \<times> string \<times> nat \<times> bool \<times> string option \<times> string option"

type_synonym ledger = "(job_ident \<times> job_status) list"

inductive ledger_step :: "ledger \<Rightarrow> ledger \<Rightarrow> bool" where
  recorded: "st \<in> {PENDING, SCHEDULED} \<Longrightarrow> ledger_step L (L @ [(i, st)])"
| moved: "can_transition a b \<Longrightarrow> ledger_step (before @ (i, a) # behind) (before @ (i, b) # behind)"

definition ledger_of :: "database \<Rightarrow> ledger" where
  "ledger_of s = map (\<lambda>j. (job_identity j, jStatus j)) (dbJobs s)"

lemma moved_path:
  "job_path a b \<Longrightarrow> ledger_step\<^sup>*\<^sup>* (before @ (i, a) # behind) (before @ (i, b) # behind)"
  unfolding job_path_def
proof (induction rule: rtranclp_induct)
  case (step b c)
  from rtranclp.rtrancl_into_rtrancl [OF step.IH moved [OF step.hyps(2)]] show ?case .
qed simp

lemma every_status_reachable: "job_path SCHEDULED st"
proof -
  have p1: "job_path SCHEDULED PENDING" by (rule job_path_step) (simp add: can_transition_def)
  have "job_path PENDING PROCESSING" by (rule job_path_step) (simp add: can_transition_def)
  with p1 have p: "job_path SCHEDULED PENDING" "job_path SCHEDULED PROCESSING"
    by (blast intro: job_path_trans)+
  have q: "can_transition PROCESSING st \<Longrightarrow> job_path SCHEDULED st" for st
    using p(2) unfolding job_path_def by (rule rtranclp.rtrancl_into_rtrancl)
  have "can_transition SCHEDULED CANCELLED" by (simp add: can_transition_def)
  moreover have "can_transition PROCESSING st" if "st \<notin> {SCHEDULED, PENDING, PROCESSING, CANCELLED}"
    using that by (cases st) (simp_all add: can_transition_def)
  ultimately show ?thesis using p q by (cases "st \<in> {SCHEDULED, PENDING, PROCESSING, CANCELLED}") auto
qed

lemma recorded_row: "ledger_step\<^sup>*\<^sup>* L (L @ [(i, st)])"
proof -
  have "ledger_step L (L @ [(i, SCHEDULED)])" by (rule recorded) simp
  then show ?thesis
    using moved_path [OF every_status_reachable, of L i "[]"] by (rule converse_rtranclp_into_rtranclp)
qed

lemma recorded_rows: "ledger_step\<^sup>*\<^sup>* L (L @ M)"
proof (induction M arbitrary: L)
  case (Cons x M)
  have "ledger_step\<^sup>*\<^sup>* L (L @ [x])" using recorded_row by (cases x) simp
  also have "ledger_step\<^sup>*\<^sup>* (L @ [x]) ((L @ [x]) @ M)" by (rule Cons.IH)
  finally show ?case by simp
qed simp

lemma moved_rows:
  "list_all2 job_evolves js js' \<Longrightarrow>
   ledger_step\<^sup>*\<^sup>* (L @ map (\<lambda>j. (job_identity j, jStatus j)) js)
     (L @ map (\<lambda>j. (job_identity j, jStatus j)) js')"
proof (induction arbitrary: L rule: list_all2_induct)
  case (Cons j js j' js')
  let ?row = "\<lambda>j. (job_identity j, jStatus j)"
  have "ledger_step\<^sup>*\<^sup>* (L @ ?row j # map ?row js) (L @ (job_identity j, jStatus j') # map ?row js)"
    using Cons.hyps(1) by (intro moved_path) (simp add: job_evolves_def)
  also have "(job_identity j, jStatus j') = ?row j'" using Cons.hyps(1) by (simp add: job_evolves_def)
  also have "ledger_step\<^sup>*\<^sup>* (L @ ?row j' # map ?row js) (L @ ?row j' # map ?row js')"
    using Cons.IH [of "L @ [?row j']"] by simp
  finally show ?case by simp
qed simp

lemma evolution_refines: "jobs_evolve s t \<Longrightarrow> ledger_step\<^sup>*\<^sup>* (ledger_of s) (ledger_of t)"
proof -
  assume e: "jobs_evolve s t"
  let ?n = "length (dbJobs s)" and ?row = "\<lambda>j. (job_identity j, jStatus j)"
  have "ledger_step\<^sup>*\<^sup>* (ledger_of s) (map ?row (take ?n (dbJobs t)))"
    using e moved_rows [of "dbJobs s" "take ?n (dbJobs t)" "[]"] by (simp add: jobs_evolve_def ledger_of_def)
  also have "ledger_step\<^sup>*\<^sup>* (map ?row (take ?n (dbJobs t)))
      (map ?row (take ?n (dbJobs t)) @ map ?row (drop ?n (dbJobs t)))"
    by (rule recorded_rows)
  also have "map ?row (take ?n (dbJobs t)) @ map ?row (drop ?n (dbJobs t)) = ledger_of t"
    by (simp add: ledger_of_def flip: map_append)
  finally show ?thesis .
qed

section \<open>What holds of every run\<close>


text \<open>
  C2.  The whole program refines the ledger of jobs: a run of it is a run of the ledger, in which rows
  are only added and statuses only move along the transition table.
\<close>

theorem system_refines_ledger:
  assumes "system_run w w'" and "db_ok (fst w)"
  shows "ledger_step\<^sup>*\<^sup>* (ledger_of (fst w)) (ledger_of (fst w'))"
  using system_run_sound [OF assms(1)] assms(2) by (blast intro: evolution_refines dest: soundD)

text \<open>
  C7.  A job that was sent, simulated or cancelled is settled: whatever the program does afterwards,
  the job stays in its place with the same identity and status, and no claim returns it.
\<close>

theorem settled_for_good:
  assumes "system_run w w'" and "db_ok (fst w)"
    and "n < length (dbJobs (fst w))" and "jStatus (dbJobs (fst w) ! n) \<in> {SENT, DRY_RUN, CANCELLED}"
  shows "n < length (dbJobs (fst w')) \<and>
    job_identity (dbJobs (fst w') ! n) = job_identity (dbJobs (fst w) ! n) \<and>
    jStatus (dbJobs (fst w') ! n) = jStatus (dbJobs (fst w) ! n) \<and>
    (\<forall>now r d. \<not> claimable now r d (fst w') (dbJobs (fst w') ! n))"
proof -
  have e: "jobs_evolve (fst w) (fst w')" using system_run_sound [OF assms(1)] assms(2) by (blast dest: soundD)
  then have len: "n < length (dbJobs (fst w'))" using assms(3) by (simp add: jobs_evolve_def)
  have "job_evolves (dbJobs (fst w) ! n) (take (length (dbJobs (fst w))) (dbJobs (fst w')) ! n)"
    using e assms(3) by (auto simp: jobs_evolve_def dest: list_all2_nthD)
  then have je: "job_evolves (dbJobs (fst w) ! n) (dbJobs (fst w') ! n)" using assms(3) by simp
  then have st: "jStatus (dbJobs (fst w') ! n) = jStatus (dbJobs (fst w) ! n)"
    using assms(4) unfolding job_evolves_def by (blast dest: job_path_final)
  with je len assms(4) show ?thesis by (auto simp: job_evolves_def claimable_def due_def)
qed

section \<open>A run on the sample database\<close>

lemma sample_cli_sound: "cli_others_sound sample_cli"
  by (simp add: cli_others_sound_def others_sound_calls_def others_sound_def sample_cli_def
      sample_command_env_def sample_worker_env_def on_first_def soundness.refl)

definition cancelled_world :: world where
  "cancelled_world = after (cli_run sample_cli (CliCancel ''b-2'')) (sample_db, Map.empty)"

definition retried_world :: world where
  "retried_world = after (cli_run sample_cli (CliRetry ''b-2'')) cancelled_world"

lemma sample_runs: "system_run (sample_db, Map.empty) cancelled_world" "system_run cancelled_world retried_world"
  unfolding system_run_def cancelled_world_def retried_world_def
  by (intro r_into_rtranclp operator sample_cli_sound)+


theorem system_refines_ledger_witness:
  "ledger_step\<^sup>*\<^sup>* (ledger_of sample_db) (ledger_of (fst cancelled_world)) \<and>
   ledger_of (fst cancelled_world) ! 1 = (fst (ledger_of sample_db ! 1), CANCELLED)"
proof -
  have "ledger_of (fst cancelled_world) ! 1 = (fst (ledger_of sample_db ! 1), CANCELLED)" by code_simp
  then show ?thesis using system_refines_ledger [OF sample_runs(1)] by (simp add: sample_db_ok)
qed

theorem settled_for_good_witness: "jStatus (dbJobs (fst retried_world) ! 1) = CANCELLED"
proof -
  have ok: "db_ok (fst cancelled_world)" using soundD(1) [OF system_run_sound [OF sample_runs(1)]]
    by (simp add: sample_db_ok)
  have "jStatus (dbJobs (fst cancelled_world) ! 1) = CANCELLED" "1 < length (dbJobs (fst cancelled_world))"
    by code_simp+
  then show ?thesis using settled_for_good [OF sample_runs(2) ok, of 1] by simp
qed

end
