(* ===== verification/WorkerLoop.thy ===== *)
theory WorkerLoop
  imports QueueWorker
begin

text \<open>
  The worker's loop comes to an end: the pacing of every round ends when time goes on, and a round
  in which a stop is requested is the last one.
\<close>

section \<open>The end of the last send\<close>

definition last_send_from :: "int \<Rightarrow> database \<times> worker \<Rightarrow> database \<times> worker \<Rightarrow> bool" where
  "last_send_from t x y \<longleftrightarrow> wkLastSend (snd y) = wkLastSend (snd x) \<or> wkLastSend (snd y) = t"

interpretation last_send: state_preorder "last_send_from t" for t
  by unfold_locales (auto simp: last_send_from_def)

lemma last_send_fst: "keeps (last_send_from t) (on_fst m)"
  by (auto simp: keeps_def last_send_from_def after_def on_fst_def split: prod.split)

lemma last_send_write:
  "(\<And>s w. wkLastSend (snd (f (s, w))) \<in> {wkLastSend w, t}) \<Longrightarrow> keeps (last_send_from t) (writeE f)"
  by (auto simp: keeps_def last_send_from_def after_def)

lemma last_send_stop: "keeps (last_send_from t) (on_snd (writeE requestStop))"
  by (auto simp: keeps_def last_send_from_def after_def on_snd_def requestStop_def)

lemma last_send_sent: "keeps (last_send_from t) (on_snd (writeE (\<lambda>w. w\<lparr>wkSent := f w\<rparr>)))"
  by (auto simp: keeps_def last_send_from_def after_def on_snd_def)

lemma last_send_processOnce: "keeps (last_send_from (weClock env AtFinish)) (processOnce env r)"
proof -
  let ?R = "last_send_from (weClock env AtFinish)"
  have "keeps ?R (handleError env job e)" for job e
    unfolding handleError_def
    by (cases "rdAction (decision_for env job e)")
      (auto intro!: last_send.keeps_rules last_send_fst last_send_stop)
  moreover have "keeps ?R (send_stage env job)" for job
    unfolding send_stage_def
    by (cases "asSendableJob job")
      (auto intro!: last_send.keeps_rules last_send_fst last_send_sent split: sum.split)
  ultimately have "keeps ?R (attempt env job)" for job
    unfolding attempt_def
    by (auto intro!: last_send.keeps_finally last_send.keeps_rules last_send_fst simp: last_send_from_def)
  then have "keeps ?R (after_pace env job go)" for job go
    unfolding after_pace_def
    by (cases go) (auto intro!: last_send.keeps_rules last_send_fst last_send_stop split: bool.split)
  then show ?thesis
    unfolding processOnce_def by (intro last_send.keeps_rules last_send_fst)
qed

section \<open>Rounds end\<close>

lemma pace_ends:
  assumes "wkLastSend w \<le> weClock env AtPaceStart"
    and "\<exists>(stop, now) \<in> set (weTicks env). stop \<or>
      weClock env AtDeadline + cfgSendIntervalMs (weConfig env) \<le> now"
  shows "pace env w \<noteq> None"
proof -
  obtain stop now where t: "(stop, now) \<in> set (weTicks env)"
    "stop \<or> weClock env AtDeadline + cfgSendIntervalMs (weConfig env) \<le> now"
    using assms(2) by blast
  show ?thesis
  proof (cases "cfgSendIntervalMs (weConfig env) \<le> 0 \<or> wkLastSend w = 0 \<or> wait_ms env w = 0")
    case True
    then show ?thesis by (auto simp: pace_def)
  next
    case False
    then have "wait_ms env w \<le> cfgSendIntervalMs (weConfig env)" using assms(1) by (auto simp: wait_ms_def)
    then have "stop \<or> weClock env AtDeadline + wait_ms env w \<le> now" using t(2) by linarith
    from pace_loop_returns [OF t(1) this] False show ?thesis by (auto simp: pace_def)
  qed
qed

lemma processOnce_ends:
  assumes "pace env w \<noteq> None"
  shows "fst (processOnce env r (s, w)) \<noteq> Inr None"
proof
  assume n: "fst (processOnce env r (s, w)) = Inr None"
  then obtain x where "processOnce env r (s, w) = (Inr None, x)" by (metis prod.collapse)
  moreover have "fst (after_pace env job (Some b) y) \<noteq> Inr None" for job b y
    by (cases y; cases b) (auto simp: after_pace_def run_bind split: sum.splits prod.splits option.splits)
  ultimately show False
    using assms
    by (auto simp: processOnce_def run_bind run_on_fst split: sum.splits prod.splits option.splits if_splits)
      (metis fst_conv)+
qed

text \<open>
  The clock of a run does not go back, and in every round time goes on, or a stop is noticed, while
  the round waits.
\<close>

fun steady :: "int \<Rightarrow> worker_env list \<Rightarrow> bool" where
  "steady lo [] = True"
| "steady lo (env # rest) =
     (lo \<le> weClock env AtPaceStart \<and>
      (\<exists>(stop, now) \<in> set (weTicks env). stop \<or>
         weClock env AtDeadline + cfgSendIntervalMs (weConfig env) \<le> now) \<and>
      steady (max lo (weClock env AtFinish)) rest)"

lemma steady_mono: "steady m envs \<Longrightarrow> l \<le> m \<Longrightarrow> steady l envs"
proof (induction envs arbitrary: l m)
  case (Cons env envs)
  have "max l (weClock env AtFinish) \<le> max m (weClock env AtFinish)" using Cons.prems(2) by simp
  with Cons show ?case by (auto intro: order_trans)
qed simp

lemma work_stops: "wkStopping w \<Longrightarrow> work envs (s, w) = (Inr True, (s, w))"
  by (simp add: work.simps [of envs])

lemma work_ends:
  "steady (wkLastSend w) envs \<Longrightarrow> \<exists>env \<in> set envs. weStopBetween env \<Longrightarrow>
   fst (work envs (s, w)) \<noteq> Inr False"
proof (induction envs arbitrary: s w)
  case (Cons env envs)
  show ?case
  proof (cases "wkStopping w")
    case False
    obtain r t v where p: "processOnce env None (s, w) = (r, (t, v))" by (metis prod_cases3)
    have last: "wkLastSend v = wkLastSend w \<or> wkLastSend v = weClock env AtFinish"
      using keepsD [OF last_send_processOnce, of env "(s, w)" None] p
      by (simp add: last_send_from_def after_def)
    have "pace env w \<noteq> None" using Cons.prems(1) by (intro pace_ends) auto
    then have "r \<noteq> Inr None" using processOnce_ends [of env w None s] p by simp
    moreover have "fst (work envs (after (between env) (t, v))) \<noteq> Inr False"
    proof (cases "weStopBetween env")
      case True
      then show ?thesis by (simp add: after_def between_def work_stops requestStop_def)
    next
      case False
      then have "after (between env) (t, v) = (weBetween env t, v)" by (simp add: after_def between_def)
      moreover have "steady (wkLastSend v) envs"
        using Cons.prems(1) last by (auto intro: steady_mono)
      ultimately show ?thesis using Cons.IH [of v "weBetween env t"] Cons.prems(2) False by auto
    qed
    ultimately show ?thesis
      using False p
      by (cases r) (auto simp: work.simps [of "env # envs"] run_bind after_def between_def split: option.split)
  qed (simp add: work_stops)
qed simp

text \<open>
  C17.  The worker stops when it is asked to.  When time goes on while its rounds wait, a run in which a
  stop is requested in some round comes to its end, be it with an error; then the worker is not
  running, and the database says so.
\<close>

theorem run_stops_on_request:
  assumes "steady (wkLastSend w) envs" and "\<exists>env \<in> set envs. weStopBetween env"
    and "run envs startedAt stoppedAt (s, w) = (r, (t, v))"
  shows "r \<noteq> Inr False \<and> \<not> wkRunning v \<and> state_get ''worker_state'' t = Some ''STOPPED''"
proof -
  let ?s = "after (state_set ''worker_state'' (Some ''RUNNING'') startedAt) s"
  let ?w = "w\<lparr>wkRunning := True\<rparr>"
  have ends: "fst (work envs (?s, ?w)) \<noteq> Inr False"
    using assms(1,2) by (intro work_ends) simp_all
  obtain q u where q: "work envs (?s, ?w) = (q, u)" by (cases "work envs (?s, ?w)")
  have "run envs startedAt stoppedAt (s, w) = (q, stopped stoppedAt u)"
    using ends q
    by (simp add: run_def run_bind run_on_snd run_on_fst after_def state_set_def split: bool.split sum.split)
  with assms(3) ends q show ?thesis
    by (cases u) (auto simp: stopped_def state_get_set)
qed

definition stopping_round :: worker_env where
  "stopping_round = (sample_worker_env sample_answer)\<lparr>weTicks := [(True, 0)], weStopBetween := True\<rparr>"

theorem run_stops_on_request_witness:
  "state_get ''worker_state'' (fst (after (run [stopping_round] ''2026-02-01'' ''2026-02-02'') (sample_db, idle_worker))) =
     Some ''STOPPED''"
proof -
  let ?x = "run [stopping_round] ''2026-02-01'' ''2026-02-02'' (sample_db, idle_worker)"
  obtain r t v where x: "?x = (r, (t, v))" by (metis prod_cases3)
  have "steady (wkLastSend idle_worker) [stopping_round]" "weStopBetween stopping_round"
    by (simp_all add: stopping_round_def idle_worker_def sample_worker_env_def)
  with run_stops_on_request [OF _ _ x] x show ?thesis by (simp add: after_def)
qed

end
