(* ===== verification/QueueDrain.thy ===== *)
theory QueueDrain
  imports WorkerLoop
begin

text \<open>
  The queue empties.  When the transport answers, time goes on, nothing pauses the sending and no
  other process interferes, every job that is due for an allowed destination is delivered after as
  many rounds as there are unsent jobs.  The measure is the number of unsent jobs: a round that
  claims a job takes it, and a round that claims none leaves no due job behind.
\<close>

section \<open>The obliging world\<close>

definition unpaused :: "database \<Rightarrow> bool" where
  "unpaused s \<longleftrightarrow>
     state_get pause_reason s \<notin> Some ` {''AUTH_REQUIRED'', ''LOGGED_OUT'', ''FATAL''} \<and>
     \<not> truthy (state_get pause_until s)"

text \<open>One round whose transport answers and whose pacing is passed without a stop.\<close>

definition obliging :: "worker_env \<Rightarrow> bool" where
  "obliging env \<longleftrightarrow>
     (\<forall>j s. \<exists>r. trSend (weTransport env) j s = Inr r) \<and> (\<forall>p. weFileExists env p) \<and>
     weDuringPace env = id \<and> weDuringSend env = id \<and> weBetween env = id \<and> \<not> weStopBetween env \<and>
     (\<forall>(stop, now) \<in> set (weTicks env). \<not> stop)"

definition unsent_count :: "database \<Rightarrow> nat" where
  "unsent_count s = length (filter (\<lambda>j. is_unsent (jStatus j)) (dbJobs s))"

definition deliverable :: "string \<Rightarrow> bool \<Rightarrow> database \<Rightarrow> queue_job \<Rightarrow> bool" where
  "deliverable now dry s j \<longleftrightarrow>
     sendable s (jDestinationJid j) \<and> (dry \<longrightarrow> jDryRun j) \<and>
     (due now j \<or> jStatus j = SCHEDULED \<and> jScheduledAt j \<le> now)"

definition delivered :: "queue_job \<Rightarrow> bool" where
  "delivered j \<longleftrightarrow> jStatus j = SENT \<or> jStatus j = DRY_RUN"

definition calm :: "database \<Rightarrow> bool" where
  "calm s \<longleftrightarrow> well_formed s \<and> references_apart s \<and> unpaused s"

lemma unpaused_goes: "unpaused s \<Longrightarrow> isGloballyPaused env s = (Inr False, s)"
  by (auto simp: unpaused_def isGloballyPaused_def)

lemma pace_loop_goes:
  "\<forall>(stop, now) \<in> set ticks. \<not> stop \<Longrightarrow> \<exists>(stop, now) \<in> set ticks. d \<le> now \<Longrightarrow>
   pace_loop False d ticks = Some True"
  by (induction "False" d ticks rule: pace_loop.induct) auto

lemma pace_goes:
  assumes "obliging env" and "\<not> wkStopping w" and "wkLastSend w \<le> weClock env AtPaceStart"
    and "\<exists>(stop, now) \<in> set (weTicks env). stop \<or>
      weClock env AtDeadline + cfgSendIntervalMs (weConfig env) \<le> now"
  shows "pace env w = Some True"
proof (cases "cfgSendIntervalMs (weConfig env) \<le> 0 \<or> wkLastSend w = 0 \<or> wait_ms env w = 0")
  case True
  then show ?thesis using assms(2) by (auto simp: pace_def)
next
  case False
  then have "wait_ms env w \<le> cfgSendIntervalMs (weConfig env)"
    using assms(3) by (auto simp: wait_ms_def)
  moreover obtain stop now where t: "(stop, now) \<in> set (weTicks env)"
    "stop \<or> weClock env AtDeadline + cfgSendIntervalMs (weConfig env) \<le> now"
    using assms(4) by blast
  moreover have "\<not> stop" using assms(1) t(1) by (auto simp: obliging_def)
  ultimately have "weClock env AtDeadline + wait_ms env w \<le> now" by linarith
  with t(1) have "\<exists>(stop, now) \<in> set (weTicks env). weClock env AtDeadline + wait_ms env w \<le> now"
    by blast
  moreover have "\<forall>(stop, now) \<in> set (weTicks env). \<not> stop" using assms(1) by (simp add: obliging_def)
  ultimately show ?thesis using False assms(2) by (simp add: pace_def pace_loop_goes)
qed

section \<open>The sweeps\<close>

definition promoted :: "string \<Rightarrow> queue_job \<Rightarrow> queue_job" where
  "promoted now j =
     (if jStatus j = SCHEDULED \<and> jScheduledAt j \<le> now
      then j\<lparr>jStatus := PENDING, jUpdatedAt := now\<rparr> else j)"

definition swept_row :: "database \<Rightarrow> string \<Rightarrow> string \<Rightarrow> queue_job \<Rightarrow> queue_job" where
  "swept_row s now sweep j =
     (if is_unsent (jStatus (promoted now j)) \<and> blocked s (jDestinationJid j)
      then cancelled_row sweep ''Destination is disabled or no longer allows sending'' (promoted now j)
      else promoted now j)"

definition sweep_jobs :: "worker_env \<Rightarrow> database \<Rightarrow> database" where
  "sweep_jobs env s =
     s\<lparr>dbJobs := map (swept_row s (now_at env AtClaim) (now_at env AtSweep)) (dbJobs s)\<rparr>"

lemma sendable_not_blocked:
  assumes "db_ok s" and "sendable s jid"
  shows "\<not> blocked s jid"
proof
  assume "blocked s jid"
  then obtain d where d: "d \<in> set (dbDestinations s)" "dJid d = jid" "\<not> dEnabled d \<or> \<not> dCanSend d"
    by (auto simp: blocked_def list_ex_iff)
  obtain e where e: "destination_of s jid = Some e" "dEnabled e" "dCanSend e"
    using assms(2) by (auto simp: sendable_def split: option.splits)
  then have "e \<in> set (dbDestinations s)" "dJid e = jid"
    by (auto simp: destination_of_def dest: find_first_SomeD)
  moreover have "distinct (map dJid (dbDestinations s))" using assms(1) by (simp add: db_ok_defs)
  ultimately have "e = d" using d(1,2) by (metis distinct_map_eq)
  with d(3) e show False by simp
qed

lemma claim_stage_sweeps:
  assumes "well_formed s"
  shows "claim_stage env None s =
      claim (now_at env AtClaim) None (cfgDryRun (weConfig env)) (sweep_jobs env s)"
    and "well_formed (sweep_jobs env s)"
proof -
  have ok: "db_ok s" "uuids_dashed s" using assms by (simp_all add: well_formed_def)
  let ?n = "now_at env AtClaim" and ?m = "now_at env AtSweep"
  obtain a p where p: "promoteDueScheduled ?n s = (Inr a, p)" "dbJobs p = map (promoted ?n) (dbJobs s)"
    "p = s\<lparr>dbJobs := dbJobs p\<rparr>"
    by (simp add: promote_eq [OF ok(1)] update_where_def promoted_def [abs_def])
  have okp: "db_ok p" using keepsD [OF sound_promote, of s ?n] ok(1) p(1) by (auto simp: after_def sound_def)
  have "blocked p = blocked s" by (subst p(3)) (simp add: blocked_def fun_eq_iff)
  then obtain b where "cancelDisabled ?m p = (Inr b, p\<lparr>dbJobs := map (swept_row s ?n ?m) (dbJobs s)\<rparr>)"
    using p(2) by (simp add: cancelDisabled_eq [OF okp] update_where_def swept_row_def [abs_def] comp_def
        promoted_def cong: if_cong)
  moreover have "p\<lparr>dbJobs := map (swept_row s ?n ?m) (dbJobs s)\<rparr> = sweep_jobs env s"
    by (subst p(3)) (simp add: sweep_jobs_def)
  ultimately have q: "cancelDisabled ?m p = (Inr b, sweep_jobs env s)" by simp
  show "claim_stage env None s =
      claim ?n None (cfgDryRun (weConfig env)) (sweep_jobs env s)"
    by (simp add: claim_stage_def run_bind p(1) q truthy_def claimNext_def)
  have "db_ok (sweep_jobs env s)" using keepsD [OF sound_cancelDisabled, of p ?m] okp q by (auto simp: after_def sound_def)
  moreover have "map jUuid (dbJobs (sweep_jobs env s)) = map jUuid (dbJobs s)"
    by (simp add: sweep_jobs_def swept_row_def promoted_def cancelled_row_def)
  ultimately show "well_formed (sweep_jobs env s)"
    using ok(2) uuids_dashed_map [of "sweep_jobs env s" s] by (simp add: well_formed_def)
qed

lemma sweep_jobs_tables [simp]:
  "dbDestinations (sweep_jobs env s) = dbDestinations s" "dbAppState (sweep_jobs env s) = dbAppState s"
  by (simp_all add: sweep_jobs_def)

lemma calm_cong:
  assumes "calm s" and "well_formed t" and "dbDestinations t = dbDestinations s" and "unpaused t"
  shows "calm t"
  using assms by (simp add: calm_def references_apart_def)

lemma unpaused_cong: "dbAppState t = dbAppState s \<Longrightarrow> unpaused t = unpaused s"
  by (simp add: unpaused_def state_get_def)

section \<open>A round that delivers\<close>

lemma transition_claimed:
  assumes "in_flight j s" and "target \<in> set (transitions PROCESSING)"
  shows "\<exists>t. transition (jUuid j) target options now s = (Inr (moved_row target options now j), t) \<and>
    dbJobs t = update_where (\<lambda>i. jId i = jId j) (moved_row target options now) (dbJobs s) \<and>
    dbDestinations t = dbDestinations s \<and> dbAppState t = dbAppState s"
proof -
  have j: "db_ok s" "uuids_dashed s" "j \<in> set (dbJobs s)" "jStatus j = PROCESSING"
    using assms(1) by (simp_all add: in_flight_def)
  have "\<not> key_taken j target s" using j(4) by (simp add: key_taken_def is_active_def)
  moreover have "can_transition (jStatus j) target" using assms(2) j(4) by (simp add: can_transition_def)
  ultimately show ?thesis using j by (simp add: transition_eq getByReference_own)
qed

lemma unpaused_state_set:
  "k \<noteq> pause_reason \<Longrightarrow> k \<noteq> pause_until \<Longrightarrow> unpaused (after (state_set k v now) s) = unpaused s"
  by (simp add: unpaused_def)

lemma unpaused_reports [simp]:
  "unpaused (after (state_set ''last_successful_send_at'' v now) s) = unpaused s"
  "unpaused (after (state_set ''connectivity'' v now) s) = unpaused s"
  by (simp_all add: unpaused_state_set pause_reason_def pause_until_def)

lemma state_set_destinations: "dbDestinations (after (state_set k v now) s) = dbDestinations s"
  by (simp add: state_set_def after_def)

lemma settle_delivers:
  assumes "in_flight j s"
  shows "\<exists>t st options. settle env j r s = (Inr (), t) \<and> st \<in> {SENT, DRY_RUN} \<and>
    dbJobs t = update_where (\<lambda>i. jId i = jId j) (moved_row st options (now_at env AtMove)) (dbJobs s) \<and>
    dbDestinations t = dbDestinations s \<and> unpaused t = unpaused s"
proof -
  let ?st = "if srDryRun r then DRY_RUN else SENT"
  let ?o = "sent_options r (if srDryRun r then ''dry_run_executed'' else ''delivery_succeeded'')"
  have "?st \<in> set (transitions PROCESSING)" by simp
  then obtain u where u: "transition (jUuid j) ?st ?o (now_at env AtMove) s =
      (Inr (moved_row ?st ?o (now_at env AtMove) j), u)"
    "dbJobs u = update_where (\<lambda>i. jId i = jId j) (moved_row ?st ?o (now_at env AtMove)) (dbJobs s)"
    "dbDestinations u = dbDestinations s" "dbAppState u = dbAppState s"
    using transition_claimed [OF assms] by blast
  note p = unpaused_cong [OF u(4)]
  obtain t where t: "settle env j r s = (Inr (), t)" "dbJobs t = dbJobs u"
    "dbDestinations t = dbDestinations s" "unpaused t = unpaused s"
    using u p
    by (cases "srDryRun r"; cases "trName (weTransport env) = ''dry-run''")
      (simp_all add: settle_def run_bind run_state_set state_set_destinations)
  with u(2) show ?thesis by (intro exI [of _ t] exI [of _ ?st] exI [of _ ?o]) simp
qed

lemma attempt_delivers:
  assumes "in_flight j s" and "obliging env"
  shows "\<exists>t w' st options. attempt env j (s, w) = (Inr (), (t, w')) \<and> st \<in> {SENT, DRY_RUN} \<and>
    dbJobs t = update_where (\<lambda>i. jId i = jId j) (moved_row st options (now_at env AtMove)) (dbJobs s) \<and>
    dbDestinations t = dbDestinations s \<and> unpaused t = unpaused s \<and>
    wkStopping w' = wkStopping w \<and> wkLastSend w' = weClock env AtFinish"
proof -
  let ?w = "w\<lparr>wkSent := wkSent w @ [\<lparr>seTransport = trName (chosen_transport env j), seJob = j,
    seDb = s\<rparr>]\<rparr>"
  obtain a where "trSend (weTransport env) j s = Inr a" using assms(2) by (metis obliging_def)
  then obtain r where r: "trSend (chosen_transport env j) j s = Inr r"
    by (cases "chosen_transport env j = weTransport env")
      (simp, simp add: chosen_transport_def dry_run_transport_def dry_run_send_def split: if_splits)
  have send: "send_stage env j (s, w) = (Inr r, (s, ?w))"
    using assms r
    by (auto simp: in_flight_def send_stage_def asSendableJob_def run_bind run_on_snd run_on_fst
        after_def obliging_def)
  obtain t st options where t: "settle env j r s = (Inr (), t)" "st \<in> {SENT, DRY_RUN}"
    "dbJobs t = update_where (\<lambda>i. jId i = jId j) (moved_row st options (now_at env AtMove)) (dbJobs s)"
    "dbDestinations t = dbDestinations s" "unpaused t = unpaused s"
    using settle_delivers [OF assms(1)] by blast
  then have "attempt env j (s, w) = (Inr (), (t, ?w\<lparr>wkLastSend := weClock env AtFinish\<rparr>))"
    by (simp add: attempt_def run_finally run_catch run_bind run_on_fst send after_def)
  with t(2-5) show ?thesis
    by (intro exI [of _ t] exI [of _ "?w\<lparr>wkLastSend := weClock env AtFinish\<rparr>"] exI [of _ st]
        exI [of _ options]) simp
qed

lemma sendable_resolves:
  assumes "calm s" and "sendable s jid"
  shows "\<exists>d. resolve jid s = Some d \<and> dEnabled d \<and> dCanSend d"
proof -
  obtain d where d: "destination_of s jid = Some d" "dEnabled d" "dCanSend d"
    using assms(2) by (auto simp: sendable_def split: option.splits)
  then have "d \<in> set (dbDestinations s)" "dJid d = jid"
    by (auto simp: destination_of_def dest: find_first_SomeD)
  with assms(1) resolve_own_jid [of s d] have "resolve jid s = Some d"
    by (simp add: calm_def well_formed_def)
  with d show ?thesis by blast
qed

text \<open>One round: nothing is due after the sweeps, or the claimed job is delivered.\<close>

lemma round_delivers:
  assumes "calm s" and "obliging env" and "pace env w = Some True"
  shows "case claim_candidate (now_at env AtClaim) None (cfgDryRun (weConfig env)) (sweep_jobs env s) of
      None \<Rightarrow> processOnce env None (s, w) = (Inr (Some False), (sweep_jobs env s, w))
    | Some k \<Rightarrow> \<exists>t w' st options. processOnce env None (s, w) = (Inr (Some True), (t, w')) \<and>
        st \<in> {SENT, DRY_RUN} \<and>
        dbJobs t = update_where (\<lambda>i. jId i = jId k) (\<lambda>i. moved_row st options (now_at env AtMove)
          (claimed_row (now_at env AtClaim) i)) (dbJobs (sweep_jobs env s)) \<and>
        dbDestinations t = dbDestinations s \<and> unpaused t \<and>
        wkStopping w' = wkStopping w \<and> wkLastSend w' = weClock env AtFinish"
proof -
  let ?n = "now_at env AtClaim" and ?d = "cfgDryRun (weConfig env)" and ?q = "sweep_jobs env s"
  have up: "isGloballyPaused env s = (Inr False, s)" and wf: "well_formed s"
    using assms(1) by (simp_all add: calm_def unpaused_goes)
  note cs = claim_stage_sweeps [OF wf, of env]
  have okq: "db_ok ?q" "uuids_dashed ?q" using cs(2) by (simp_all add: well_formed_def)
  note ce = claim_eq [OF okq, of ?n None ?d]
  show ?thesis
  proof (cases "claim_candidate ?n None ?d ?q")
    case None
    then show ?thesis by (simp add: processOnce_eq up after_def cs(1) ce)
  next
    case (Some k)
    let ?j = "claimed_row ?n k" and ?u = "with_row k (claimed_row ?n) ?q"
    have c: "claim_stage env None s = (Inr (Some ?j), ?u)" using Some by (simp add: cs(1) ce)
    note D = claim_stage_SomeD [OF _ _ c]
    have okd: "db_ok s" "uuids_dashed s" using wf by (simp_all add: well_formed_def)
    have fl: "in_flight ?j ?u" using D(1-4) [OF okd] by (simp add: in_flight_def)
    have tables: "dbDestinations ?u = dbDestinations s" "dbAppState ?u = dbAppState s" by simp_all
    have "calm ?u" by (rule calm_cong [OF assms(1) _ tables(1)])
      (use fl assms(1) unpaused_cong [OF tables(2)] in \<open>simp_all add: in_flight_def well_formed_def calm_def\<close>)
    from sendable_resolves [OF this D(7) [OF okd]] assms(2) have no: "refusal env ?j ?u = None"
      by (auto simp: refusal_def obliging_def)
    obtain t w' st options where t: "attempt env ?j (?u, w) = (Inr (), (t, w'))" "st \<in> {SENT, DRY_RUN}"
      "dbJobs t = update_where (\<lambda>i. jId i = jId ?j) (moved_row st options (now_at env AtMove)) (dbJobs ?u)"
      "dbDestinations t = dbDestinations ?u" "unpaused t = unpaused ?u"
      "wkStopping w' = wkStopping w" "wkLastSend w' = weClock env AtFinish"
      using attempt_delivers [OF fl assms(2)] by blast
    have "weDuringPace env ?u = ?u" using assms(2) by (simp add: obliging_def)
    then have "processOnce env None (s, w) = (Inr (Some True), (t, w'))"
      using c assms(3) no t(1) by (simp add: processOnce_eq up after_def after_pace_def run_bind)
    moreover have "dbJobs t = update_where (\<lambda>i. jId i = jId k) (\<lambda>i. moved_row st options (now_at env AtMove)
          (claimed_row ?n i)) (dbJobs ?q)"
      using t(3) by (auto simp: update_where_def claimed_row_def)
    moreover have "unpaused t" using t(5) unpaused_cong [OF tables(2)] assms(1) by (simp add: calm_def)
    ultimately show ?thesis using Some t(2,4,6,7) by (simp only: option.case tables) blast
  qed
qed

section \<open>Progress\<close>

lemma filter_map_less:
  assumes "\<And>x. x \<in> set xs \<Longrightarrow> P (h x) \<Longrightarrow> P x" and "x \<in> set xs" and "P x" and "\<not> P (h x)"
  shows "length (filter P (map h xs)) < length (filter P xs)"
proof -
  have le: "length (filter P (map h ys)) \<le> length (filter P ys)" if "set ys \<subseteq> set xs" for ys
    using that by (induction ys) (auto dest: assms(1))
  obtain as bs where xs: "xs = as @ x # bs" using assms(2) by (auto simp: in_set_conv_decomp)
  have "length (filter P (map h as)) \<le> length (filter P as)" "length (filter P (map h bs)) \<le> length (filter P bs)"
    by (intro le, force simp: xs)+
  with assms(3,4) show ?thesis by (simp add: xs)
qed

lemma swept_row_same [simp]:
  "jId (swept_row s n m j) = jId j" "jDestinationJid (swept_row s n m j) = jDestinationJid j"
  "jDryRun (swept_row s n m j) = jDryRun j"
  by (simp_all add: swept_row_def promoted_def cancelled_row_def)

lemma swept_row_unsent: "is_unsent (jStatus (swept_row s n m j)) \<Longrightarrow> is_unsent (jStatus j)"
  by (auto simp: swept_row_def promoted_def cancelled_row_def is_unsent_def unsent_statuses_def
      split: if_splits)

lemma swept_row_delivered: "delivered j \<Longrightarrow> swept_row s n m j = j"
  by (auto simp: swept_row_def promoted_def delivered_def is_unsent_def unsent_statuses_def)

lemma due_unsent: "due n j \<Longrightarrow> is_unsent (jStatus j)"
  by (auto simp: due_def is_unsent_def unsent_statuses_def)

lemma deliverable_unsent: "deliverable now dry s j \<Longrightarrow> is_unsent (jStatus j)"
  by (auto simp: deliverable_def is_unsent_def unsent_statuses_def dest!: due_unsent)

lemma deliverable_cong:
  "dbDestinations t = dbDestinations s \<Longrightarrow> deliverable now dry t j = deliverable now dry s j"
  by (simp add: deliverable_def sendable_def destination_of_def)

lemma due_later: "due a j \<Longrightarrow> a \<le> b \<Longrightarrow> due b j"
  by (auto simp: due_def split: option.splits)

lemma deliverable_swept:
  assumes "db_ok s" and "deliverable now dry s j" and "now \<le> n"
  shows "deliverable now dry s (swept_row s n m j)" and "claimable n None dry s (swept_row s n m j)"
proof -
  have "\<not> blocked s (jDestinationJid j)"
    using assms(1,2) sendable_not_blocked by (auto simp: deliverable_def)
  then have r: "swept_row s n m j = promoted n j" by (simp add: swept_row_def)
  have d: "due now (promoted n j)"
    using assms(2,3) by (auto simp: deliverable_def promoted_def due_def)
  with assms(2) show "deliverable now dry s (swept_row s n m j)"
    by (auto simp: r deliverable_def promoted_def)
  from d assms(2) due_later [OF d assms(3)] show "claimable n None dry s (swept_row s n m j)"
    by (auto simp: r deliverable_def claimable_def promoted_def named_def)
qed

lemma claimable_cong:
  "dbDestinations t = dbDestinations s \<Longrightarrow> claimable n r dry t j = claimable n r dry s j"
  by (simp add: claimable_def sendable_def destination_of_def)

text \<open>What a step of the queue does to the jobs, row by row.\<close>

definition row_progress :: "string \<Rightarrow> bool \<Rightarrow> database \<Rightarrow> (queue_job \<Rightarrow> queue_job) \<Rightarrow> bool" where
  "row_progress now dry s h \<longleftrightarrow> (\<forall>j \<in> set (dbJobs s). jId (h j) = jId j \<and>
     (delivered j \<longrightarrow> delivered (h j)) \<and>
     (deliverable now dry s j \<longrightarrow> delivered (h j) \<or> deliverable now dry s (h j)))"

lemma round_progress:
  assumes c: "calm s" and o: "obliging env" and p: "pace env w = Some True"
    and n: "now \<le> now_at env AtClaim" and dry: "cfgDryRun (weConfig env) = dry"
  shows "\<exists>r t w' h. processOnce env None (s, w) = (Inr (Some r), (t, w')) \<and> calm t \<and>
    dbJobs t = map h (dbJobs s) \<and> dbDestinations t = dbDestinations s \<and> row_progress now dry s h \<and>
    ((\<forall>j \<in> set (dbJobs s). deliverable now dry s j \<longrightarrow> delivered (h j)) \<or> unsent_count t < unsent_count s) \<and>
    wkStopping w' = wkStopping w \<and> wkLastSend w' \<in> {wkLastSend w, weClock env AtFinish}"
proof -
  let ?n = "now_at env AtClaim" and ?q = "sweep_jobs env s"
  let ?sr = "swept_row s ?n (now_at env AtSweep)"
  have wf: "well_formed s" and ok: "db_ok s" using c by (simp_all add: calm_def well_formed_def)
  have fair: "others_fair env" using o by (simp add: others_fair_def obliging_def)
  have q: "dbJobs ?q = map ?sr (dbJobs s)" by (simp add: sweep_jobs_def)
  have due: "claimable ?n None dry ?q (?sr j)" if "deliverable now dry s j" for j
    using deliverable_swept(2) [OF ok that n] by (simp add: claimable_cong [of ?q s])
  note R = round_delivers [OF c o p, unfolded dry]
  show ?thesis
  proof (cases "claim_candidate ?n None dry ?q")
    case None
    then have none: "\<not> deliverable now dry s j" if "j \<in> set (dbJobs s)" for j
      using that due by (auto simp: claim_candidate_None_iff q)
    have "unpaused ?q" using c unpaused_cong [of ?q s] by (simp add: calm_def)
    from calm_cong [OF c claim_stage_sweeps(2) [OF wf] _ this] have "calm ?q" by simp
    moreover have "row_progress now dry s ?sr" by (simp add: row_progress_def none swept_row_delivered)
    ultimately show ?thesis using R None none q
      by (intro exI [of _ False] exI [of _ ?q] exI [of _ w] exI [of _ ?sr]) simp
  next
    case (Some k)
    then obtain t w' st options where t: "processOnce env None (s, w) = (Inr (Some True), (t, w'))"
      "st \<in> {SENT, DRY_RUN}" "dbJobs t = update_where (\<lambda>i. jId i = jId k) (\<lambda>i. moved_row st options
          (now_at env AtMove) (claimed_row ?n i)) (dbJobs ?q)"
      "dbDestinations t = dbDestinations s" "unpaused t"
      "wkStopping w' = wkStopping w" "wkLastSend w' = weClock env AtFinish"
      using R by (simp only: option.case) blast
    let ?h = "\<lambda>j. if jId j = jId k then moved_row st options (now_at env AtMove) (claimed_row ?n (?sr j)) else ?sr j"
    have h: "dbJobs t = map ?h (dbJobs s)" by (simp add: t(3) q update_where_def)
    have st: "delivered (moved_row st options a b)" "\<not> is_unsent st" for a b
      using t(2) by (auto simp: delivered_def moved_row_def is_unsent_def unsent_statuses_def)
    have "stays_well (s, w) (t, w')" using keepsD [OF well_processOnce [OF fair], of "(s, w)" None] t(1) by (simp add: after_def)
    then have "calm t" using wf by (intro calm_cong [OF c _ t(4,5)]) (simp add: on_first_def inv_rel_def)
    moreover have "row_progress now dry s ?h"
      using deliverable_swept(1) [OF ok _ n]
      by (auto simp: row_progress_def st swept_row_delivered) (simp_all add: moved_row_def claimed_row_def)
    moreover have "unsent_count t < unsent_count s"
    proof -
      note k = claim_candidate_SomeD [OF Some]
      obtain i where i: "i \<in> set (dbJobs s)" "k = ?sr i" using k(1) by (auto simp: q)
      have "is_unsent (jStatus i)" using k(2) i(2) swept_row_unsent due_unsent by (metis claimable_def)
      moreover have "\<not> is_unsent (jStatus (?h i))" using i(2) st(2) by (simp add: moved_row_def)
      moreover have "is_unsent (jStatus (?h j)) \<Longrightarrow> is_unsent (jStatus j)" for j
        using st(2) swept_row_unsent [of s ?n "now_at env AtSweep" j] by (simp add: moved_row_def split: if_splits)
      ultimately show ?thesis
        unfolding unsent_count_def h by (intro filter_map_less [OF _ i(1)])
    qed
    ultimately show ?thesis using t h
      by (intro exI [of _ True] exI [of _ t] exI [of _ w'] exI [of _ ?h]) simp
  qed
qed

section \<open>The queue empties\<close>

definition all_delivered :: "string \<Rightarrow> bool \<Rightarrow> database \<Rightarrow> database \<Rightarrow> bool" where
  "all_delivered now dry s t \<longleftrightarrow>
     list_all2 (\<lambda>j j'. jId j' = jId j \<and>
       (deliverable now dry s j \<or> delivered j \<longrightarrow> delivered j')) (dbJobs s) (dbJobs t)"

lemma work_drains:
  assumes "steady (wkLastSend w) envs"
    and "\<forall>env \<in> set envs. obliging env \<and> now \<le> now_at env AtClaim \<and> cfgDryRun (weConfig env) = dry"
    and "calm s" and "\<not> wkStopping w"
  shows "\<exists>t w' h. work envs (s, w) = (Inr False, (t, w')) \<and> dbJobs t = map h (dbJobs s) \<and>
    (\<forall>j \<in> set (dbJobs s). jId (h j) = jId j \<and> (delivered j \<longrightarrow> delivered (h j)) \<and>
      (deliverable now dry s j \<and> unsent_count s \<le> length envs \<longrightarrow> delivered (h j)))"
  using assms
proof (induction envs arbitrary: s w)
  case Nil
  have "\<not> deliverable now dry s j" if "unsent_count s = 0" "j \<in> set (dbJobs s)" for j
    using that deliverable_unsent by (auto simp: unsent_count_def filter_empty_conv)
  with Nil show ?case by (intro exI [of _ s] exI [of _ w] exI [of _ id]) (auto simp: work.simps)
next
  case (Cons env envs)
  have env: "obliging env" "now \<le> now_at env AtClaim" "cfgDryRun (weConfig env) = dry"
    and last: "wkLastSend w \<le> weClock env AtPaceStart"
    using Cons.prems(1,2) by simp_all
  have p: "pace env w = Some True"
    using Cons.prems(1) by (intro pace_goes [OF env(1) Cons.prems(4) last]) simp
  obtain r u v h1 where r: "processOnce env None (s, w) = (Inr (Some r), (u, v))" "calm u"
    "dbJobs u = map h1 (dbJobs s)" "dbDestinations u = dbDestinations s" "row_progress now dry s h1"
    "(\<forall>j \<in> set (dbJobs s). deliverable now dry s j \<longrightarrow> delivered (h1 j)) \<or> unsent_count u < unsent_count s"
    "wkStopping v = wkStopping w" "wkLastSend v \<in> {wkLastSend w, weClock env AtFinish}"
    using round_progress [OF Cons.prems(3) env(1) p env(2,3)] by blast
  have "steady (wkLastSend v) envs" using Cons.prems(1) r(8) by (auto intro: steady_mono)
  moreover have "\<not> wkStopping v" using r(7) Cons.prems(4) by simp
  ultimately obtain t w' h2 where t: "work envs (u, v) = (Inr False, (t, w'))" "dbJobs t = map h2 (dbJobs u)"
    "\<forall>j \<in> set (dbJobs u). jId (h2 j) = jId j \<and> (delivered j \<longrightarrow> delivered (h2 j)) \<and>
      (deliverable now dry u j \<and> unsent_count u \<le> length envs \<longrightarrow> delivered (h2 j))"
    using Cons.IH [of v u] Cons.prems(2) r(2) by auto
  have "work (env # envs) (s, w) = (Inr False, (t, w'))"
    using Cons.prems(4) r(1) t(1) env(1)
    by (simp add: work.simps [of "env # envs"] run_bind between_def obliging_def)
  moreover have "jId (h2 (h1 j)) = jId j \<and> (delivered j \<longrightarrow> delivered (h2 (h1 j))) \<and>
      (deliverable now dry s j \<and> unsent_count s \<le> length (env # envs) \<longrightarrow> delivered (h2 (h1 j)))"
    if j: "j \<in> set (dbJobs s)" for j
  proof -
    have "h1 j \<in> set (dbJobs u)" using j r(3) by simp
    with t(3) have h2: "jId (h2 (h1 j)) = jId (h1 j)" "delivered (h1 j) \<Longrightarrow> delivered (h2 (h1 j))"
      "deliverable now dry s (h1 j) \<Longrightarrow> unsent_count u \<le> length envs \<Longrightarrow> delivered (h2 (h1 j))"
      by (auto simp: deliverable_cong [OF r(4)])
    with r(5,6) j show ?thesis unfolding row_progress_def by fastforce
  qed
  ultimately show ?case using t(2) r(3)
    by (intro exI [of _ t] exI [of _ w'] exI [of _ "h2 \<circ> h1"]) simp
qed

text \<open>
  C4.  Every due message is delivered.  A worker that is not asked to stop, whose transport answers and
  whose clock goes on, with nothing pausing the sending and no other process writing, needs at most as
  many rounds as there are unsent jobs: then each job that was due for an allowed destination, or
  scheduled up to that time, is \<open>SENT\<close> or \<open>DRY_RUN\<close>, the delivered ones still are, and
  the worker goes on waiting.
\<close>

theorem queue_drains:
  assumes "steady (wkLastSend w) envs"
    and "\<forall>env \<in> set envs. obliging env \<and> now \<le> now_at env AtClaim \<and> cfgDryRun (weConfig env) = dry"
    and "calm s" and "\<not> wkStopping w" and "unsent_count s \<le> length envs"
  shows "\<exists>t w'. run envs startedAt stoppedAt (s, w) = (Inr False, (t, w')) \<and> all_delivered now dry s t"
proof -
  let ?s = "after (state_set ''worker_state'' (Some ''RUNNING'') startedAt) s"
  let ?w = "w\<lparr>wkRunning := True\<rparr>"
  have same: "dbJobs ?s = dbJobs s" "dbDestinations ?s = dbDestinations s"
    by (simp_all add: state_set_destinations)
  have wf: "well_formed s" using assms(3) by (simp add: calm_def)
  have "stays_well (s, ?w) (after (on_fst (state_set ''worker_state'' (Some ''RUNNING'') startedAt)) (s, ?w))"
    by (rule keepsD, rule keeps_well, rule sound_state_set, rule same_uuids_state_set)
  then have "well_formed ?s" using wf by (simp add: on_first_def inv_rel_def run_on_fst after_def)
  moreover have "unpaused ?s"
    using assms(3) by (simp add: calm_def unpaused_state_set pause_reason_def pause_until_def)
  ultimately have c: "calm ?s" using calm_cong [OF assms(3) _ same(2)] by blast
  have st: "steady (wkLastSend ?w) envs" "\<not> wkStopping ?w" using assms(1,4) by simp_all
  obtain t w' h where t: "work envs (?s, ?w) = (Inr False, (t, w'))" "dbJobs t = map h (dbJobs s)"
    "\<forall>j \<in> set (dbJobs s). jId (h j) = jId j \<and> (delivered j \<longrightarrow> delivered (h j)) \<and>
      (deliverable now dry s j \<and> unsent_count s \<le> length envs \<longrightarrow> delivered (h j))"
    using work_drains [OF st(1) assms(2) c st(2)] same
    by (auto simp: deliverable_cong [OF same(2)] unsent_count_def)
  have "run envs startedAt stoppedAt (s, w) = (Inr False, (t, w'))"
    unfolding run_def
    by (simp add: run_bind run_on_fst run_on_snd run_state_set after_def [of "writeE f" for f] t(1))
  moreover have "all_delivered now dry s t"
    using t(2,3) assms(5) by (auto simp: all_delivered_def list_all2_map2 intro!: list.rel_refl_strong)
  ultimately show ?thesis by blast
qed

section \<open>The sample queue\<close>

lemma sample_calm: "calm sample_db"
  unfolding calm_def
  by (intro conjI sample_well_formed) code_simp+

lemma sample_obliging: "obliging (sample_worker_env sample_answer)"
  by (simp add: obliging_def sample_worker_env_def sample_answer_def)

theorem queue_drains_witness:
  "\<exists>t w'. run (replicate 6 (sample_worker_env sample_answer)) ''a'' ''b'' (sample_db, idle_worker) =
      (Inr False, (t, w')) \<and>
     delivered (dbJobs t ! 0) \<and> delivered (dbJobs t ! 1) \<and> delivered (dbJobs t ! 5)"
proof -
  let ?env = "sample_worker_env sample_answer"
  have s: "steady (wkLastSend idle_worker) (replicate 6 ?env)" by code_simp
  have "''2026-01-03'' \<le> now_at ?env AtClaim" "cfgDryRun (weConfig ?env) = False" by code_simp+
  with sample_obliging have o: "\<forall>env \<in> set (replicate 6 ?env). obliging env \<and>
      ''2026-01-03'' \<le> now_at env AtClaim \<and> cfgDryRun (weConfig env) = False" by simp
  have u: "\<not> wkStopping idle_worker" "unsent_count sample_db \<le> length (replicate 6 ?env)" by code_simp+
  have d: "deliverable ''2026-01-03'' False sample_db (dbJobs sample_db ! 0)"
    "deliverable ''2026-01-03'' False sample_db (dbJobs sample_db ! 1)"
    "deliverable ''2026-01-03'' False sample_db (dbJobs sample_db ! 5)"
    "0 < length (dbJobs sample_db)" "1 < length (dbJobs sample_db)" "5 < length (dbJobs sample_db)"
    by code_simp+
  obtain t w' where t: "run (replicate 6 ?env) ''a'' ''b'' (sample_db, idle_worker) = (Inr False, (t, w'))"
    "all_delivered ''2026-01-03'' False sample_db t"
    using queue_drains [OF s o sample_calm u, of "''a''" "''b''"] by blast
  with d show ?thesis unfolding all_delivered_def by (blast dest: list_all2_nthD)
qed

end
