(* ===== verification/Schema.thy ===== *)
theory Schema
  imports Migrations Database
begin

text \<open>
  The schema itself, \<open>src/src/db/migrations/index.ts\<close>: the five scripts as statements, what such
  statements do to the catalog of tables and indexes, and the rows of \<open>message_jobs\<close> as
  \<open>src/src/db/repositories/job-repository.ts\<close> stores and reads them.

  That SQLite reads the text of a script as these statements is an argument of the theorem about
  upgrades; the rules by which a statement is refused are those of its documentation.  The lemmas:
  every older schema is upgraded to the same catalog, the lists in the constraints are those of
  the types of the model, and a job is stored as a row the constraints accept and read back as it was.
\<close>

section \<open>Statements\<close>

datatype sql_type = SqlText | SqlInteger | SqlBlob

datatype sql_value = NullValue | TextValue string | IntValue int

datatype on_delete = NoAction | Cascade | SetNull

datatype column_check =
    OneOfText "string list"
  | OneOfInt "int list"
  | AtLeast int
  | MoreThan int

datatype attribute =
    PrimaryKey
  | AutoIncrement
  | NotNull
  | UniqueColumn
  | NoCase
  | DefaultTo sql_value
  | CheckThat column_check
  | RefersTo string string on_delete

datatype column = Column (column_name: string) (column_type: sql_type) (attributes: "attribute list")

datatype table_constraint = PrimaryKeyOf "string list" | UniqueOf "string list"

datatype statement =
    CreateTable string "column list" "table_constraint list"
  | CreateIndex bool string string "string list" "(string \<times> string list) option"
  | AddColumn string column

section \<open>The scripts\<close>

definition app_state_table :: statement where
  "app_state_table = CreateTable ''app_state''
     [Column ''key'' SqlText [PrimaryKey],
      Column ''value'' SqlText [],
      Column ''updated_at'' SqlText [NotNull]] []"

definition destinations_table :: statement where
  "destinations_table = CreateTable ''destinations''
     [Column ''jid'' SqlText [PrimaryKey],
      Column ''subject'' SqlText [NotNull],
      Column ''description'' SqlText [],
      Column ''owner_jid'' SqlText [],
      Column ''participant_count'' SqlInteger [],
      Column ''addressing_mode'' SqlText [],
      Column ''alias'' SqlText [UniqueColumn, NoCase],
      Column ''enabled'' SqlInteger [NotNull, DefaultTo (IntValue 0), CheckThat (OneOfInt [0, 1])],
      Column ''can_send'' SqlInteger [NotNull, DefaultTo (IntValue 1), CheckThat (OneOfInt [0, 1])],
      Column ''created_at'' SqlText [NotNull],
      Column ''updated_at'' SqlText [NotNull],
      Column ''last_refreshed_at'' SqlText [NotNull]] []"

definition media_assets_table :: statement where
  "media_assets_table = CreateTable ''media_assets''
     [Column ''hash'' SqlText [PrimaryKey],
      Column ''path'' SqlText [NotNull, UniqueColumn],
      Column ''byte_size'' SqlInteger [NotNull, CheckThat (AtLeast 0)],
      Column ''mime_type'' SqlText [],
      Column ''created_at'' SqlText [NotNull]] []"

definition message_jobs_table :: statement where
  "message_jobs_table = CreateTable ''message_jobs''
     [Column ''id'' SqlInteger [PrimaryKey, AutoIncrement],
      Column ''uuid'' SqlText [NotNull, UniqueColumn],
      Column ''destination_jid'' SqlText [NotNull, RefersTo ''destinations'' ''jid'' NoAction],
      Column ''payload_type'' SqlText [NotNull,
        CheckThat (OneOfText [''text'', ''image'', ''video'', ''document'', ''audio''])],
      Column ''text'' SqlText [],
      Column ''media_path'' SqlText [],
      Column ''media_hash'' SqlText [RefersTo ''media_assets'' ''hash'' NoAction],
      Column ''media_mime'' SqlText [],
      Column ''filename'' SqlText [],
      Column ''scheduled_at'' SqlText [NotNull],
      Column ''status'' SqlText [NotNull, CheckThat (OneOfText
        [''PENDING'', ''SCHEDULED'', ''PROCESSING'', ''WAITING_RATE_LIMIT'', ''RETRY'',
         ''SENT'', ''FAILED'', ''CANCELLED'', ''REVIEW_REQUIRED'', ''DRY_RUN''])],
      Column ''attempt_count'' SqlInteger [NotNull, DefaultTo (IntValue 0), CheckThat (AtLeast 0)],
      Column ''max_attempts'' SqlInteger [NotNull, CheckThat (MoreThan 0)],
      Column ''next_attempt_at'' SqlText [],
      Column ''last_error_class'' SqlText [],
      Column ''last_error_message'' SqlText [],
      Column ''idempotency_key'' SqlText [NotNull],
      Column ''options_json'' SqlText [NotNull, DefaultTo (TextValue ''{}'')],
      Column ''requested_by'' SqlText [NotNull],
      Column ''created_at'' SqlText [NotNull],
      Column ''updated_at'' SqlText [NotNull],
      Column ''started_at'' SqlText [],
      Column ''sent_at'' SqlText [],
      Column ''remote_message_id'' SqlText []] []"

definition audit_events_table :: statement where
  "audit_events_table = CreateTable ''audit_events''
     [Column ''id'' SqlInteger [PrimaryKey, AutoIncrement],
      Column ''event_type'' SqlText [NotNull],
      Column ''actor'' SqlText [NotNull],
      Column ''entity_type'' SqlText [],
      Column ''entity_id'' SqlText [],
      Column ''details_json'' SqlText [],
      Column ''created_at'' SqlText [NotNull]] []"

definition wa_auth_creds_table :: statement where
  "wa_auth_creds_table = CreateTable ''wa_auth_creds''
     [Column ''singleton'' SqlInteger [PrimaryKey, CheckThat (OneOfInt [1])],
      Column ''value_json'' SqlText [NotNull],
      Column ''updated_at'' SqlText [NotNull]] []"

definition wa_auth_keys_table :: statement where
  "wa_auth_keys_table = CreateTable ''wa_auth_keys''
     [Column ''category'' SqlText [NotNull],
      Column ''key_id'' SqlText [NotNull],
      Column ''value_json'' SqlText [NotNull],
      Column ''updated_at'' SqlText [NotNull]] [PrimaryKeyOf [''category'', ''key_id'']]"

definition controller_messages_table :: statement where
  "controller_messages_table = CreateTable ''controller_messages''
     [Column ''message_id'' SqlText [PrimaryKey],
      Column ''received_at'' SqlText [NotNull],
      Column ''command_hash'' SqlText [NotNull]] []"

definition initial_schema :: "statement list" where
  "initial_schema = [app_state_table, destinations_table, media_assets_table, message_jobs_table,
     audit_events_table, wa_auth_creds_table, wa_auth_keys_table, controller_messages_table]"

definition queue_indexes :: "statement list" where
  "queue_indexes =
     [CreateIndex False ''ix_jobs_status_due'' ''message_jobs''
        [''status'', ''next_attempt_at'', ''scheduled_at''] None,
      CreateIndex False ''ix_jobs_destination'' ''message_jobs'' [''destination_jid''] None,
      CreateIndex False ''ix_audit_created'' ''audit_events'' [''created_at''] None,
      CreateIndex True ''uq_jobs_active_idempotency'' ''message_jobs'' [''idempotency_key'']
        (Some (''status'', [''PENDING'', ''SCHEDULED'', ''PROCESSING'', ''WAITING_RATE_LIMIT'',
           ''RETRY'', ''SENT'', ''DRY_RUN'']))]"

definition sets_and_batches :: "statement list" where
  "sets_and_batches =
     [CreateTable ''group_sets''
        [Column ''id'' SqlInteger [PrimaryKey, AutoIncrement],
         Column ''name'' SqlText [NotNull, NoCase, UniqueColumn],
         Column ''created_at'' SqlText [NotNull],
         Column ''updated_at'' SqlText [NotNull]] [],
      CreateTable ''group_set_members''
        [Column ''group_set_id'' SqlInteger [NotNull, RefersTo ''group_sets'' ''id'' Cascade],
         Column ''destination_jid'' SqlText [NotNull],
         Column ''created_at'' SqlText [NotNull]] [UniqueOf [''group_set_id'', ''destination_jid'']],
      CreateIndex False ''ix_group_set_members_destination'' ''group_set_members''
        [''destination_jid''] None,
      CreateTable ''message_batches''
        [Column ''id'' SqlText [PrimaryKey],
         Column ''type'' SqlText [NotNull,
           CheckThat (OneOfText [''sendall'', ''sendmulti'', ''sendset''])],
         Column ''target_count'' SqlInteger [NotNull, CheckThat (AtLeast 0)],
         Column ''created_at'' SqlText [NotNull]] [],
      AddColumn ''message_jobs'' (Column ''batch_id'' SqlText [RefersTo ''message_batches'' ''id'' SetNull]),
      CreateIndex False ''ix_jobs_batch'' ''message_jobs'' [''batch_id''] None]"

definition dry_run_intent :: "statement list" where
  "dry_run_intent =
     [AddColumn ''message_jobs'' (Column ''dry_run'' SqlInteger
        [NotNull, DefaultTo (IntValue 0), CheckThat (OneOfInt [0, 1])])]"

definition forward_sources_script :: "statement list" where
  "forward_sources_script =
     [CreateTable ''forward_sources''
        [Column ''source_key'' SqlText [PrimaryKey],
         Column ''payload'' SqlBlob [NotNull],
         Column ''content_type'' SqlText [NotNull],
         Column ''received_at'' SqlText [NotNull],
         Column ''expires_at'' SqlText []] [],
      AddColumn ''message_jobs'' (Column ''forward_source_key'' SqlText []),
      CreateIndex False ''ix_jobs_forward_source'' ''message_jobs'' [''forward_source_key''] None]"

definition schema_scripts :: "(nat \<times> string \<times> statement list) list" where
  "schema_scripts =
     [(1, ''initial_schema'', initial_schema),
      (2, ''queue_indexes'', queue_indexes),
      (3, ''group_sets_and_message_batches'', sets_and_batches),
      (4, ''persist_job_dry_run_intent'', dry_run_intent),
      (5, ''forward_sources'', forward_sources_script)]"

definition schema_migrations :: "(statement list \<Rightarrow> string) \<Rightarrow> migration list" where
  "schema_migrations render =
     map (\<lambda>(v, n, script). \<lparr>mgVersion = v, mgName = n, mgSql = render script\<rparr>) schema_scripts"

section \<open>What a statement does\<close>

record table_entry =
  teName :: string
  teColumns :: "column list"
  teConstraints :: "table_constraint list"

record index_entry =
  ieName :: string
  ieUnique :: bool
  ieTable :: string
  ieColumns :: "string list"
  ieWhere :: "(string \<times> string list) option"

record catalog =
  cgTables :: "table_entry list"
  cgIndexes :: "index_entry list"

definition no_schema :: catalog where
  "no_schema = \<lparr>cgTables = [], cgIndexes = []\<rparr>"

definition table_of :: "catalog \<Rightarrow> string \<Rightarrow> table_entry option" where
  "table_of c t = find_first (\<lambda>e. teName e = t) (cgTables c)"

definition column_of :: "table_entry \<Rightarrow> string \<Rightarrow> column option" where
  "column_of e n = find_first (\<lambda>c. column_name c = n) (teColumns e)"

definition name_taken :: "catalog \<Rightarrow> string \<Rightarrow> bool" where
  "name_taken c n \<longleftrightarrow> n \<in> set (map teName (cgTables c)) \<or> n \<in> set (map ieName (cgIndexes c))"

definition refused :: "string \<Rightarrow> error + catalog" where
  "refused m = Inl (PlainError m)"

text \<open>The columns an index names must exist; what a new column may say while the table has rows.\<close>

definition missing_column :: "table_entry \<Rightarrow> string list \<Rightarrow> string option" where
  "missing_column e names = find_first (\<lambda>n. column_of e n = None) names"

fun default_value :: "attribute list \<Rightarrow> sql_value" where
  "default_value [] = NullValue"
| "default_value (DefaultTo v # rest) = v"
| "default_value (a # rest) = default_value rest"

definition refers :: "attribute \<Rightarrow> bool" where
  "refers a \<longleftrightarrow> (case a of RefersTo t c d \<Rightarrow> True | _ \<Rightarrow> False)"

definition column_refusal :: "column \<Rightarrow> string option" where
  "column_refusal c =
     (let attrs = attributes c in
      if PrimaryKey \<in> set attrs then Some ''Cannot add a PRIMARY KEY column''
      else if UniqueColumn \<in> set attrs then Some ''Cannot add a UNIQUE column''
      else if list_ex refers attrs \<and> default_value attrs \<noteq> NullValue
      then Some ''Cannot add a REFERENCES column with non-NULL default value''
      else if NotNull \<in> set attrs \<and> default_value attrs = NullValue
      then Some ''Cannot add a NOT NULL column with default value NULL''
      else None)"

fun execute :: "statement \<Rightarrow> catalog \<Rightarrow> error + catalog" where
  "execute (CreateTable t columns constraints) c =
     (if name_taken c t then refused (''table '' @ t @ '' already exists'')
      else if \<not> distinct (map column_name columns) then refused ''duplicate column name''
      else Inr (c\<lparr>cgTables := cgTables c @
        [\<lparr>teName = t, teColumns = columns, teConstraints = constraints\<rparr>]\<rparr>))"
| "execute (CreateIndex unique i t columns cond) c =
     (if name_taken c i then refused (''index '' @ i @ '' already exists'')
      else case table_of c t of
        None \<Rightarrow> refused (''no such table: main.'' @ t)
      | Some e \<Rightarrow>
          (case missing_column e (columns @ (case cond of None \<Rightarrow> [] | Some (n, _) \<Rightarrow> [n])) of
             Some n \<Rightarrow> refused (''no such column: '' @ n)
           | None \<Rightarrow> Inr (c\<lparr>cgIndexes := cgIndexes c @
               [\<lparr>ieName = i, ieUnique = unique, ieTable = t, ieColumns = columns, ieWhere = cond\<rparr>]\<rparr>)))"
| "execute (AddColumn t col) c =
     (case table_of c t of
        None \<Rightarrow> refused (''no such table: '' @ t)
      | Some e \<Rightarrow>
          if column_of e (column_name col) \<noteq> None
          then refused (''duplicate column name: '' @ column_name col)
          else case column_refusal col of
            Some m \<Rightarrow> refused m
          | None \<Rightarrow> Inr (c\<lparr>cgTables := update_where (\<lambda>x. teName x = t)
              (\<lambda>x. x\<lparr>teColumns := teColumns x @ [col]\<rparr>) (cgTables c)\<rparr>))"

fun run_script :: "statement list \<Rightarrow> catalog \<Rightarrow> error + catalog" where
  "run_script [] c = Inr c"
| "run_script (st # rest) c = (case execute st c of Inl e \<Rightarrow> Inl e | Inr d \<Rightarrow> run_script rest d)"

section \<open>Every older schema is brought up to date\<close>

text \<open>The catalog after the first \<open>k\<close> scripts, and a database some older program had migrated that far.\<close>

fun catalog_after :: "nat \<Rightarrow> catalog" where
  "catalog_after 0 = no_schema"
| "catalog_after (Suc k) =
     (case run_script (snd (snd (schema_scripts ! k))) (catalog_after k) of
        Inl e \<Rightarrow> catalog_after k | Inr c \<Rightarrow> c)"

definition current_catalog :: catalog where
  "current_catalog = catalog_after 5"

definition installed ::
    "(statement list \<Rightarrow> string) \<Rightarrow> (string \<Rightarrow> string) \<Rightarrow> string \<Rightarrow> nat \<Rightarrow> catalog schema" where
  "installed render sha since k =
     \<lparr>scRows = map (row_of sha since) (take k (schema_migrations render)), scData = catalog_after k\<rparr>"

definition reads_scripts ::
    "(string \<Rightarrow> catalog \<Rightarrow> error + catalog) \<Rightarrow> (statement list \<Rightarrow> string) \<Rightarrow> bool" where
  "reads_scripts exec render \<longleftrightarrow> (\<forall>(v, n, script) \<in> set schema_scripts. exec (render script) = run_script script)"

lemma run_script_append:
  "run_script (xs @ ys) c = (case run_script xs c of Inl e \<Rightarrow> Inl e | Inr d \<Rightarrow> run_script ys d)"
  by (induction xs arbitrary: c) (simp_all split: sum.split)

lemma all_scripts_run: "\<not> isl (run_script (concat (map (snd \<circ> snd) schema_scripts)) no_schema)"
  by code_simp

lemma scripts_length: "length schema_scripts = 5"
  by (simp add: schema_scripts_def)

lemma prefix_runs:
  "k \<le> 5 \<Longrightarrow> run_script (concat (map (snd \<circ> snd) (take k schema_scripts))) no_schema = Inr (catalog_after k)"
proof (induction k)
  case (Suc k)
  let ?x = "schema_scripts ! k"
  have t: "take (Suc k) schema_scripts = take k schema_scripts @ [?x]"
    using Suc.prems by (simp add: take_Suc_conv_app_nth scripts_length)
  have "schema_scripts = take (Suc k) schema_scripts @ drop (Suc k) schema_scripts" by simp
  then have "concat (map (snd \<circ> snd) schema_scripts) =
      concat (map (snd \<circ> snd) (take (Suc k) schema_scripts)) @ concat (map (snd \<circ> snd) (drop (Suc k) schema_scripts))"
    by (metis concat_append map_append)
  with all_scripts_run have "\<not> isl (run_script (concat (map (snd \<circ> snd) (take (Suc k) schema_scripts))) no_schema)"
    by (simp only: run_script_append) (auto split: sum.splits)
  with Suc show ?case by (auto simp: t run_script_append comp_def split: sum.splits)
qed simp

lemma scripts_run:
  assumes "k < 5"
  shows "run_script (snd (snd (schema_scripts ! k))) (catalog_after k) = Inr (catalog_after (Suc k))"
proof -
  have "take (Suc k) schema_scripts = take k schema_scripts @ [schema_scripts ! k]"
    using assms by (simp add: take_Suc_conv_app_nth scripts_length)
  with prefix_runs [of "Suc k"] prefix_runs [of k] assms show ?thesis
    by (simp add: run_script_append del: catalog_after.simps)
qed

lemma schema_versions: "map mgVersion (schema_migrations render) = [1, 2, 3, 4, 5]"
  "distinct (map mgName (schema_migrations render))"
  by (simp_all add: schema_migrations_def schema_scripts_def)

lemma schema_length: "length (schema_migrations render) = 5"
  by (simp add: schema_migrations_def schema_scripts_def)

lemma schema_distinct: "distinct (map mgVersion (schema_migrations render))"
  by (simp add: schema_versions(1))

lemma applied_row_of:
  "distinct (map mgVersion ms) \<Longrightarrow> i < length ms \<Longrightarrow> k \<le> length ms \<Longrightarrow>
   applied_row (map (row_of sha since) (take k ms)) (mgVersion (ms ! i)) =
     (if i < k then Some (row_of sha since (ms ! i)) else None)"
proof (cases "i < k")
  case True
  assume d: "distinct (map mgVersion ms)" and i: "i < length ms" "k \<le> length ms"
  have "take k ms ! i = ms ! i" "i < length (take k ms)" using True i by simp_all
  then have m: "ms ! i \<in> set (take k ms)" by (metis nth_mem)
  have "applied_row (map (row_of sha since) (take k ms)) (mgVersion (ms ! i)) = Some (row_of sha since (ms ! i))"
    unfolding applied_row_def
  proof (rule find_first_unique)
    fix r
    assume "r \<in> set (map (row_of sha since) (take k ms))" and v: "amVersion r = mgVersion (ms ! i)"
    then obtain m where "m \<in> set ms" "r = row_of sha since m" by (auto dest: in_set_takeD)
    with v d i(1) show "r = row_of sha since (ms ! i)"
      using distinct_map_eq [of mgVersion ms m "ms ! i"] by (simp add: row_of_def)
  qed (use m in \<open>simp_all add: row_of_def\<close>)
  with True show ?thesis by simp
next
  case False
  assume d: "distinct (map mgVersion ms)" and i: "i < length ms" "k \<le> length ms"
  have "mgVersion (ms ! i) \<notin> set (take k (map mgVersion ms))"
    using d i False by (auto simp: in_set_conv_nth distinct_conv_nth)
  then have "applied_row (map (row_of sha since) (take k ms)) (mgVersion (ms ! i)) = None"
    unfolding applied_row_def take_map by (auto simp: find_first_None_iff row_of_def) (metis imageI)
  with False show ?thesis by simp
qed

text \<open>One script: its statements and its row.\<close>

lemma script_applied:
  assumes "reads_scripts exec render" and k: "k < 5"
    and "map amVersion rows = map mgVersion (take k (schema_migrations render))"
    and "map amName rows = map mgName (take k (schema_migrations render))"
    and "applied_row applied (mgVersion (schema_migrations render ! k)) = None"
  shows "apply_migration exec sha now applied (schema_migrations render ! k)
      \<lparr>scRows = rows, scData = catalog_after k\<rparr> =
    (Inr (), \<lparr>scRows = rows @ [row_of sha now (schema_migrations render ! k)], scData = catalog_after (Suc k)\<rparr>)"
proof -
  let ?m = "schema_migrations render ! k"
  have l: "k < length schema_scripts" using k by (simp add: schema_scripts_def)
  have "schema_scripts ! k \<in> set schema_scripts" using l by simp
  with assms(1) have "exec (mgSql ?m) = run_script (snd (snd (schema_scripts ! k)))"
    using l by (cases "schema_scripts ! k") (auto simp: reads_scripts_def schema_migrations_def)
  with scripts_run [OF k] have "exec (mgSql ?m) (catalog_after k) = Inr (catalog_after (Suc k))"
    by (simp del: catalog_after.simps)
  moreover have "mgVersion ?m \<notin> set (map amVersion rows)" "mgName ?m \<notin> set (map amName rows)"
    unfolding assms(3,4)
    using schema_distinct [of render] schema_versions(2) [of render] k schema_length [of render]
    by (auto simp: take_map [symmetric] in_set_conv_nth distinct_conv_nth)
  ultimately show ?thesis
    using assms(5)
    by (simp add: apply_migration_def run_atomically run_bind run_sql_def record_migration_def row_of_def
        del: catalog_after.simps)
qed

lemma forE_snoc:
  "forE (xs @ [x]) f s = (case forE xs f s of
     (Inl e, t) \<Rightarrow> (Inl e, t)
   | (Inr ys, t) \<Rightarrow> (case f x t of (Inl e, u) \<Rightarrow> (Inl e, u) | (Inr y, u) \<Rightarrow> (Inr (ys @ [y]), u)))"
proof (induction xs arbitrary: s)
  case (Cons a xs)
  show ?case by (cases "f a s"; cases "fst (f a s)") (auto simp: run_bind Cons split: prod.split sum.split)
qed (auto simp: run_bind split: prod.split sum.split)

lemma upgrade_loop:
  assumes "reads_scripts exec render" and "k \<le> 5" and "j \<le> 5"
  shows "\<exists>us. forE (take j (schema_migrations render))
      (apply_migration exec sha now (scRows (installed render sha since k))) (installed render sha since k) =
    (Inr us, \<lparr>scRows = map (row_of sha since) (take k (schema_migrations render)) @
       map (row_of sha now) (drop k (take j (schema_migrations render))), scData = catalog_after (max k j)\<rparr>)"
  using assms(3)
proof (induction j)
  case 0
  then show ?case by (simp add: installed_def)
next
  case (Suc j)
  let ?ms = "schema_migrations render"
  let ?a = "apply_migration exec sha now (scRows (installed render sha since k)) (?ms ! j)"
  have j: "j < length ?ms" "k \<le> length ?ms" using Suc.prems assms(2) by (simp_all add: schema_length)
  note row = applied_row_of [OF schema_distinct j, of sha since]
  obtain us where us: "forE (take j ?ms) (apply_migration exec sha now (scRows (installed render sha since k)))
      (installed render sha since k) = (Inr us, \<lparr>scRows = map (row_of sha since) (take k ?ms) @
       map (row_of sha now) (drop k (take j ?ms)), scData = catalog_after (max k j)\<rparr>)"
    using Suc by auto
  have t: "take (Suc j) ?ms = take j ?ms @ [?ms ! j]" using j(1) by (simp add: take_Suc_conv_app_nth)
  show ?case
  proof (cases "j < k")
    case True
    then have "?a x = (Inr (), x)" for x
      using row by (simp add: apply_migration_def installed_def migration_changed_def row_of_def)
    moreover have "drop k (take (Suc j) ?ms) = drop k (take j ?ms)" "max k (Suc j) = max k j"
      using True by simp_all
    ultimately show ?thesis by (simp add: t [symmetric] forE_snoc us del: catalog_after.simps) (simp add: t forE_snoc us)
  next
    case False
    have none: "applied_row (scRows (installed render sha since k)) (mgVersion (?ms ! j)) = None"
      using False row by (simp add: installed_def)
    let ?rows = "map (row_of sha since) (take k ?ms) @ map (row_of sha now) (drop k (take j ?ms))"
    have all: "take k ?ms @ drop k (take j ?ms) = take j ?ms"
      using False by (metis append_take_drop_id min.absorb1 not_less take_take)
    have f: "map g (take j ?ms) = map g (take k ?ms) @ map g (drop k (take j ?ms))" for g :: "migration \<Rightarrow> 'b"
      by (subst all [symmetric]) simp
    have "?a \<lparr>scRows = ?rows, scData = catalog_after j\<rparr> =
        (Inr (), \<lparr>scRows = ?rows @ [row_of sha now (?ms ! j)], scData = catalog_after (Suc j)\<rparr>)"
      using Suc.prems by (intro script_applied [OF assms(1) _ _ _ none]) (simp_all add: f row_of_def)
    moreover have "drop k (take (Suc j) ?ms) = drop k (take j ?ms) @ [?ms ! j]" "max k (Suc j) = Suc j" "max k j = j"
      using False j(1) by (simp_all add: t)
    ultimately show ?thesis using us by (simp add: t forE_snoc del: catalog_after.simps)
  qed
qed


section \<open>The constraints and the types of the model\<close>

definition checks_of :: "column \<Rightarrow> column_check list" where
  "checks_of c = List.map_filter (\<lambda>a. case a of CheckThat k \<Rightarrow> Some k | _ \<Rightarrow> None) (attributes c)"

definition listed :: "catalog \<Rightarrow> string \<Rightarrow> string \<Rightarrow> string list" where
  "listed c t n =
     (case table_of c t of
        None \<Rightarrow> []
      | Some e \<Rightarrow> (case column_of e n of
          None \<Rightarrow> []
        | Some col \<Rightarrow> (case checks_of col of [OneOfText xs] \<Rightarrow> xs | _ \<Rightarrow> [])))"

text \<open>A foreign key refers to the primary key of a table that exists.\<close>

definition reference_resolves :: "catalog \<Rightarrow> attribute \<Rightarrow> bool" where
  "reference_resolves c a =
     (case a of
        RefersTo t n d \<Rightarrow>
          (case table_of c t of
             None \<Rightarrow> False
           | Some e \<Rightarrow> (case column_of e n of None \<Rightarrow> False | Some col \<Rightarrow> PrimaryKey \<in> set (attributes col)))
      | _ \<Rightarrow> True)"

definition references_resolve :: "catalog \<Rightarrow> bool" where
  "references_resolve c \<longleftrightarrow>
     list_all (\<lambda>e. list_all (\<lambda>col. list_all (reference_resolves c) (attributes col)) (teColumns e)) (cgTables c)"

definition index_named :: "catalog \<Rightarrow> string \<Rightarrow> index_entry option" where
  "index_named c i = find_first (\<lambda>e. ieName e = i) (cgIndexes c)"

lemma all_of:
  "(UNIV :: job_status set) = set [PENDING, SCHEDULED, PROCESSING, WAITING_RATE_LIMIT, RETRY, SENT, FAILED,
     CANCELLED, REVIEW_REQUIRED, DRY_RUN]"
  "(UNIV :: payload_type set) = set [PT_text, PT_image, PT_video, PT_document, PT_audio]"
  "(UNIV :: batch_type set) = set [BT_sendall, BT_sendmulti, BT_sendset]"
proof -
  have "(st :: job_status) \<in> set [PENDING, SCHEDULED, PROCESSING, WAITING_RATE_LIMIT, RETRY, SENT, FAILED,
     CANCELLED, REVIEW_REQUIRED, DRY_RUN]" for st by (cases st) simp_all
  then show "(UNIV :: job_status set) = set [PENDING, SCHEDULED, PROCESSING, WAITING_RATE_LIMIT, RETRY, SENT,
     FAILED, CANCELLED, REVIEW_REQUIRED, DRY_RUN]" by blast
  have "(p :: payload_type) \<in> set [PT_text, PT_image, PT_video, PT_document, PT_audio]" for p
    by (cases p) simp_all
  then show "(UNIV :: payload_type set) = set [PT_text, PT_image, PT_video, PT_document, PT_audio]" by blast
  have "(b :: batch_type) \<in> set [BT_sendall, BT_sendmulti, BT_sendset]" for b by (cases b) simp_all
  then show "(UNIV :: batch_type set) = set [BT_sendall, BT_sendmulti, BT_sendset]" by blast
qed

lemma schema_lists:
  "listed current_catalog ''message_jobs'' ''status'' = map show_status [PENDING, SCHEDULED, PROCESSING,
     WAITING_RATE_LIMIT, RETRY, SENT, FAILED, CANCELLED, REVIEW_REQUIRED, DRY_RUN]"
  "listed current_catalog ''message_jobs'' ''payload_type'' =
     map show_payload [PT_text, PT_image, PT_video, PT_document, PT_audio]"
  "listed current_catalog ''message_batches'' ''type'' = map show_batch_type [BT_sendall, BT_sendmulti, BT_sendset]"
  "index_named current_catalog ''uq_jobs_active_idempotency'' = Some
     \<lparr>ieName = ''uq_jobs_active_idempotency'', ieUnique = True, ieTable = ''message_jobs'',
      ieColumns = [''idempotency_key''],
      ieWhere = Some (''status'', map show_status
        [PENDING, SCHEDULED, PROCESSING, WAITING_RATE_LIMIT, RETRY, SENT, DRY_RUN])\<rparr>"
  "references_resolve current_catalog"
  by code_simp+


text \<open>A rendering by the number of statements tells the scripts apart.\<close>

definition sample_render :: "statement list \<Rightarrow> string" where
  "sample_render script = replicate (length script) CHR ''x''"

definition sample_reader :: "string \<Rightarrow> catalog \<Rightarrow> error + catalog" where
  "sample_reader t =
     run_script (case find_first (\<lambda>(v, n, script). sample_render script = t) schema_scripts of
       None \<Rightarrow> [] | Some (v, n, script) \<Rightarrow> script)"

lemma sample_reads: "reads_scripts sample_reader sample_render"
proof -
  have "\<forall>(v, n, script) \<in> set schema_scripts.
      find_first (\<lambda>(v, n, x). sample_render x = sample_render script) schema_scripts = Some (v, n, script)"
    by (simp add: schema_scripts_def sample_render_def initial_schema_def queue_indexes_def
        sets_and_batches_def dry_run_intent_def forward_sources_script_def)
  then show ?thesis by (auto simp: reads_scripts_def sample_reader_def split: prod.splits)
qed


end
