(* ===== verification/Rows.thy ===== *)
theory Rows
  imports Schema MessageService
begin

text \<open>
  Rows as the tables hold them and the functions that read them back: \<open>toJob\<close> of
  \<open>src/src/db/repositories/job-repository.ts\<close>, \<open>toDestination\<close> of \<open>destination-repository.ts\<close>, \<open>mapRow\<close> of
  \<open>media-repository.ts\<close>, \<open>toBatch\<close> of \<open>batch-repository.ts\<close> and the events of \<open>audit-repository.ts\<close>.
  The tables of the model hold the values themselves; the lemmas here show that nothing is lost on
  the way through SQLite and that the constraints of the schema accept what is stored.
\<close>

section \<open>Values\<close>

definition opt_text :: "string option \<Rightarrow> sql_value" where
  "opt_text t = (case t of None \<Rightarrow> NullValue | Some x \<Rightarrow> TextValue x)"

fun text_of :: "sql_value \<Rightarrow> string" where
  "text_of (TextValue t) = t"
| "text_of v = []"

fun text_option :: "sql_value \<Rightarrow> string option" where
  "text_option (TextValue t) = Some t"
| "text_option v = None"

fun nat_of :: "sql_value \<Rightarrow> nat" where
  "nat_of (IntValue n) = nat n"
| "nat_of v = 0"

definition opt_int :: "int option \<Rightarrow> sql_value" where
  "opt_int n = (case n of None \<Rightarrow> NullValue | Some k \<Rightarrow> IntValue k)"

fun int_option :: "sql_value \<Rightarrow> int option" where
  "int_option (IntValue n) = Some n"
| "int_option v = None"

fun int_of_value :: "sql_value \<Rightarrow> int" where
  "int_of_value (IntValue n) = n"
| "int_of_value v = 0"

definition flag :: "bool \<Rightarrow> sql_value" where
  "flag b = IntValue (if b then 1 else 0)"

lemma opt_int_back [simp]: "int_option (opt_int n) = n"
  by (cases n) (simp_all add: opt_int_def)

lemma flag_back [simp]: "flag b = IntValue 1 \<longleftrightarrow> b"
  by (simp add: flag_def)

lemma opt_text_back [simp]: "text_option (opt_text t) = t"
  by (cases t) (simp_all add: opt_text_def)

text \<open>The casts of the statuses, of the kinds of payload and of the types of batch.\<close>

definition read_status :: "string \<Rightarrow> job_status option" where
  "read_status t = find_first (\<lambda>st. show_status st = t)
     [PENDING, SCHEDULED, PROCESSING, WAITING_RATE_LIMIT, RETRY, SENT, FAILED, CANCELLED,
      REVIEW_REQUIRED, DRY_RUN]"

definition read_payload :: "string \<Rightarrow> payload_type option" where
  "read_payload t = find_first (\<lambda>p. show_payload p = t) [PT_text, PT_image, PT_video, PT_document, PT_audio]"

lemma read_status_show [simp]: "read_status (show_status st) = Some st"
  by (cases st) (simp_all add: read_status_def)

lemma read_payload_show [simp]: "read_payload (show_payload p) = Some p"
  by (cases p) (simp_all add: read_payload_def)

definition read_batch_type :: "string \<Rightarrow> batch_type option" where
  "read_batch_type t = find_first (\<lambda>b. show_batch_type b = t) [BT_sendall, BT_sendmulti, BT_sendset]"

lemma read_batch_type_show [simp]: "read_batch_type (show_batch_type b) = Some b"
  by (cases b) (simp_all add: read_batch_type_def)

section \<open>Stored rows\<close>

definition stored_row :: "queue_job \<Rightarrow> (string \<times> sql_value) list" where
  "stored_row j =
     [(''id'', IntValue (int (jId j))),
      (''uuid'', TextValue (jUuid j)),
      (''destination_jid'', TextValue (jDestinationJid j)),
      (''payload_type'', TextValue (show_payload (jPayloadType j))),
      (''text'', opt_text (jText j)),
      (''media_path'', opt_text (jMediaPath j)),
      (''media_hash'', opt_text (jMediaHash j)),
      (''media_mime'', opt_text (jMediaMime j)),
      (''filename'', opt_text (jFilename j)),
      (''scheduled_at'', TextValue (jScheduledAt j)),
      (''status'', TextValue (show_status (jStatus j))),
      (''attempt_count'', IntValue (int (jAttemptCount j))),
      (''max_attempts'', IntValue (int (jMaxAttempts j))),
      (''next_attempt_at'', opt_text (jNextAttemptAt j)),
      (''last_error_class'', opt_text (jLastErrorClass j)),
      (''last_error_message'', opt_text (jLastErrorMessage j)),
      (''idempotency_key'', TextValue (jIdempotencyKey j)),
      (''options_json'', TextValue (jOptionsJson j)),
      (''requested_by'', TextValue (jRequestedBy j)),
      (''created_at'', TextValue (jCreatedAt j)),
      (''updated_at'', TextValue (jUpdatedAt j)),
      (''started_at'', opt_text (jStartedAt j)),
      (''sent_at'', opt_text (jSentAt j)),
      (''remote_message_id'', opt_text (jRemoteMessageId j)),
      (''batch_id'', opt_text (jBatchId j)),
      (''dry_run'', flag (jDryRun j)),
      (''forward_source_key'', opt_text (jForwardSourceKey j))]"

definition toJob :: "(string \<Rightarrow> sql_value) \<Rightarrow> queue_job option" where
  "toJob row =
     (case (read_payload (text_of (row ''payload_type'')), read_status (text_of (row ''status''))) of
        (Some payload, Some status) \<Rightarrow> Some
          \<lparr>jId = nat_of (row ''id''),
           jUuid = text_of (row ''uuid''),
           jDestinationJid = text_of (row ''destination_jid''),
           jPayloadType = payload,
           jText = text_option (row ''text''),
           jMediaPath = text_option (row ''media_path''),
           jMediaHash = text_option (row ''media_hash''),
           jMediaMime = text_option (row ''media_mime''),
           jFilename = text_option (row ''filename''),
           jScheduledAt = text_of (row ''scheduled_at''),
           jStatus = status,
           jAttemptCount = nat_of (row ''attempt_count''),
           jMaxAttempts = nat_of (row ''max_attempts''),
           jNextAttemptAt = text_option (row ''next_attempt_at''),
           jLastErrorClass = text_option (row ''last_error_class''),
           jLastErrorMessage = text_option (row ''last_error_message''),
           jIdempotencyKey = text_of (row ''idempotency_key''),
           jOptionsJson = text_of (row ''options_json''),
           jRequestedBy = text_of (row ''requested_by''),
           jCreatedAt = text_of (row ''created_at''),
           jUpdatedAt = text_of (row ''updated_at''),
           jStartedAt = text_option (row ''started_at''),
           jSentAt = text_option (row ''sent_at''),
           jRemoteMessageId = text_option (row ''remote_message_id''),
           jBatchId = text_option (row ''batch_id''),
           jDryRun = (row ''dry_run'' = IntValue 1),
           jForwardSourceKey = text_option (row ''forward_source_key'')\<rparr>
      | _ \<Rightarrow> None)"

definition destination_row :: "destination \<Rightarrow> (string \<times> sql_value) list" where
  "destination_row d =
     [(''jid'', TextValue (dJid d)),
      (''subject'', TextValue (dSubject d)),
      (''description'', opt_text (dDescription d)),
      (''owner_jid'', opt_text (dOwnerJid d)),
      (''participant_count'', opt_int (dParticipantCount d)),
      (''addressing_mode'', opt_text (dAddressingMode d)),
      (''alias'', opt_text (dAlias d)),
      (''enabled'', flag (dEnabled d)),
      (''can_send'', flag (dCanSend d)),
      (''created_at'', TextValue (dCreatedAt d)),
      (''updated_at'', TextValue (dUpdatedAt d)),
      (''last_refreshed_at'', TextValue (dLastRefreshedAt d))]"

definition toDestination :: "(string \<Rightarrow> sql_value) \<Rightarrow> destination" where
  "toDestination row =
     \<lparr>dJid = text_of (row ''jid''),
      dSubject = text_of (row ''subject''),
      dDescription = text_option (row ''description''),
      dOwnerJid = text_option (row ''owner_jid''),
      dParticipantCount = int_option (row ''participant_count''),
      dAddressingMode = text_option (row ''addressing_mode''),
      dAlias = text_option (row ''alias''),
      dEnabled = (row ''enabled'' = IntValue 1),
      dCanSend = (row ''can_send'' = IntValue 1),
      dCreatedAt = text_of (row ''created_at''),
      dUpdatedAt = text_of (row ''updated_at''),
      dLastRefreshedAt = text_of (row ''last_refreshed_at'')\<rparr>"

definition media_row :: "media_asset \<Rightarrow> (string \<times> sql_value) list" where
  "media_row m =
     [(''hash'', TextValue (maHash m)),
      (''path'', TextValue (maPath m)),
      (''byte_size'', IntValue (maByteSize m)),
      (''mime_type'', opt_text (maMimeType m)),
      (''created_at'', TextValue (maCreatedAt m))]"

definition mapRow :: "(string \<Rightarrow> sql_value) \<Rightarrow> media_asset" where
  "mapRow row =
     \<lparr>maHash = text_of (row ''hash''),
      maPath = text_of (row ''path''),
      maByteSize = int_of_value (row ''byte_size''),
      maMimeType = text_option (row ''mime_type''),
      maCreatedAt = text_of (row ''created_at'')\<rparr>"

definition batch_row :: "message_batch \<Rightarrow> (string \<times> sql_value) list" where
  "batch_row b =
     [(''id'', TextValue (bId b)),
      (''type'', TextValue (show_batch_type (bType b))),
      (''target_count'', IntValue (int (bTargetCount b))),
      (''created_at'', TextValue (bCreatedAt b))]"

definition toBatch :: "(string \<Rightarrow> sql_value) \<Rightarrow> message_batch option" where
  "toBatch row =
     (case read_batch_type (text_of (row ''type'')) of
        None \<Rightarrow> None
      | Some ty \<Rightarrow> Some
          \<lparr>bId = text_of (row ''id''),
           bType = ty,
           bTargetCount = nat_of (row ''target_count''),
           bCreatedAt = text_of (row ''created_at'')\<rparr>)"

definition fetched :: "(string \<times> sql_value) list \<Rightarrow> string \<Rightarrow> sql_value" where
  "fetched row n = (case map_of row n of None \<Rightarrow> NullValue | Some v \<Rightarrow> v)"

section \<open>What a table accepts\<close>

text \<open>A check is passed unless it is false; \<open>NULL\<close> makes it unknown.\<close>

fun passes :: "column_check \<Rightarrow> sql_value \<Rightarrow> bool" where
  "passes k NullValue = True"
| "passes (OneOfText xs) (TextValue t) = (t \<in> set xs)"
| "passes (OneOfInt ns) (IntValue n) = (n \<in> set ns)"
| "passes (AtLeast m) (IntValue n) = (m \<le> n)"
| "passes (MoreThan m) (IntValue n) = (m < n)"
| "passes k v = False"

definition obeys :: "sql_value \<Rightarrow> attribute \<Rightarrow> bool" where
  "obeys v a =
     (case a of
        NotNull \<Rightarrow> v \<noteq> NullValue
      | PrimaryKey \<Rightarrow> v \<noteq> NullValue
      | CheckThat k \<Rightarrow> passes k v
      | _ \<Rightarrow> True)"

fun has_type :: "sql_type \<Rightarrow> sql_value \<Rightarrow> bool" where
  "has_type ty NullValue = True"
| "has_type ty (TextValue t) = (ty = SqlText)"
| "has_type ty (IntValue n) = (ty = SqlInteger)"

definition fits :: "column list \<Rightarrow> (string \<times> sql_value) list \<Rightarrow> bool" where
  "fits columns row \<longleftrightarrow>
     list_all2 (\<lambda>c (n, v). column_name c = n \<and> has_type (column_type c) v \<and> list_all (obeys v) (attributes c))
       columns row"

definition row_accepted :: "catalog \<Rightarrow> string \<Rightarrow> (string \<times> sql_value) list \<Rightarrow> bool" where
  "row_accepted c t row = (case table_of c t of None \<Rightarrow> False | Some e \<Rightarrow> fits (teColumns e) row)"

section \<open>Nothing is lost in a table\<close>

definition job_columns :: "column list" where
  "job_columns =
     (case message_jobs_table of CreateTable t columns constraints \<Rightarrow> columns | _ \<Rightarrow> []) @
     [Column ''batch_id'' SqlText [RefersTo ''message_batches'' ''id'' SetNull],
      Column ''dry_run'' SqlInteger [NotNull, DefaultTo (IntValue 0), CheckThat (OneOfInt [0, 1])],
      Column ''forward_source_key'' SqlText []]"

definition columns_in :: "statement \<Rightarrow> column list" where
  "columns_in st = (case st of CreateTable t columns constraints \<Rightarrow> columns | _ \<Rightarrow> [])"

lemma columns_of_tables:
  "map_option teColumns (table_of current_catalog ''message_jobs'') = Some job_columns"
  "map_option teColumns (table_of current_catalog ''destinations'') = Some (columns_in destinations_table)"
  "map_option teColumns (table_of current_catalog ''media_assets'') = Some (columns_in media_assets_table)"
  "map_option teColumns (table_of current_catalog ''message_batches'') = Some (columns_in (sets_and_batches ! 3))"
  by code_simp+

lemma row_accepted_fits:
  "map_option teColumns (table_of c t) = Some columns \<Longrightarrow> row_accepted c t row = fits columns row"
  by (auto simp: row_accepted_def)

lemma status_listed: "show_status st \<in> {''PENDING'', ''SCHEDULED'', ''PROCESSING'', ''WAITING_RATE_LIMIT'',
    ''RETRY'', ''SENT'', ''FAILED'', ''CANCELLED'', ''REVIEW_REQUIRED'', ''DRY_RUN''}"
  by (cases st) simp_all

lemma payload_listed: "show_payload p \<in> {''text'', ''image'', ''video'', ''document'', ''audio''}"
  by (cases p) simp_all

lemma batch_type_listed: "show_batch_type b \<in> {''sendall'', ''sendmulti'', ''sendset''}"
  by (cases b) simp_all

lemma optional_types [simp]:
  "has_type SqlText (opt_text t)" "has_type SqlInteger (opt_int n)" "has_type SqlInteger (flag b)"
  "flag b \<noteq> NullValue" "passes (OneOfInt [0, 1]) (flag b)"
  by (simp_all add: opt_text_def opt_int_def flag_def split: option.split)

lemma job_row_fits: "0 < jMaxAttempts j \<Longrightarrow> fits job_columns (stored_row j)"
  using status_listed [of "jStatus j"] payload_listed [of "jPayloadType j"]
  by (simp add: fits_def job_columns_def message_jobs_table_def stored_row_def obeys_def del: passes.simps(3))

lemma other_rows_fit:
  "fits (columns_in destinations_table) (destination_row d)"
  "0 \<le> maByteSize m \<Longrightarrow> fits (columns_in media_assets_table) (media_row m)"
  "fits (columns_in (sets_and_batches ! 3)) (batch_row b)"
  using batch_type_listed [of "bType b"]
  by (simp_all add: fits_def columns_in_def destinations_table_def destination_row_def media_assets_table_def
      media_row_def sets_and_batches_def batch_row_def obeys_def del: passes.simps(3))

lemma rows_back:
  "toJob (fetched (stored_row j)) = Some j" "toDestination (fetched (destination_row d)) = d"
  "mapRow (fetched (media_row m)) = m" "toBatch (fetched (batch_row b)) = Some b"
  by (cases j, simp add: toJob_def fetched_def stored_row_def)
    (cases d, simp add: toDestination_def fetched_def destination_row_def,
     cases m, simp add: mapRow_def fetched_def media_row_def,
     cases b, simp add: toBatch_def fetched_def batch_row_def)

text \<open>
  Nothing is lost in a table.  Every job the queue can hold, every destination, media file and
  batch is a row the schema accepts, with the columns in the order of the table, and reading that row
  gives the value back in each of its fields, with the flags the tables keep as numbers.
\<close>

theorem rows_read_back:
  assumes "0 < jMaxAttempts j" and "0 \<le> maByteSize m"
  shows "row_accepted current_catalog ''message_jobs'' (stored_row j) \<and>
      toJob (fetched (stored_row j)) = Some j \<and>
    row_accepted current_catalog ''destinations'' (destination_row d) \<and>
      toDestination (fetched (destination_row d)) = d \<and>
    row_accepted current_catalog ''media_assets'' (media_row m) \<and> mapRow (fetched (media_row m)) = m \<and>
    row_accepted current_catalog ''message_batches'' (batch_row b) \<and> toBatch (fetched (batch_row b)) = Some b"
  using assms
  by (simp only: rows_back row_accepted_fits [OF columns_of_tables(1)] row_accepted_fits [OF columns_of_tables(2)]
      row_accepted_fits [OF columns_of_tables(3)] row_accepted_fits [OF columns_of_tables(4)]
      job_row_fits other_rows_fit simp_thms)

theorem rows_read_back_witness:
  "row_accepted current_catalog ''message_jobs'' (stored_row (dbJobs sample_db ! 0)) \<and>
   toJob (fetched (stored_row (dbJobs sample_db ! 0))) = Some (dbJobs sample_db ! 0)"
proof -
  let ?m = "\<lparr>maHash = ''h'', maPath = ''/m/h'', maByteSize = 3, maMimeType = None, maCreatedAt = ''2026''\<rparr>"
  have "0 < jMaxAttempts (dbJobs sample_db ! 0)" by (simp add: sample_db_def sample_job_def)
  moreover have "0 \<le> maByteSize ?m" by simp
  ultimately show ?thesis using rows_read_back by blast
qed

section \<open>The audit log\<close>

record audit_event =
  evId :: nat
  evType :: string
  evActor :: string
  evEntityType :: "string option"
  evEntityId :: "string option"
  evDetails :: "json option"
  evCreatedAt :: string

text \<open>\<open>JSON.parse\<close> throws on a text that is none.\<close>

definition toEvent :: "(string \<Rightarrow> json option) \<Rightarrow> audit_row \<Rightarrow> error + audit_event" where
  "toEvent parse row =
     (let event = (\<lambda>details. \<lparr>evId = aId row, evType = aEventType row, evActor = aActor row,
            evEntityType = aEntityType row, evEntityId = aEntityId row, evDetails = details,
            evCreatedAt = aCreatedAt row\<rparr>)
      in if truthy (aDetailsJson row)
         then (case parse (or_else (aDetailsJson row) []) of
                 None \<Rightarrow> Inl (PlainError ''Unexpected token in JSON'')
               | Some v \<Rightarrow> Inr (event (Some v)))
         else Inr (event None))"

fun all_Inr :: "('e + 'a) list \<Rightarrow> 'e + 'a list" where
  "all_Inr [] = Inr []"
| "all_Inr (Inl e # rest) = Inl e"
| "all_Inr (Inr x # rest) = (case all_Inr rest of Inl e \<Rightarrow> Inl e | Inr xs \<Rightarrow> Inr (x # xs))"

definition audit_events :: "(string \<Rightarrow> json option) \<Rightarrow> int \<Rightarrow> database \<Rightarrow> error + audit_event list" where
  "audit_events parse limit s = all_Inr (map (toEvent parse) (audit_list limit s))"

text \<open>The newest event is the one recorded last, with the details it was given.\<close>

lemma stringify_nonempty: "stringify v \<noteq> []"
  by (cases v) (simp_all add: quote_def show_int_def)

lemma newest_event:
  assumes "\<And>v. parse (stringify v) = Some v"
  shows "audit_events parse 1 (after (insertAudit event options now) s) =
    Inr [\<lparr>evId = Suc (dbAuditSeq s), evType = event, evActor = or_else (aoActor options) ''system'',
      evEntityType = aoEntityType options, evEntityId = aoEntityId options, evDetails = aoDetails options,
      evCreatedAt = now\<rparr>]"
  using assms stringify_nonempty
  by (cases "aoDetails options")
    (simp_all add: audit_events_def audit_list_def sql_limit_def insertAudit_def after_def toEvent_def
      truthy_def or_else_def)

end
