(* ===== verification/AppContext.thy ===== *)
theory AppContext
  imports Migrations Config
begin

text \<open>
  The life of the database connection: \<open>open\<close>, \<open>close\<close> and \<open>requireConnection\<close> of
  \<open>src/src/db/database.ts\<close>, the application context of \<open>src/src/app-context.ts\<close> and the context of a
  command, \<open>withContext\<close> of \<open>src/src/cli/index.ts\<close>.

  The file system, the opening of the file and the SQL interpreter are parameters.
\<close>

section \<open>The connection\<close>

record 'd handle =
  hdOpen :: bool
  hdPragmas :: "string list"
  hdSchema :: "'d schema"

record 'd open_env =
  oePath :: string
  oeMkdir :: "error option"
  oeOpen :: "error option"
  oeExec :: "string \<Rightarrow> 'd \<Rightarrow> error + 'd"
  oeSha :: "string \<Rightarrow> string"
  oeNow :: string
  oeMigrations :: "migration list"

type_synonym ('d, 'a) handle_io = "('d handle, error, 'a) io"

definition may_fail :: "error option \<Rightarrow> ('s, error, unit) io" where
  "may_fail e = (case e of None \<Rightarrow> ret () | Some x \<Rightarrow> throw x)"

definition pragmas :: "string \<Rightarrow> string list" where
  "pragmas path =
     [''foreign_keys = ON'', ''busy_timeout = 5000''] @
     (if path = '':memory:'' then [] else [''journal_mode = WAL'', ''synchronous = FULL''])"

definition db_open :: "'d open_env \<Rightarrow> ('d, unit) handle_io" where
  "db_open oe =
     bindE (readE hdOpen) (\<lambda>already.
       if already then ret ()
       else
         bindE (if oePath oe = '':memory:'' then ret () else may_fail (oeMkdir oe)) (\<lambda>_.
         bindE (may_fail (oeOpen oe)) (\<lambda>_.
         writeE (\<lambda>h. h\<lparr>hdOpen := True, hdPragmas := pragmas (oePath oe)\<rparr>))))"

definition requireConnection :: "('d, unit) handle_io" where
  "requireConnection =
     bindE (readE hdOpen) (\<lambda>open.
       if open then ret () else throw (PlainError ''Database is not open''))"

definition on_schema :: "('d, 'a) schema_io \<Rightarrow> ('d, 'a) handle_io" where
  "on_schema m = (\<lambda>h. case m (hdSchema h) of (r, s) \<Rightarrow> (r, h\<lparr>hdSchema := s\<rparr>))"

definition db_migrate :: "'d open_env \<Rightarrow> ('d, unit) handle_io" where
  "db_migrate oe =
     bindE requireConnection (\<lambda>_.
     on_schema (migrate (oeExec oe) (oeSha oe) (oeNow oe) (oeMigrations oe)))"

definition db_close :: "'d handle \<Rightarrow> 'd handle" where
  "db_close h = h\<lparr>hdOpen := False, hdPragmas := []\<rparr>"

text \<open>\<open>transaction\<close> and \<open>immediateTransaction\<close> on the connection.\<close>

definition db_transaction :: "('d, 'a) schema_io \<Rightarrow> ('d, 'a) handle_io" where
  "db_transaction operation = bindE requireConnection (\<lambda>_. on_schema (atomically operation))"

section \<open>Contexts\<close>

definition createAppContext :: "'d open_env \<Rightarrow> ('d, unit) handle_io" where
  "createAppContext oe =
     catchE (bindE (db_open oe) (\<lambda>_. db_migrate oe))
       (\<lambda>error. bindE (writeE db_close) (\<lambda>_. throw error))"

definition withContext ::
    "(error + app_config) \<Rightarrow> (app_config \<Rightarrow> error option) \<Rightarrow> (app_config \<Rightarrow> 'd open_env) \<Rightarrow>
     (app_config \<Rightarrow> ('d, 'a) handle_io) \<Rightarrow> ('d, 'a) handle_io" where
  "withContext config directories environment operation =
     (case config of
        Inl e \<Rightarrow> throw e
      | Inr cfg \<Rightarrow>
          bindE (may_fail (directories cfg)) (\<lambda>_.
          bindE (createAppContext (environment cfg)) (\<lambda>_.
          finallyE (operation cfg) db_close)))"

section \<open>What a context is\<close>

lemma run_may_fail:
  "may_fail e s = (case e of None \<Rightarrow> (Inr (), s) | Some x \<Rightarrow> (Inl x, s))"
  by (simp add: may_fail_def split: option.split)

lemma run_db_open:
  "\<not> hdOpen h \<Longrightarrow> db_open oe h = (Inr (), h\<lparr>hdOpen := True, hdPragmas := pragmas (oePath oe)\<rparr>) \<or>
   (\<exists>e. db_open oe h = (Inl e, h))"
  by (auto simp: db_open_def run_bind run_may_fail split: option.split)

lemma run_db_migrate:
  "hdOpen h \<Longrightarrow> db_migrate oe h = on_schema (migrate (oeExec oe) (oeSha oe) (oeNow oe) (oeMigrations oe)) h"
  by (simp add: db_migrate_def requireConnection_def run_bind)

text \<open>
  A context is an open connection with the write-ahead log and an up-to-date schema; where that fails
  the connection is closed and the schema is where the last complete migration left it.
\<close>

lemma createAppContext_open_or_closed:
  assumes "\<not> hdOpen h" and "createAppContext oe h = (r, h')"
  shows "(\<forall>u. r = Inr u \<longrightarrow> hdOpen h' \<and> hdPragmas h' = pragmas (oePath oe) \<and>
      migrate (oeExec oe) (oeSha oe) (oeNow oe) (oeMigrations oe) (hdSchema h) = (Inr (), hdSchema h')) \<and>
    (\<forall>e. r = Inl e \<longrightarrow> \<not> hdOpen h' \<and>
      (hdSchema h' = hdSchema h \<or>
       migrate (oeExec oe) (oeSha oe) (oeNow oe) (oeMigrations oe) (hdSchema h) = (Inl e, hdSchema h')))"
proof -
  obtain q s where m: "migrate (oeExec oe) (oeSha oe) (oeNow oe) (oeMigrations oe) (hdSchema h) = (q, s)"
    by (cases "migrate (oeExec oe) (oeSha oe) (oeNow oe) (oeMigrations oe) (hdSchema h)")
  show ?thesis
    using run_db_open [OF assms(1), of oe] assms(2) m
    by (cases q) (auto simp: createAppContext_def run_bind run_catch run_db_migrate on_schema_def db_close_def)
qed

text \<open>A command leaves no connection open, whatever happens in it.\<close>

lemma context_closes:
  assumes "\<not> hdOpen h"
  shows "\<not> hdOpen (after (withContext config directories environment operation) h)"
proof (cases config)
  case (Inr cfg)
  obtain r h' where c: "createAppContext (environment cfg) h = (r, h')"
    by (cases "createAppContext (environment cfg) h")
  show ?thesis
  proof (cases r)
    case (Inl e)
    with createAppContext_open_or_closed [OF assms c] c Inr assms show ?thesis
      by (auto simp: withContext_def after_def run_bind run_may_fail split: option.split)
  next
    case (Inr u)
    with c \<open>config = Inr cfg\<close> assms show ?thesis
      by (auto simp: withContext_def after_def run_bind run_may_fail run_finally db_close_def split: option.split)
  qed
qed (simp add: withContext_def after_def assms)

end
