(* ===== verification/CheckCommand.thy ===== *)
theory CheckCommand
  imports Health ProcessLock
begin

text \<open>
  The system check, \<open>src/src/cli/check-command.ts\<close>: the runtime, the directories, the daemon lock,
  the database with its authentication, connection, uncertain and failed jobs and staged media, as
  a list of items, their summary, and the status it amounts to.

  The runtime, the file system, the process table and the outcome of opening the database are
  inputs, as is the text of an error.
\<close>

section \<open>Reports\<close>

datatype check_severity = CheckPass | CheckInfo | CheckWarning | CheckFail

record check_item =
  ciId :: string
  ciSeverity :: check_severity
  ciTitle :: string
  ciDetail :: string

datatype check_status = Healthy | Warned | Unhealthy

record check_report =
  crStatus :: check_status
  crHealthy :: bool
  crCheckedAt :: string
  crChecks :: "check_item list"
  crPassed :: nat
  crInfo :: nat
  crWarnings :: nat
  crFailed :: nat

record check_env =
  ceNodeMajor :: int
  ceNodeVersion :: string
  ceAccess :: "string \<Rightarrow> bool"
  ceExists :: "string \<Rightarrow> bool"
  ceDirname :: "string \<Rightarrow> string"
  ceLock :: lock_world
  ceDatabase :: "error + database"
  ceJournal :: string
  ceParse :: "string \<Rightarrow> json option"
  ceErrorText :: "error \<Rightarrow> string"
  ceNow :: string

definition item :: "string \<Rightarrow> check_severity \<Rightarrow> string \<Rightarrow> string \<Rightarrow> check_item" where
  "item i sev title detail =
     \<lparr>ciId = i, ciSeverity = sev, ciTitle = title, ciDetail = detail\<rparr>"

definition severity_count :: "check_severity \<Rightarrow> check_item list \<Rightarrow> nat" where
  "severity_count sev items = length (filter (\<lambda>i. ciSeverity i = sev) items)"

definition buildReport :: "check_item list \<Rightarrow> string \<Rightarrow> check_report" where
  "buildReport items now =
     (let status =
        (if 0 < severity_count CheckFail items then Unhealthy
         else if 0 < severity_count CheckWarning items then Warned else Healthy)
      in \<lparr>crStatus = status, crHealthy = (status \<noteq> Unhealthy), crCheckedAt = now, crChecks = items,
          crPassed = severity_count CheckPass items, crInfo = severity_count CheckInfo items,
          crWarnings = severity_count CheckWarning items, crFailed = severity_count CheckFail items\<rparr>)"

definition failedCheckReport :: "check_env \<Rightarrow> error \<Rightarrow> check_report" where
  "failedCheckReport ce e =
     buildReport [item ''configuration'' CheckFail ''Configuration'' (ceErrorText ce e)] (ceNow ce)"

section \<open>The checks\<close>

definition node_check :: "check_env \<Rightarrow> check_item" where
  "node_check ce =
     (if 20 \<le> ceNodeMajor ce
      then item ''node'' CheckPass ''Node.js version'' (ceNodeVersion ce @ '' is supported.'')
      else item ''node'' CheckFail ''Node.js version''
             (ceNodeVersion ce @ '' is too old; Node.js 20+ is required.''))"

text \<open>A JavaScript set of strings keeps the first of equal ones.\<close>

definition in_order :: "string list \<Rightarrow> string list" where
  "in_order xs = rev (remdups (rev xs))"

definition check_directories :: "check_env \<Rightarrow> app_config \<Rightarrow> string list" where
  "check_directories ce cfg =
     in_order [cfgStateDir cfg, cfgMediaDir cfg, ceDirname ce (cfgDatabasePath cfg),
       ceDirname ce (cfgLockPath cfg)]"

definition directory_check :: "check_env \<Rightarrow> string \<Rightarrow> check_item" where
  "directory_check ce dir =
     (if ceAccess ce dir
      then item (''directory:'' @ dir) CheckPass ''Path access'' (dir @ '' is readable and writable.'')
      else item (''directory:'' @ dir) CheckFail ''Path access''
             (dir @ '' does not exist or is not readable and writable.''))"

definition lock_check :: "check_env \<Rightarrow> app_config \<Rightarrow> check_item" where
  "lock_check ce cfg =
     (if ceExists ce (cfgLockPath cfg) then
        (case read_lock (lwFile (ceLock ce)) of
           Some (pid, startedAt) \<Rightarrow>
             if isProcessAlive (ceLock ce) pid
             then item ''daemon-lock'' CheckPass ''Daemon''
                    (''Process PID '' @ show_int pid @ '' has been active since '' @ startedAt @ ''.'')
             else item ''daemon-lock'' CheckWarning ''Daemon''
                    ''The lock file exists, but no active process could be confirmed; the lock may be stale.''
         | None \<Rightarrow> item ''daemon-lock'' CheckWarning ''Daemon''
                    ''The lock file exists, but no active process could be confirmed; the lock may be stale.'')
      else item ''daemon-lock'' CheckInfo ''Daemon''
             ''The daemon is not running or has no active lock.'')"

definition wal_check :: "string \<Rightarrow> check_item" where
  "wal_check journal =
     (if js_lower journal = ''wal''
      then item ''wal'' CheckPass ''WAL mode'' ''SQLite is using WAL mode.''
      else item ''wal'' CheckWarning ''WAL mode''
             (''The current journal mode is '' @ journal @ ''; WAL is recommended.''))"

definition auth_check :: "app_config \<Rightarrow> health_report \<Rightarrow> check_item" where
  "auth_check cfg h =
     (if hrAuthState h = AuthAvailable
      then item ''auth'' CheckPass ''WhatsApp authentication'' ''Local credentials are available.''
      else if cfgDryRun cfg
      then item ''auth'' CheckInfo ''WhatsApp authentication''
             ''Authentication is not required in dry-run mode.''
      else item ''auth'' CheckFail ''WhatsApp authentication''
             ''Authentication is required; run `wts auth login`.'')"

definition connection_check :: "app_config \<Rightarrow> health_report \<Rightarrow> check_item" where
  "connection_check cfg h =
     item ''connection''
       (if hrConnectionState h \<in> {''AUTH_REQUIRED'', ''LOGGED_OUT'', ''FATAL''} then CheckFail
        else if hrConnectionState h = ''CONNECTED'' \<or> cfgDryRun cfg then CheckPass else CheckWarning)
       ''Connection'' (''Connection state: '' @ hrConnectionState h)"

definition review_check :: "health_report \<Rightarrow> check_item" where
  "review_check h =
     (if 0 < hrReviewRequired h
      then item ''review-required'' CheckWarning ''Review-required queue''
             (show_nat (hrReviewRequired h) @
              '' job(s) are in REVIEW_REQUIRED; check WhatsApp before retrying.'')
      else item ''review-required'' CheckPass ''Review-required queue'' ''No uncertain jobs were found.'')"

definition failed_check :: "health_report \<Rightarrow> check_item" where
  "failed_check h =
     (if 0 < hrFailed h
      then item ''failed-jobs'' CheckWarning ''Failed jobs'' (show_nat (hrFailed h) @ '' job(s) are in FAILED.'')
      else item ''failed-jobs'' CheckPass ''Failed jobs'' ''No failed jobs were found.'')"

definition checked_jobs :: "database \<Rightarrow> queue_job list" where
  "checked_jobs s = list_jobs [PENDING, SCHEDULED, PROCESSING, WAITING_RATE_LIMIT, RETRY] 10000 s"

definition lacks_media :: "check_env \<Rightarrow> queue_job \<Rightarrow> bool" where
  "lacks_media ce j \<longleftrightarrow> (case jMediaPath j of None \<Rightarrow> False | Some p \<Rightarrow> p \<noteq> [] \<and> \<not> ceExists ce p)"

definition media_check :: "check_env \<Rightarrow> database \<Rightarrow> check_item" where
  "media_check ce s =
     (let missing = filter (lacks_media ce) (checked_jobs s) in
      if missing \<noteq> []
      then item ''media'' CheckFail ''Queued media''
             (show_nat (length missing) @ '' active job(s) are missing their staged files.'')
      else item ''media'' CheckPass ''Queued media''
             (''No missing media files were found among '' @ show_nat (length (checked_jobs s)) @
              '' active job(s).''))"

definition queue_check :: "health_report \<Rightarrow> check_item" where
  "queue_check h =
     item ''queue-summary'' CheckInfo ''Queue summary''
       (''worker='' @ hrWorkerState h @ '', oldestPending='' @ or_else (hrOldestPending h) ''none'' @
        '', lastSend='' @ or_else (hrLastSuccessfulSend h) ''none'')"

definition database_checks :: "check_env \<Rightarrow> app_config \<Rightarrow> check_item list" where
  "database_checks ce cfg =
     (case ceDatabase ce of
        Inl e \<Rightarrow> [item ''database'' CheckFail ''SQLite'' (ceErrorText ce e)]
      | Inr s \<Rightarrow>
          (let h = health_of (ceParse ce) (ceJournal ce) cfg s in
           [if hrDatabaseReachable h
            then item ''database'' CheckPass ''SQLite''
                   (''The database is reachable; journal='' @ hrJournalMode h @ ''.'')
            else item ''database'' CheckFail ''SQLite'' ''The database is not reachable.'',
            wal_check (hrJournalMode h), auth_check cfg h, connection_check cfg h, review_check h,
            failed_check h, media_check ce s, queue_check h]))"

definition runSystemCheck :: "check_env \<Rightarrow> app_config \<Rightarrow> check_report" where
  "runSystemCheck ce cfg =
     buildReport
       (node_check ce # map (directory_check ce) (check_directories ce cfg) @ [lock_check ce cfg] @
        database_checks ce cfg) (ceNow ce)"

text \<open>
  The printed report: its heading, a line for every item, and the summary.  The dash and the marks are
  the UTF-8 bytes of the source's characters.
\<close>

definition severity_symbol :: "check_severity \<Rightarrow> string" where
  "severity_symbol sev =
     (case sev of
        CheckPass \<Rightarrow> [CHR 0xE2, CHR 0x9C, CHR 0x93]
      | CheckInfo \<Rightarrow> [CHR 0xE2, CHR 0x80, CHR 0xA2]
      | CheckWarning \<Rightarrow> ''!''
      | CheckFail \<Rightarrow> [CHR 0xE2, CHR 0x9C, CHR 0x97])"

definition long_dash :: string where
  "long_dash = [CHR 0xE2, CHR 0x80, CHR 0x94]"

definition check_heading :: "check_status \<Rightarrow> string" where
  "check_heading st =
     (case st of
        Healthy \<Rightarrow> ''Healthy '' @ long_dash @ '' no operational issues found''
      | Warned \<Rightarrow> ''Operational with warnings '' @ long_dash @ '' review the items below''
      | Unhealthy \<Rightarrow> ''Unhealthy '' @ long_dash @ '' at least one serious issue was found'')"

definition formatCheckReport :: "check_report \<Rightarrow> string" where
  "formatCheckReport r =
     join_with newline
       ([newline @ ''Check result: '' @ check_heading (crStatus r) @ newline] @
        map (\<lambda>i. severity_symbol (ciSeverity i) @ '' '' @ ciTitle i @ '': '' @ ciDetail i) (crChecks r) @
        [newline @ ''Summary: '' @ show_nat (crPassed r) @ '' passed, '' @ show_nat (crInfo r) @ '' info, '' @
         show_nat (crWarnings r) @ '' warning(s), '' @ show_nat (crFailed r) @ '' failed''])"

section \<open>What the report says\<close>

lemma in_order_same [simp]: "set (in_order xs) = set xs" "distinct (in_order xs)"
  by (simp_all add: in_order_def)

lemma severity_count_zero: "severity_count sev items = 0 \<longleftrightarrow> (\<forall>i \<in> set items. ciSeverity i \<noteq> sev)"
  by (simp add: severity_count_def filter_empty_conv)

lemma severity_counts_add_up:
  "severity_count CheckPass items + severity_count CheckInfo items + severity_count CheckWarning items +
    severity_count CheckFail items = length items"
  by (induction items) (auto simp: severity_count_def intro: check_severity.exhaust)

lemma item_fields [simp]:
  "ciSeverity (item i sev t d) = sev" "ciId (item i sev t d) = i"
  by (simp_all add: item_def)

text \<open>When an item is a failure.\<close>

lemma severity_fail [simp]:
  "ciSeverity (node_check ce) = CheckFail \<longleftrightarrow> \<not> 20 \<le> ceNodeMajor ce"
  "ciSeverity (directory_check ce d) = CheckFail \<longleftrightarrow> \<not> ceAccess ce d"
  "ciSeverity (lock_check ce cfg) \<noteq> CheckFail"
  "ciSeverity (wal_check journal) \<noteq> CheckFail"
  "ciSeverity (auth_check cfg h) = CheckFail \<longleftrightarrow> hrAuthState h \<noteq> AuthAvailable \<and> \<not> cfgDryRun cfg"
  "ciSeverity (connection_check cfg h) = CheckFail \<longleftrightarrow>
    hrConnectionState h \<in> {''AUTH_REQUIRED'', ''LOGGED_OUT'', ''FATAL''}"
  "ciSeverity (review_check h) \<noteq> CheckFail"
  "ciSeverity (failed_check h) \<noteq> CheckFail"
  "ciSeverity (media_check ce s) = CheckFail \<longleftrightarrow> (\<exists>j \<in> set (checked_jobs s). lacks_media ce j)"
  "ciSeverity (queue_check h) \<noteq> CheckFail"
  by (simp_all add: node_check_def directory_check_def lock_check_def wal_check_def auth_check_def
      connection_check_def review_check_def failed_check_def media_check_def queue_check_def Let_def
      filter_empty_conv split: option.split)

lemma fails_iff:
  "crFailed (runSystemCheck ce cfg) = 0 \<longleftrightarrow>
    20 \<le> ceNodeMajor ce \<and> (\<forall>d \<in> set (check_directories ce cfg). ceAccess ce d) \<and>
    (\<forall>i \<in> set (database_checks ce cfg). ciSeverity i \<noteq> CheckFail)"
  by (simp add: runSystemCheck_def buildReport_def Let_def severity_count_zero ball_Un)

lemma healthy_iff:
  "hrHealthy (health_of p journal cfg s) \<longleftrightarrow>
    \<not> (hrAuthState (health_of p journal cfg s) \<noteq> AuthAvailable \<and> \<not> cfgDryRun cfg) \<and>
    hrConnectionState (health_of p journal cfg s) \<notin> {''AUTH_REQUIRED'', ''LOGGED_OUT'', ''FATAL''}"
  "hrDatabaseReachable (health_of p journal cfg s)"
  by (auto simp: health_of_def Let_def)

lemma database_fails_iff:
  "(\<forall>i \<in> set (database_checks ce cfg). ciSeverity i \<noteq> CheckFail) \<longleftrightarrow>
    (\<exists>s. ceDatabase ce = Inr s \<and> hrHealthy (health_of (ceParse ce) (ceJournal ce) cfg s) \<and>
      (\<forall>j \<in> set (checked_jobs s). \<not> lacks_media ce j))"
proof (cases "ceDatabase ce")
  case (Inr s)
  let ?h = "health_of (ceParse ce) (ceJournal ce) cfg s"
  have "(\<forall>i \<in> set (database_checks ce cfg). ciSeverity i \<noteq> CheckFail) \<longleftrightarrow>
    ciSeverity (auth_check cfg ?h) \<noteq> CheckFail \<and> ciSeverity (connection_check cfg ?h) \<noteq> CheckFail \<and>
    ciSeverity (media_check ce s) \<noteq> CheckFail"
    by (simp add: database_checks_def Inr Let_def healthy_iff(2) del: severity_fail(5,6,9))
  then show ?thesis by (simp add: Inr healthy_iff(1))
qed (simp add: database_checks_def)

text \<open>
  The check tells the truth.  Its report is healthy exactly when the runtime is recent enough,
  every directory of the configuration is accessible, the database opens and is healthy by the
  health report, and no job among the 10000 newest active ones lacks its staged media; and the four
  numbers of the summary account for every item.
\<close>

theorem check_report_true:
  "(crHealthy (runSystemCheck ce cfg) \<longleftrightarrow>
     20 \<le> ceNodeMajor ce \<and>
     {cfgStateDir cfg, cfgMediaDir cfg, ceDirname ce (cfgDatabasePath cfg), ceDirname ce (cfgLockPath cfg)}
       \<subseteq> {d. ceAccess ce d} \<and>
     (\<exists>s. ceDatabase ce = Inr s \<and> hrHealthy (health_of (ceParse ce) (ceJournal ce) cfg s) \<and>
        set (checked_jobs s) \<inter> {j. lacks_media ce j} = {})) \<and>
   crPassed (runSystemCheck ce cfg) + crInfo (runSystemCheck ce cfg) + crWarnings (runSystemCheck ce cfg) +
     crFailed (runSystemCheck ce cfg) = length (crChecks (runSystemCheck ce cfg))"
proof -
  have healthy: "crHealthy (runSystemCheck ce cfg) \<longleftrightarrow> crFailed (runSystemCheck ce cfg) = 0"
    by (simp add: runSystemCheck_def buildReport_def Let_def)
  have dirs: "(\<forall>d \<in> set (check_directories ce cfg). ceAccess ce d) \<longleftrightarrow>
    {cfgStateDir cfg, cfgMediaDir cfg, ceDirname ce (cfgDatabasePath cfg), ceDirname ce (cfgLockPath cfg)}
       \<subseteq> {d. ceAccess ce d}"
    by (simp add: check_directories_def)
  have media: "(\<forall>j \<in> set (checked_jobs s). \<not> lacks_media ce j) \<longleftrightarrow>
      set (checked_jobs s) \<inter> {j. lacks_media ce j} = {}" for s
    by blast
  have "crPassed (runSystemCheck ce cfg) + crInfo (runSystemCheck ce cfg) +
      crWarnings (runSystemCheck ce cfg) + crFailed (runSystemCheck ce cfg) = length (crChecks (runSystemCheck ce cfg))"
    by (simp add: runSystemCheck_def buildReport_def Let_def severity_counts_add_up)
  then show ?thesis
    unfolding healthy fails_iff database_fails_iff dirs media by (rule conjI [OF refl])
qed

text \<open>The daemon's line: a pass exactly when the lock names a live process.\<close>

lemma lock_check_pass:
  "ciSeverity (lock_check ce cfg) = CheckPass \<longleftrightarrow>
    ceExists ce (cfgLockPath cfg) \<and>
    (\<exists>pid t. read_lock (lwFile (ceLock ce)) = Some (pid, t) \<and> isProcessAlive (ceLock ce) pid)"
  by (auto simp: lock_check_def split: option.split)

end
