(* ===== verification/UpdateCommand.thy ===== *)
theory UpdateCommand
  imports Json Domain
begin

text \<open>
  The self-update, \<open>src/src/cli/update-command.ts\<close>: the checks before it, and the commands it runs one
  after the other on the source checkout.

  What a command answers may depend on every command run before it, so the runner is a function of
  the list of those.  The files of the checkout, the path resolution, the JSON reader and the texts of
  exceptions are parameters as well.  The state is what was run and what was printed.
\<close>

section \<open>The host\<close>

record command_call =
  ccCommand :: string
  ccArgs :: "string list"
  ccDirectory :: string
  ccCapture :: bool

record command_result =
  rsStatus :: "int option"
  rsStdout :: string
  rsStderr :: string
  rsError :: "string option"

record update_host =
  uhPlatform :: string
  uhUid :: "int option"
  uhFile :: "string \<Rightarrow> string option"
  uhSourceEnv :: "string option"
  uhResolve :: "string list \<Rightarrow> string"
  uhJson :: "string \<Rightarrow> error + json"
  uhText :: "json \<Rightarrow> string"
  uhRunner :: "command_call list \<Rightarrow> command_call \<Rightarrow> command_result"

record update_options =
  uoSourceDir :: "string option"
  uoSkipPull :: bool
  uoSourceRecord :: "string option"

record update_state =
  usCalls :: "command_call list"
  usWritten :: "string list"

type_synonym 'a update_io = "(update_state, error, 'a) io"

definition print_line :: "string \<Rightarrow> unit update_io" where
  "print_line m = writeE (\<lambda>u. u\<lparr>usWritten := usWritten u @ [m]\<rparr>)"

definition call_runner :: "update_host \<Rightarrow> command_call \<Rightarrow> command_result update_io" where
  "call_runner h c = (\<lambda>u. (Inr (uhRunner h (usCalls u) c), u\<lparr>usCalls := usCalls u @ [c]\<rparr>))"

section \<open>The checks\<close>

definition default_source_record :: string where
  "default_source_record = ''/etc/sajadbot-whatsapp/source-path''"

definition recordedSource :: "update_host \<Rightarrow> string \<Rightarrow> string option" where
  "recordedSource h path =
     (case uhFile h path of
        None \<Rightarrow> None
      | Some t \<Rightarrow> if js_trim t = [] then None else Some (js_trim t))"

text \<open>The \<open>name\<close> of the manifest: reading a property of \<open>null\<close> throws.\<close>

definition manifest_name :: "json \<Rightarrow> error + json option" where
  "manifest_name manifest =
     (case manifest of
        JNull \<Rightarrow> Inl (PlainError ''Cannot read properties of null (reading 'name')'')
      | JObj members \<Rightarrow> Inr (map_of (rev members) ''name'')
      | _ \<Rightarrow> Inr None)"

definition validateSource :: "update_host \<Rightarrow> string \<Rightarrow> unit update_io" where
  "validateSource h sourceDir =
     (case (uhFile h (uhResolve h [sourceDir, ''package.json'']),
            uhFile h (uhResolve h [sourceDir, ''scripts'', ''upgrade.sh''])) of
        (Some package, Some _) \<Rightarrow>
          (case uhJson h package of
             Inl e \<Rightarrow> throw e
           | Inr manifest \<Rightarrow>
               (case manifest_name manifest of
                  Inl e \<Rightarrow> throw e
                | Inr name \<Rightarrow>
                    if name = Some (JStr ''sajadbot-whatsapp'') then ret ()
                    else throw (PlainError (''Unexpected package in source checkout: '' @
                      (case name of None \<Rightarrow> ''unknown'' | Some JNull \<Rightarrow> ''unknown'' | Some v \<Rightarrow> uhText h v)))))
      | _ \<Rightarrow> throw (PlainError (''Invalid source checkout: '' @ sourceDir @
               ''. Expected package.json and scripts/upgrade.sh.'')))"

section \<open>The steps\<close>

definition exit_status :: "int option \<Rightarrow> string" where
  "exit_status st = (case st of None \<Rightarrow> ''unknown'' | Some n \<Rightarrow> show_int n)"

definition succeeded :: "command_result \<Rightarrow> bool" where
  "succeeded r \<longleftrightarrow> rsError r = None \<and> rsStatus r = Some 0"

definition runStep ::
    "update_host \<Rightarrow> string \<Rightarrow> string \<times> string \<times> string list \<Rightarrow> unit update_io" where
  "runStep h sourceDir = (\<lambda>(label, command, args).
     bindE (print_line (newline @ ''==> '' @ label)) (\<lambda>_.
     bindE (call_runner h
         \<lparr>ccCommand = command, ccArgs = args, ccDirectory = sourceDir, ccCapture = False\<rparr>) (\<lambda>result.
       if succeeded result then ret ()
       else throw (PlainError (label @ '' failed'' @
         (case rsError result of
            Some m \<Rightarrow> '': '' @ m
          | None \<Rightarrow> '' with exit code '' @ exit_status (rsStatus result)))))))"

definition status_call :: "string \<Rightarrow> command_call" where
  "status_call sourceDir =
     \<lparr>ccCommand = ''git'', ccArgs = [''status'', ''--porcelain''], ccDirectory = sourceDir,
      ccCapture = True\<rparr>"

definition pull_step :: "string \<times> string \<times> string list" where
  "pull_step = (''Pulling the latest reviewed commit'', ''git'', [''pull'', ''--ff-only''])"

definition pull_source :: "update_host \<Rightarrow> string \<Rightarrow> unit update_io" where
  "pull_source h sourceDir =
     bindE (call_runner h (status_call sourceDir)) (\<lambda>status.
       if \<not> succeeded status
       then throw (PlainError (''Unable to inspect the source checkout: '' @
              (if js_trim (rsStderr status) \<noteq> [] then js_trim (rsStderr status)
               else case rsError status of
                      None \<Rightarrow> ''git status failed''
                    | Some m \<Rightarrow> if m = [] then ''git status failed'' else m)))
       else if js_trim (rsStdout status) \<noteq> []
       then throw (PlainError (''The source checkout has local changes. Commit, stash, or remove '' @
              ''them before running wts update.''))
       else runStep h sourceDir pull_step)"

definition deploy_step :: "update_host \<Rightarrow> string \<Rightarrow> string \<times> string \<times> string list" where
  "deploy_step h sourceDir =
     (''Installing the update and restarting the service'', ''bash'',
      [uhResolve h [sourceDir, ''scripts'', ''upgrade.sh'']])"

definition build_steps :: "(string \<times> string \<times> string list) list" where
  "build_steps =
     [(''Installing exact dependencies'', ''npm'', [''ci'']),
      (''Running typecheck'', ''npm'', [''run'', ''typecheck'']),
      (''Running lint'', ''npm'', [''run'', ''lint'']),
      (''Running tests'', ''npm'', [''test'']),
      (''Building production files'', ''npm'', [''run'', ''build''])]"

definition update_source :: "update_host \<Rightarrow> update_options \<Rightarrow> string option" where
  "update_source h opts =
     (case uoSourceDir opts of
        Some d \<Rightarrow> Some d
      | None \<Rightarrow>
          (case uhSourceEnv h of
             Some d \<Rightarrow> Some d
           | None \<Rightarrow> recordedSource h
               (case uoSourceRecord opts of None \<Rightarrow> default_source_record | Some p \<Rightarrow> p)))"

definition runUpdate :: "update_host \<Rightarrow> update_options \<Rightarrow> string update_io" where
  "runUpdate h opts =
     (if uhPlatform h \<noteq> ''linux''
      then throw (PlainError ''wts update is supported only on Linux system installations.'')
      else if uhUid h \<noteq> Some 0
      then throw (PlainError ''Run the update as root: sudo wts update'')
      else
        let configuredSource = (case update_source h opts of None \<Rightarrow> [] | Some d \<Rightarrow> d) in
        if configuredSource = []
        then throw (PlainError (''No source checkout is configured. Run: sudo wts update --source '' @
               ''/path/to/whatsappBot''))
        else
          let sourceDir = uhResolve h [configuredSource] in
          bindE (validateSource h sourceDir) (\<lambda>_.
          bindE (if uoSkipPull opts
                 then print_line (newline @ ''==> Skipping git pull; deploying the current checkout'')
                 else pull_source h sourceDir) (\<lambda>_.
          bindE (forE (build_steps @ [deploy_step h sourceDir]) (runStep h sourceDir)) (\<lambda>_.
          bindE (print_line (newline @ ''Update completed successfully.'')) (\<lambda>_.
          ret sourceDir)))))"

section \<open>Nothing is deployed that has not passed\<close>

definition step_call :: "string \<Rightarrow> string \<times> string \<times> string list \<Rightarrow> command_call" where
  "step_call sourceDir = (\<lambda>(label, command, args).
     \<lparr>ccCommand = command, ccArgs = args, ccDirectory = sourceDir, ccCapture = False\<rparr>)"

text \<open>The commands of a complete update, in their order.\<close>

definition update_plan :: "update_host \<Rightarrow> update_options \<Rightarrow> string \<Rightarrow> command_call list" where
  "update_plan h opts d =
     (if uoSkipPull opts then [] else [status_call d, step_call d pull_step]) @
     map (step_call d) (build_steps @ [deploy_step h d])"

text \<open>The answer to the \<open>i\<close>-th command of a run.\<close>

definition answer :: "update_host \<Rightarrow> command_call list \<Rightarrow> nat \<Rightarrow> command_result" where
  "answer h calls i = uhRunner h (take i calls) (calls ! i)"

text \<open>
  What every phase does: it appends an initial part of its commands, all of them when it does not
  throw; the commands before the last one succeeded, and so did the last one unless it throws.
\<close>

definition phase_at ::
    "update_host \<Rightarrow> command_call list \<Rightarrow> update_state \<Rightarrow> bool \<Rightarrow> update_state \<Rightarrow> nat \<Rightarrow> bool" where
  "phase_at h plan u failed v n \<longleftrightarrow>
     usCalls v = usCalls u @ take n plan \<and> n \<le> length plan \<and> (\<not> failed \<longrightarrow> n = length plan) \<and>
     (\<forall>i < n. (Suc i < n \<or> \<not> failed) \<longrightarrow> succeeded (answer h (usCalls v) (length (usCalls u) + i)))"

definition phase :: "update_host \<Rightarrow> command_call list \<Rightarrow> 'a update_io \<Rightarrow> bool" where
  "phase h plan m \<longleftrightarrow> (\<forall>u. \<exists>n. phase_at h plan u (isl (fst (m u))) (after m u) n)"

lemma phase_atD:
  assumes "phase_at h plan u failed v n"
  shows "usCalls v = usCalls u @ take n plan" "n \<le> length plan" "\<not> failed \<Longrightarrow> n = length plan"
    "i < n \<Longrightarrow> Suc i < n \<or> \<not> failed \<Longrightarrow> succeeded (answer h (usCalls v) (length (usCalls u) + i))"
  using assms unfolding phase_at_def by blast+

lemma phaseI_result: "(\<And>u. \<exists>n. phase_at h plan u (isl (fst (m u))) (after m u) n) \<Longrightarrow> phase h plan m"
  by (simp add: phase_def)

lemma phaseE:
  assumes "phase h plan m" and "m u = (r, v)"
  obtains n where "phase_at h plan u (isl r) v n"
  using assms by (metis after_def fst_conv phase_def snd_conv)

lemma phase_silent: "(\<And>u. usCalls (after m u) = usCalls u) \<Longrightarrow> phase h [] m"
  by (simp add: phase_def phase_at_def)

lemma answer_append [simp]: "i < length calls \<Longrightarrow> answer h (calls @ rest) i = answer h calls i"
  by (simp add: answer_def nth_append)

lemma phase_at_append:
  assumes n: "phase_at h p u False t n" and k: "phase_at h q t failed v k"
  shows "phase_at h (p @ q) u failed v (length p + k)"
proof -
  have t: "usCalls t = usCalls u @ p" and v: "usCalls v = usCalls t @ take k q"
    using n k by (auto simp: phase_at_def)
  have "succeeded (answer h (usCalls v) (length (usCalls u) + i))"
    if i: "i < length p + k" "Suc i < length p + k \<or> \<not> failed" for i
  proof (cases "i < length p")
    case True
    then have "answer h (usCalls v) (length (usCalls u) + i) = answer h (usCalls t) (length (usCalls u) + i)"
      unfolding v by (intro answer_append) (simp add: t)
    moreover have "n = length p" using n by (simp add: phase_at_def)
    moreover have "succeeded (answer h (usCalls t) (length (usCalls u) + i))"
      using phase_atD(4) [OF n] True \<open>n = length p\<close> by blast
    ultimately show ?thesis by metis
  next
    case False
    have "i - length p < k" "Suc (i - length p) < k \<or> \<not> failed" using i False by auto
    from phase_atD(4) [OF k this]
    have "succeeded (answer h (usCalls v) (length (usCalls t) + (i - length p)))" .
    with False show ?thesis by (simp add: t)
  qed
  with k show ?thesis by (simp add: phase_at_def t)
qed

lemma phase_at_longer: "phase_at h p u True t n \<Longrightarrow> phase_at h (p @ q) u True t n"
  by (auto simp: phase_at_def)

lemma phase_bind:
  assumes m: "phase h p m" and f: "\<And>x. phase h q (f x)"
  shows "phase h (p @ q) (bindE m f)"
proof (rule phaseI_result)
  fix u
  obtain r t where mu: "m u = (r, t)" by (cases "m u")
  obtain n where n: "phase_at h p u (isl r) t n" using phaseE [OF m mu] .
  show "\<exists>n. phase_at h (p @ q) u (isl (fst (bindE m f u))) (after (bindE m f) u) n"
  proof (cases r)
    case (Inl e)
    with n mu show ?thesis by (auto simp: run_bind after_def intro: phase_at_longer)
  next
    case (Inr x)
    obtain r' v where fx: "f x t = (r', v)" by (cases "f x t")
    obtain k where "phase_at h q t (isl r') v k" using phaseE [OF f fx] .
    then have "phase_at h (p @ q) u (isl r') v (length p + k)"
      using n Inr by (intro phase_at_append) simp_all
    then show ?thesis using mu Inr fx by (auto simp: run_bind after_def)
  qed
qed

lemma phase_step: "phase h [step_call d st] (runStep h d st)"
proof (rule phaseI_result)
  fix u
  obtain l c as where st: "st = (l, c, as)" by (cases st)
  show "\<exists>n. phase_at h [step_call d st] u (isl (fst (runStep h d st u))) (after (runStep h d st) u) n"
    by (rule exI [of _ 1])
      (simp add: st phase_at_def runStep_def step_call_def print_line_def call_runner_def after_def
        run_bind answer_def)
qed

lemma phase_steps: "phase h (map (step_call d) steps) (forE steps (runStep h d))"
proof (induction steps)
  case Nil
  show ?case by (simp add: phase_silent after_def)
next
  case (Cons st steps)
  have "phase h ([step_call d st] @ (map (step_call d) steps @ []))
      (bindE (runStep h d st) (\<lambda>y. bindE (forE steps (runStep h d)) (\<lambda>ys. ret (y # ys))))"
    by (intro phase_bind phase_step Cons.IH phase_silent) (simp add: after_def)
  then show ?case by simp
qed

text \<open>The inspection of the checkout passes only when it has no local changes.\<close>

definition clean :: "command_result \<Rightarrow> bool" where
  "clean r \<longleftrightarrow> succeeded r \<and> js_trim (rsStdout r) = []"

definition inspected :: "update_state \<Rightarrow> string \<Rightarrow> update_state" where
  "inspected u d = u\<lparr>usCalls := usCalls u @ [status_call d]\<rparr>"

lemma pull_source_cases:
  "clean (uhRunner h (usCalls u) (status_call d)) \<Longrightarrow>
     pull_source h d u = runStep h d pull_step (inspected u d)"
  "\<not> clean (uhRunner h (usCalls u) (status_call d)) \<Longrightarrow> \<exists>e. pull_source h d u = (Inl e, inspected u d)"
  by (auto simp: pull_source_def call_runner_def run_bind clean_def inspected_def)

lemma phase_pull: "phase h [status_call d, step_call d pull_step] (pull_source h d)"
proof (rule phaseI_result)
  fix u :: update_state
  let ?r = "uhRunner h (usCalls u) (status_call d)"
  have one: "phase_at h [status_call d] u failed (inspected u d) 1" if "clean ?r \<or> failed" for failed
    using that by (auto simp: phase_at_def inspected_def answer_def clean_def)
  show "\<exists>n. phase_at h [status_call d, step_call d pull_step] u (isl (fst (pull_source h d u)))
      (after (pull_source h d) u) n"
  proof (cases "clean ?r")
    case True
    obtain r v where rv: "runStep h d pull_step (inspected u d) = (r, v)"
      by (cases "runStep h d pull_step (inspected u d)")
    obtain k where "phase_at h [step_call d pull_step] (inspected u d) (isl r) v k"
      using phaseE [OF phase_step rv] .
    from phase_at_append [OF one this] True rv pull_source_cases(1) [OF True] show ?thesis
      by (auto simp: after_def)
  next
    case False
    then obtain e where e: "pull_source h d u = (Inl e, inspected u d)" using pull_source_cases(2) by blast
    from phase_at_longer [OF one [of True], of "[step_call d pull_step]"] e show ?thesis
      by (auto simp: after_def)
  qed
qed

text \<open>The checks run no command.\<close>

lemma validate_silent: "after (validateSource h d) u = u"
  by (simp add: validateSource_def after_def split: option.split sum.split)

lemma phase_validate: "phase h [] (validateSource h d)"
  by (rule phase_silent) (simp add: validate_silent)

definition pull_phase :: "update_host \<Rightarrow> update_options \<Rightarrow> string \<Rightarrow> unit update_io" where
  "pull_phase h opts d =
     (if uoSkipPull opts then print_line (newline @ ''==> Skipping git pull; deploying the current checkout'')
      else pull_source h d)"

lemma phase_pull_phase:
  "phase h (if uoSkipPull opts then [] else [status_call d, step_call d pull_step]) (pull_phase h opts d)"
  by (simp add: pull_phase_def phase_pull phase_silent print_line_def after_def)

definition update_phases :: "update_host \<Rightarrow> update_options \<Rightarrow> string \<Rightarrow> string update_io" where
  "update_phases h opts d =
     bindE (validateSource h d) (\<lambda>_.
     bindE (pull_phase h opts d) (\<lambda>_.
     bindE (forE (build_steps @ [deploy_step h d]) (runStep h d)) (\<lambda>_.
     bindE (print_line (newline @ ''Update completed successfully.'')) (\<lambda>_. ret d))))"

lemma phase_update: "phase h (update_plan h opts d) (update_phases h opts d)"
proof -
  have silent: "phase h [] (bindE (print_line m) (\<lambda>_. ret x))" for m and x :: string
    by (rule phase_silent) (simp add: print_line_def after_def)
  have "phase h ([] @ (if uoSkipPull opts then [] else [status_call d, step_call d pull_step]) @
      map (step_call d) (build_steps @ [deploy_step h d]) @ []) (update_phases h opts d)"
    unfolding update_phases_def by (intro phase_bind phase_validate phase_pull_phase phase_steps silent)
  then show ?thesis by (simp add: update_plan_def)
qed

lemma run_update_cases:
  "(\<exists>e. runUpdate h opts u = (Inl e, u)) \<or> (\<exists>d. runUpdate h opts u = update_phases h opts d u)"
  by (auto simp: runUpdate_def Let_def update_phases_def pull_phase_def)

lemma update_returns_source: "update_phases h opts d u = (Inr x, v) \<Longrightarrow> x = d"
  by (auto simp: update_phases_def dest!: run_bind_InrD)

lemma pull_first:
  assumes "\<not> uoSkipPull opts" "usCalls u = []" "1 < length (usCalls (after (update_phases h opts d) u))"
  shows "clean (uhRunner h [] (status_call d))"
proof (rule ccontr)
  assume "\<not> clean (uhRunner h [] (status_call d))"
  then obtain e where e: "pull_phase h opts d u = (Inl e, inspected u d)"
    using pull_source_cases(2) [of h u d] assms(1,2) by (auto simp: pull_phase_def)
  have "snd (update_phases h opts d u) \<in> {u, inspected u d}"
    using validate_silent [of h d u] e
    by (auto simp: update_phases_def run_bind after_def split: sum.split prod.split)
  with assms(2,3) show False by (auto simp: after_def inspected_def)
qed


section \<open>Two runs\<close>

text \<open>A host where every command succeeds, and one whose tests fail.\<close>

definition sample_host :: "(command_call \<Rightarrow> bool) \<Rightarrow> update_host" where
  "sample_host fails =
     \<lparr>uhPlatform = ''linux'', uhUid = Some 0,
      uhFile = (\<lambda>p. if p \<in> {''package.json'', ''upgrade.sh''} then Some [] else None),
      uhSourceEnv = Some ''/src'', uhResolve = last,
      uhJson = (\<lambda>_. Inr (JObj [(''name'', JStr ''sajadbot-whatsapp'')])), uhText = (\<lambda>_. []),
      uhRunner = (\<lambda>_ c. \<lparr>rsStatus = Some (if fails c then 1 else 0), rsStdout = [], rsStderr = [],
        rsError = None\<rparr>)\<rparr>"

definition sample_update :: update_options where
  "sample_update = \<lparr>uoSourceDir = None, uoSkipPull = False, uoSourceRecord = None\<rparr>"

lemmas update_run = runUpdate_def sample_host_def sample_update_def update_source_def Let_def
  validateSource_def manifest_name_def pull_source_def call_runner_def run_bind build_steps_def
  deploy_step_def runStep_def print_line_def succeeded_def pull_step_def status_call_def js_trim_def
  exit_status_def

lemma show_one: "show_int 1 = ''1''"
  by code_simp

lemma sample_update_succeeds:
  "fst (runUpdate (sample_host (\<lambda>_. False)) sample_update \<lparr>usCalls = [], usWritten = []\<rparr>) = Inr ''/src''"
  by (simp add: update_run)


end
