(* ===== verification/InstallCommand.thy ===== *)
theory InstallCommand
  imports Config SmallRepos
begin

text \<open>
  The guided installation, \<open>src/src/cli/install-command.ts\<close>: the checks, the questions, the
  configuration file it writes, the first start of the database and the login.

  The operator's answers are a function of the number of the question, and what other processes do to
  the files while a question waits is a parameter too.  The progress lines it prints are left out; the
  questions are kept.  Parameters are also Node's path functions, the reader of the
  configuration file, the opening of the database and the login.  The state is the files, the
  directories made, the opened database and the questions asked.  Of the answers that mean yes the three
  Persian ones lie outside the characters of this model.
\<close>

section \<open>The host\<close>

record install_state =
  isFiles :: "string \<rightharpoonup> string"
  isDirectories :: "string list"
  isDb :: "database option"
  isQuestions :: "string list"

type_synonym 'a install_io = "(install_state, error, 'a) io"

record install_options =
  ioConfigPath :: string
  ioCwd :: string
  ioYes :: bool
  ioProduction :: bool
  ioSkipLogin :: bool
  ioPairingPhone :: "string option"
  ioAuthenticate :: "(app_config \<Rightarrow> string option \<Rightarrow> unit install_io) option"

record install_host =
  ihTty :: bool
  ihNodeMajor :: int
  ihNodeVersion :: string
  ihResolve :: "string \<Rightarrow> string \<Rightarrow> string"
  ihDirname :: "string \<Rightarrow> string"
  ihJoin :: "string \<Rightarrow> string \<Rightarrow> string"
  ihTimezone :: "string option"
  ihAnswer :: "nat \<Rightarrow> string"
  ihMeanwhile :: "nat \<Rightarrow> (string \<rightharpoonup> string) \<Rightarrow> (string \<rightharpoonup> string)"
  ihMkdir :: "string \<Rightarrow> error option"
  ihAccess :: "string \<Rightarrow> bool"
  ihWriteFails :: "error option"
  ihEnv :: "string \<rightharpoonup> string"
  ihDotenv :: "string \<Rightarrow> (string \<rightharpoonup> string)"
  ihNumber :: "string \<Rightarrow> rat option"
  ihZone :: "string \<Rightarrow> bool"
  ihReport :: string
  ihOpen :: "app_config \<Rightarrow> error + database"
  ihJournal :: string
  ihNow :: string

record install_result =
  irConfig :: app_config
  irConfigPath :: string
  irCreatedConfig :: bool
  irAuthenticated :: bool

section \<open>Questions\<close>

definition show_bool :: "bool \<Rightarrow> string" where
  "show_bool b = (if b then ''true'' else ''false'')"

definition envLine :: "string \<Rightarrow> string \<Rightarrow> string" where
  "envLine name value = name @ ''='' @ filter (\<lambda>c. [c] \<noteq> newline) value"

definition defaultTimezone :: "install_host \<Rightarrow> string" where
  "defaultTimezone h =
     (case ihTimezone h of None \<Rightarrow> ''UTC'' | Some z \<Rightarrow> if z = [] then ''UTC'' else z)"

definition yesValue :: "string \<Rightarrow> bool \<Rightarrow> bool" where
  "yesValue value defaultAnswer =
     (let normalized = js_lower (js_trim value) in
      if normalized = [] then defaultAnswer
      else normalized \<in> {''y'', ''yes'', ''1'', ''true''})"

definition question :: "install_host \<Rightarrow> string \<Rightarrow> string install_io" where
  "question h q =
     bindE (readE (\<lambda>i. length (isQuestions i))) (\<lambda>n.
     bindE (writeE (\<lambda>i. i\<lparr>isQuestions := isQuestions i @ [q], isFiles := ihMeanwhile h n (isFiles i)\<rparr>)) (\<lambda>_.
     ret (ihAnswer h n)))"

definition ask :: "install_host \<Rightarrow> install_options \<Rightarrow> string \<Rightarrow> string \<Rightarrow> string install_io" where
  "ask h opts q fallback =
     (if ioYes opts then ret fallback
      else bindE (question h (q @ (if fallback = [] then [] else '' ['' @ fallback @ '']'') @ '': '')) (\<lambda>a.
        ret (if js_trim a = [] then fallback else js_trim a)))"

definition confirm :: "install_host \<Rightarrow> install_options \<Rightarrow> string \<Rightarrow> bool \<Rightarrow> bool install_io" where
  "confirm h opts q fallback =
     (if ioYes opts then ret fallback
      else bindE (question h (q @ '' ['' @ (if fallback then ''Y/n'' else ''y/N'') @ '']: '')) (\<lambda>a.
        ret (yesValue a fallback)))"

section \<open>The configuration file\<close>

text \<open>The numbers are written as \<open>String\<close> prints them.\<close>

definition config_lines ::
    "install_host \<Rightarrow> string \<Rightarrow> string \<Rightarrow> bool \<Rightarrow> string \<Rightarrow> string list" where
  "config_lines h stateDir timezone dryRun pairingPhone =
     [''# Generated by wts install'',
      envLine ''DATABASE_PATH'' (ihJoin h stateDir ''app.db''),
      envLine ''STATE_DIR'' stateDir,
      envLine ''MEDIA_DIR'' (ihJoin h stateDir ''media''),
      envLine ''LOCK_PATH'' (ihJoin h stateDir ''daemon.lock''),
      envLine ''LOG_LEVEL'' ''info'',
      envLine ''TIMEZONE'' timezone,
      [],
      envLine ''DRY_RUN'' (show_bool dryRun),
      envLine ''WORKER_POLL_MS'' ''1000'',
      envLine ''SEND_INTERVAL_MS'' ''8000'',
      envLine ''MAX_ATTEMPTS'' ''5'',
      envLine ''RETRY_BASE_MS'' ''5000'',
      envLine ''RETRY_MAX_MS'' ''300000'',
      envLine ''MAX_MEDIA_BYTES'' ''2147483648'',
      [],
      envLine ''SELF_CONTROLLER_ENABLED'' (show_bool False),
      envLine ''PAIRING_PHONE'' pairingPhone,
      []]"

text \<open>\<open>writeFileSync\<close> with the flag \<open>wx\<close>: an existing file is an error and stays as it is.\<close>

definition write_new :: "install_host \<Rightarrow> string \<Rightarrow> string \<Rightarrow> unit install_io" where
  "write_new h path content =
     bindE (readE isFiles) (\<lambda>files.
       if files path \<noteq> None
       then throw (PlainError (''EEXIST: file already exists, open '' @ path))
       else case ihWriteFails h of
              Some e \<Rightarrow> throw e
            | None \<Rightarrow> writeE (\<lambda>i. i\<lparr>isFiles := (isFiles i)(path \<mapsto> content)\<rparr>))"

definition mkdir :: "install_host \<Rightarrow> string \<Rightarrow> unit install_io" where
  "mkdir h d =
     (case ihMkdir h d of
        Some e \<Rightarrow> throw e
      | None \<Rightarrow> writeE (\<lambda>i. i\<lparr>isDirectories := isDirectories i @ [d]\<rparr>))"

definition create_config :: "install_host \<Rightarrow> install_options \<Rightarrow> string \<Rightarrow> unit install_io" where
  "create_config h opts path =
     bindE (ask h opts ''Data storage path'' (ihJoin h (ihDirname h path) ''data'')) (\<lambda>stateDir.
     bindE (ask h opts ''IANA time zone'' (defaultTimezone h)) (\<lambda>timezone.
     bindE (if ioProduction opts then ret False
            else confirm h opts ''Enable safe dry-run mode for now?'' True) (\<lambda>dryRun.
     bindE (case ioPairingPhone opts of
              Some p \<Rightarrow> ret p
            | None \<Rightarrow> if ioYes opts then ret []
                else ask h opts ''Pairing phone with country code (optional)'' []) (\<lambda>phone.
     bindE (mkdir h (ihDirname h path)) (\<lambda>_.
     write_new h path (join_with newline (config_lines h stateDir timezone dryRun phone)))))))"

definition configure :: "install_host \<Rightarrow> install_options \<Rightarrow> string \<Rightarrow> bool install_io" where
  "configure h opts path =
     bindE (readE isFiles) (\<lambda>files.
       if files path \<noteq> None
       then bindE (confirm h opts
              ''A configuration file already exists. Reuse it without changes?'' True) (\<lambda>reuse.
              if reuse then ret False
              else throw (PlainError (''Setup stopped to avoid overwriting the file; choose another '' @
                     ''path with --config.'')))
       else bindE (create_config h opts path) (\<lambda>_. ret True))"

section \<open>The wizard\<close>

text \<open>\<open>loadConfig\<close> on the file and the environment, and \<open>ensureApplicationDirectories\<close>.\<close>

definition load_installed :: "install_host \<Rightarrow> install_options \<Rightarrow> string \<Rightarrow> (string \<rightharpoonup> string) \<Rightarrow> error + app_config" where
  "load_installed h opts path files =
     loadConfig (ihNumber h) (ihResolve h) (ihZone h) (ihReport h)
       (dotenv_config (ihDotenv h) files
          (env_path (ihResolve h) (Some path) (ioCwd opts)) (ihEnv h))
       no_overrides (ioCwd opts)"

definition ensure_directory :: "install_host \<Rightarrow> string \<Rightarrow> unit install_io" where
  "ensure_directory h d =
     bindE (mkdir h d) (\<lambda>_.
       if ihAccess h d then ret ()
       else throw (ConfigurationError (''Application directory is not readable/writable: '' @ d)))"

definition ensureApplicationDirectories :: "install_host \<Rightarrow> app_config \<Rightarrow> unit install_io" where
  "ensureApplicationDirectories h cfg =
     bindE (forE [cfgStateDir cfg, cfgMediaDir cfg] (ensure_directory h)) (\<lambda>_. ret ())"

definition prepare :: "install_host \<Rightarrow> install_options \<Rightarrow> string \<Rightarrow> app_config install_io" where
  "prepare h opts path =
     bindE (readE (\<lambda>i. load_installed h opts path (isFiles i))) (\<lambda>loaded.
       case loaded of
         Inl e \<Rightarrow> throw e
       | Inr cfg \<Rightarrow> bindE (ensureApplicationDirectories h cfg) (\<lambda>_. ret cfg))"

definition first_start :: "install_host \<Rightarrow> app_config \<Rightarrow> bool \<Rightarrow> unit install_io" where
  "first_start h cfg created =
     (case ihOpen h cfg of
        Inl e \<Rightarrow> throw e
      | Inr db \<Rightarrow>
          writeE (\<lambda>i. i\<lparr>isDb := Some (after (audit_add ''interactive_install''
            \<lparr>aoActor = Some ''cli'', aoEntityType = None, aoEntityId = None,
             aoDetails = Some (JObj [(''createdConfig'', JBool created)])\<rparr> (ihNow h)) db)\<rparr>))"

definition link_account :: "install_host \<Rightarrow> install_options \<Rightarrow> app_config \<Rightarrow> bool install_io" where
  "link_account h opts cfg =
     (let canAuthenticate = \<not> cfgDryRun cfg \<and> \<not> ioSkipLogin opts \<and> ioAuthenticate opts \<noteq> None in
      bindE (if canAuthenticate \<and> \<not> ioYes opts then confirm h opts ''Link WhatsApp now?'' True
             else ret False) (\<lambda>loginNow.
        case ioAuthenticate opts of
          Some authenticate \<Rightarrow>
            if loginNow
            then bindE (authenticate cfg
                   (case ioPairingPhone opts of None \<Rightarrow> cfgPairingPhone cfg | Some p \<Rightarrow> Some p)) (\<lambda>_.
                 ret True)
            else ret False
        | None \<Rightarrow> ret False))"

definition runInstallWizard :: "install_host \<Rightarrow> install_options \<Rightarrow> install_result install_io" where
  "runInstallWizard h opts =
     (let path = ihResolve h (ioCwd opts) (ioConfigPath opts) in
      if \<not> ioYes opts \<and> \<not> ihTty h
      then throw (PlainError (''Interactive installation requires a TTY; use --yes --skip-login for '' @
             ''safe non-interactive setup.''))
      else if ihNodeMajor h < 20 then throw (PlainError ''Node.js 20 or newer is required.'')
      else
        bindE (configure h opts path) (\<lambda>created.
        bindE (prepare h opts path) (\<lambda>cfg.
        bindE (first_start h cfg created) (\<lambda>_.
        bindE (link_account h opts cfg) (\<lambda>authenticated.
        ret \<lparr>irConfig = cfg, irConfigPath = path, irCreatedConfig = created,
             irAuthenticated = authenticated\<rparr>)))))"

section \<open>Existing files\<close>

definition kept_files :: "install_state \<Rightarrow> install_state \<Rightarrow> bool" where
  "kept_files i j \<longleftrightarrow> (\<forall>p. isFiles i p \<noteq> None \<longrightarrow> isFiles j p = isFiles i p)"

interpretation kept: state_preorder kept_files
  by unfold_locales (auto simp: kept_files_def)

definition others_keep :: "install_host \<Rightarrow> install_options \<Rightarrow> bool" where
  "others_keep h opts \<longleftrightarrow>
     (\<forall>n files p. files p \<noteq> None \<longrightarrow> ihMeanwhile h n files p = files p) \<and>
     (\<forall>a cfg phone. ioAuthenticate opts = Some a \<longrightarrow> keeps kept_files (a cfg phone))"

lemma kept_write: "(\<And>i p. isFiles i p \<noteq> None \<Longrightarrow> isFiles (f i) p = isFiles i p) \<Longrightarrow> keeps kept_files (writeE f)"
  by (simp add: keeps_def kept_files_def after_def)

lemma kept_question: "others_keep h opts \<Longrightarrow> keeps kept_files (question h q)"
  unfolding question_def
  by (intro kept.keeps_rules kept_write) (auto simp: others_keep_def)

lemma kept_ask: "others_keep h opts \<Longrightarrow> keeps kept_files (ask h opts q d)"
  unfolding ask_def by (intro kept.keeps_rules kept_question)

lemma kept_confirm: "others_keep h opts \<Longrightarrow> keeps kept_files (confirm h opts q d)"
  unfolding confirm_def by (intro kept.keeps_rules kept_question)

lemma kept_mkdir: "keeps kept_files (mkdir h d)"
  unfolding mkdir_def by (intro kept.keeps_rules kept_write) simp

lemma kept_write_new: "keeps kept_files (write_new h path content)"
  by (auto simp: keeps_def kept_files_def after_def write_new_def split: option.splits)

lemma kept_configure: "others_keep h opts \<Longrightarrow> keeps kept_files (configure h opts path)"
  unfolding configure_def create_config_def
  by (intro kept.keeps_rules kept_ask kept_confirm kept_mkdir kept_write_new)

lemma kept_prepare: "keeps kept_files (prepare h opts path)"
  unfolding prepare_def ensureApplicationDirectories_def ensure_directory_def
  by (intro kept.keeps_bind kept.keeps_read)
    (auto split: sum.split intro!: kept.keeps_rules kept_mkdir)

lemma kept_first_start: "keeps kept_files (first_start h cfg created)"
  unfolding first_start_def by (cases "ihOpen h cfg") (auto intro: kept.keeps_throw kept_write)

lemma kept_link: "others_keep h opts \<Longrightarrow> keeps kept_files (link_account h opts cfg)"
  unfolding link_account_def Let_def
  by (cases "ioAuthenticate opts"; simp only: option.case)
    (intro kept.keeps_rules kept_confirm; auto simp: others_keep_def)+

lemma kept_wizard: "others_keep h opts \<Longrightarrow> keeps kept_files (runInstallWizard h opts)"
  unfolding runInstallWizard_def Let_def
  by (intro kept.keeps_rules kept_configure kept_prepare kept_first_start kept_link)

text \<open>
  The installation never changes a file that exists, whatever it is answered and however it ends,
  not even one that another process makes while a question waits: when the other processes and the login
  leave existing files as they are, so does the whole wizard.
\<close>

theorem install_never_overwrites:
  assumes "others_keep h opts" and "isFiles i p = Some content"
  shows "isFiles (after (runInstallWizard h opts) i) p = Some content"
  using keepsD [OF kept_wizard [OF assms(1)], of i] assms(2) by (auto simp: kept_files_def)

section \<open>Unattended installation\<close>

definition default_config :: "install_host \<Rightarrow> install_options \<Rightarrow> string \<Rightarrow> string list" where
  "default_config h opts path =
     config_lines h (ihJoin h (ihDirname h path) ''data'') (defaultTimezone h) (\<not> ioProduction opts)
       (case ioPairingPhone opts of None \<Rightarrow> [] | Some p \<Rightarrow> p)"

lemma configure_yes:
  assumes "ioYes opts" and "configure h opts path i = (Inr created, j)"
  shows "isQuestions j = isQuestions i" "created = (isFiles i path = None)"
    "isFiles j = (if isFiles i path = None
       then (isFiles i)(path \<mapsto> join_with newline (default_config h opts path)) else isFiles i)"
  using assms
  by (auto simp: configure_def create_config_def ask_def confirm_def run_bind mkdir_def write_new_def
      default_config_def split: if_splits option.splits sum.splits)

lemma ensure_directory_run:
  assumes "ensure_directory h d i = (r, j)"
  shows "isFiles j = isFiles i \<and> isQuestions j = isQuestions i"
  using assms by (auto simp: ensure_directory_def mkdir_def run_bind split: option.splits if_splits)

lemma prepare_run:
  assumes "prepare h opts path i = (Inr cfg, j)"
  shows "isFiles j = isFiles i" "isQuestions j = isQuestions i"
    "load_installed h opts path (isFiles i) = Inr cfg"
proof -
  have e: "isFiles k' = isFiles k \<and> isQuestions k' = isQuestions k"
    if "ensureApplicationDirectories h c k = (r, k')" for c k r k'
    using that
    by (auto simp: ensureApplicationDirectories_def run_bind dest!: ensure_directory_run
        split: sum.splits prod.splits)
  show "isFiles j = isFiles i" "isQuestions j = isQuestions i"
    "load_installed h opts path (isFiles i) = Inr cfg"
    using assms by (auto simp: prepare_def run_bind dest!: e split: sum.splits prod.splits)
qed

lemma first_start_run:
  "first_start h cfg created i = (r, j) \<Longrightarrow> isFiles j = isFiles i \<and> isQuestions j = isQuestions i"
  by (auto simp: first_start_def split: sum.splits)

lemma link_yes:
  "ioYes opts \<Longrightarrow> link_account h opts cfg i = (Inr False, i)"
  by (simp add: link_account_def split: option.split)

lemma unattended_run:
  assumes "ioYes opts" and "runInstallWizard h opts i = (Inr r, j)"
    and path: "path = ihResolve h (ioCwd opts) (ioConfigPath opts)"
  shows "\<not> irAuthenticated r" "isQuestions j = isQuestions i" "irCreatedConfig r = (isFiles i path = None)"
    "isFiles j = (if isFiles i path = None
       then (isFiles i)(path \<mapsto> join_with newline (default_config h opts path)) else isFiles i)"
    "load_installed h opts path (isFiles j) = Inr (irConfig r)"
proof -
  obtain created k where k: "configure h opts path i = (Inr created, k)"
    using assms by (auto simp: runInstallWizard_def run_bind Let_def split: if_splits sum.splits prod.splits)
  obtain cfg l where l: "prepare h opts path k = (Inr cfg, l)"
    using assms k by (auto simp: runInstallWizard_def run_bind Let_def split: if_splits sum.splits prod.splits)
  obtain u m where m: "first_start h cfg created l = (Inr u, m)"
    using assms k l by (auto simp: runInstallWizard_def run_bind Let_def split: if_splits sum.splits prod.splits)
  have r: "r = \<lparr>irConfig = cfg, irConfigPath = path, irCreatedConfig = created, irAuthenticated = False\<rparr>"
    "j = m"
    using assms k l m by (auto simp: runInstallWizard_def run_bind link_yes Let_def split: if_splits)
  note c = configure_yes [OF assms(1) k] and p = prepare_run [OF l] and f = first_start_run [OF m]
  show "\<not> irAuthenticated r" "isQuestions j = isQuestions i" "irCreatedConfig r = (isFiles i path = None)"
    "isFiles j = (if isFiles i path = None
       then (isFiles i)(path \<mapsto> join_with newline (default_config h opts path)) else isFiles i)"
    "load_installed h opts path (isFiles j) = Inr (irConfig r)"
    using c p f by (simp_all add: r)
qed

text \<open>
  What is used of \<open>dotenv\<close>: in a file of plain lines, a name defined by one line only has the
  value written there.  Quotes, comments and escapes are not plain.
\<close>

definition plain_line :: "string \<Rightarrow> bool" where
  "plain_line l \<longleftrightarrow> (\<forall>c \<in> set l. (of_char c :: nat) \<notin> {10, 13, 34, 35, 39, 92, 96})"

definition line_name :: "string \<Rightarrow> string" where
  "line_name l = takeWhile (\<lambda>c. c \<noteq> CHR ''='') l"

definition reads_lines :: "(string \<Rightarrow> (string \<rightharpoonup> string)) \<Rightarrow> bool" where
  "reads_lines parse \<longleftrightarrow>
     (\<forall>header ls n v. header = ''# Generated by wts install'' \<longrightarrow> (\<forall>l \<in> set ls. plain_line l) \<longrightarrow>
        n @ ''='' @ v \<in> set ls \<longrightarrow> n \<noteq> [] \<longrightarrow> (\<forall>c \<in> set n. is_upper_letter c \<or> c = CHR ''_'') \<longrightarrow>
        v \<noteq> [] \<longrightarrow> (\<forall>c \<in> set v. is_lower_letter c) \<longrightarrow>
        (\<forall>l \<in> set ls. line_name l = n \<longrightarrow> l = n @ ''='' @ v) \<longrightarrow>
        parse (join_with newline (header # ls)) n = Some v)"

lemma line_name_env: "CHR ''='' \<notin> set n \<Longrightarrow> line_name (envLine n v) = n"
  by (auto simp: line_name_def envLine_def takeWhile_append)

lemma loadConfig_dry:
  assumes "loadConfig number resolve zone report env no_overrides cwd = Inr c"
    and "env ''DRY_RUN'' = Some ''true''"
  shows "cfgDryRun c"
  using assms
  by (auto simp: loadConfig_def parse_config_def bind_eq_Some_conv boolean_value_def booleanFromEnv_def
      no_overrides_def split: option.splits if_splits)

text \<open>
  An installation without questions is safe: unless it is asked for production, the file it writes
  where there was none switches to the dry run, no account is linked, and where neither the operator's
  path nor the time zone needs quoting and the environment does not say otherwise, the program is
  configured for the dry run.  An existing configuration is used as it is.
\<close>

theorem unattended_install_is_dry:
  assumes "ioYes opts" "\<not> ioProduction opts"
    and "runInstallWizard h opts i = (Inr r, j)"
    and path: "path = ihResolve h (ioCwd opts) (ioConfigPath opts)" "is_absolute path" "isFiles i path = None"
    and "reads_lines (ihDotenv h)" "ihEnv h ''DRY_RUN'' = None"
    and "\<forall>l \<in> set (tl (default_config h opts path)). plain_line l"
  shows "cfgDryRun (irConfig r) \<and> \<not> irAuthenticated r \<and> irCreatedConfig r \<and>
    isQuestions j = isQuestions i \<and>
    isFiles j = (isFiles i)(path \<mapsto> join_with newline (default_config h opts path))"
proof -
  note run = unattended_run [OF assms(1,3) path(1)]
  let ?content = "join_with newline (default_config h opts path)"
  have "ihDotenv h ?content ''DRY_RUN'' = Some ''true''"
  proof -
    let ?ls = "tl (default_config h opts path)"
    have ls: "default_config h opts path = ''# Generated by wts install'' # ?ls"
      by (simp add: default_config_def config_lines_def)
    have "l = ''DRY_RUN'' @ ''='' @ ''true''" if "l \<in> set ?ls" "line_name l = ''DRY_RUN''" for l
      using that assms(2)
      by (auto simp: default_config_def config_lines_def line_name_env show_bool_def)
        (simp_all add: line_name_def envLine_def newline_def)
    moreover have "''DRY_RUN'' @ ''='' @ ''true'' \<in> set ?ls"
      using assms(2) by (simp add: default_config_def config_lines_def show_bool_def envLine_def newline_def)
    ultimately show ?thesis
      using assms(7,9) ls by (auto simp: reads_lines_def is_upper_letter_def is_lower_letter_def)
  qed
  then have "dotenv_config (ihDotenv h) (isFiles j) path (ihEnv h) ''DRY_RUN'' = Some ''true''"
    using run(4) path(3) assms(8) by (simp add: dotenv_config_def map_add_def)
  moreover have "env_path (ihResolve h) (Some path) (ioCwd opts) = path"
    using path(2) by (auto simp: env_path_def absolutePath_def is_absolute_def js_starts_with_def)
  ultimately have "cfgDryRun (irConfig r)"
    using run(5) unfolding load_installed_def by (metis loadConfig_dry)
  then show ?thesis using run path(3) by simp
qed

section \<open>A sample host\<close>

lemma js_split_plain: "c \<notin> set l \<Longrightarrow> js_split c l = [l]"
  by (induction l) auto

lemma js_split_append: "c \<notin> set l \<Longrightarrow> js_split c (l @ c # r) = l # js_split c r"
  by (induction l) auto

lemma js_split_join:
  "ls \<noteq> [] \<Longrightarrow> (\<forall>l \<in> set ls. c \<notin> set l) \<Longrightarrow> js_split c (join_with [c] ls) = ls"
  by (induction "[c]" ls rule: join_with.induct) (auto simp: js_split_plain js_split_append)

text \<open>A reader that takes the first line of a name as it is.\<close>

definition plain_reader :: "string \<Rightarrow> (string \<rightharpoonup> string)" where
  "plain_reader content n =
     map_option (\<lambda>l. drop (Suc (length n)) l)
       (find_first (\<lambda>l. line_name l = n) (js_split (CHR 0x0A) content))"

lemma plain_reader_reads: "reads_lines plain_reader"
  unfolding reads_lines_def
proof (intro allI impI)
  fix header n v :: string and ls :: "string list"
  assume h: "header = ''# Generated by wts install''" and plain: "\<forall>l \<in> set ls. plain_line l"
    and line: "n @ ''='' @ v \<in> set ls" and n: "n \<noteq> []" "\<forall>c \<in> set n. is_upper_letter c \<or> c = CHR ''_''"
    and uniq: "\<forall>l \<in> set ls. line_name l = n \<longrightarrow> l = n @ ''='' @ v"
  have nl: "CHR 0x0A \<notin> set l" if "l \<in> set (header # ls)" for l
  proof (cases "l = header")
    case True
    then show ?thesis by (simp add: h)
  next
    case False
    with that plain have "plain_line l" by simp
    then show ?thesis by (auto simp: plain_line_def)
  qed
  then have split: "js_split (CHR 0x0A) (join_with newline (header # ls)) = header # ls"
    unfolding newline_def by (intro js_split_join) auto
  have eq: "CHR ''='' \<notin> set n" using n(2) by (auto simp: is_upper_letter_def)
  have name: "line_name (n @ ''='' @ v) = n"
    using eq by (auto simp: line_name_def takeWhile_append)
  have head: "line_name header \<noteq> n"
    using n(2) by (auto simp: h line_name_def is_upper_letter_def)
  have "find_first (\<lambda>l. line_name l = n) ls = Some (n @ ''='' @ v)"
    using find_first_unique [of "n @ ''='' @ v" ls "\<lambda>l. line_name l = n"] line name uniq by blast
  with head show "plain_reader (join_with newline (header # ls)) n = Some v"
    by (simp add: plain_reader_def split)
qed

definition sample_install_host :: install_host where
  "sample_install_host =
     \<lparr>ihTty = False, ihNodeMajor = 22, ihNodeVersion = ''v22'', ihResolve = (\<lambda>b p. CHR ''/'' # p),
      ihDirname = (\<lambda>_. ''/srv''), ihJoin = (\<lambda>a b. a @ ''/'' @ b), ihTimezone = None,
      ihAnswer = (\<lambda>_. []), ihMeanwhile = (\<lambda>_ files. files), ihMkdir = (\<lambda>_. None), ihAccess = (\<lambda>_. True),
      ihWriteFails = None, ihEnv = Map.empty, ihDotenv = plain_reader,
      ihNumber = (\<lambda>_. Some 100), ihZone = (\<lambda>z. z = ''UTC''), ihReport = [],
      ihOpen = (\<lambda>_. Inr empty_db), ihJournal = ''wal'', ihNow = ''2026-01-01''\<rparr>"

definition sample_install :: install_options where
  "sample_install =
     \<lparr>ioConfigPath = ''.env'', ioCwd = ''/srv'', ioYes = True, ioProduction = False, ioSkipLogin = False,
      ioPairingPhone = None, ioAuthenticate = None\<rparr>"

definition fresh_machine :: install_state where
  "fresh_machine = \<lparr>isFiles = Map.empty, isDirectories = [], isDb = None, isQuestions = []\<rparr>"

lemma sample_others_keep: "others_keep sample_install_host sample_install"
  by (simp add: others_keep_def sample_install_host_def sample_install_def)

theorem install_never_overwrites_witness:
  "isFiles (after (runInstallWizard sample_install_host sample_install)
     (fresh_machine\<lparr>isFiles := [''/.env'' \<mapsto> ''DRY_RUN=false'']\<rparr>)) ''/.env'' = Some ''DRY_RUN=false''"
  by (rule install_never_overwrites [OF sample_others_keep]) simp

theorem unattended_install_is_dry_witness:
  "\<exists>r j. runInstallWizard sample_install_host sample_install fresh_machine = (Inr r, j) \<and>
     cfgDryRun (irConfig r) \<and> irCreatedConfig r"
proof -
  let ?x = "runInstallWizard sample_install_host sample_install fresh_machine"
  have "\<not> isl (fst ?x)" by code_simp
  then obtain r j where x: "?x = (Inr r, j)" by (metis prod.collapse sum.collapse(2))
  let ?h = sample_install_host and ?o = sample_install
  have p: "ihResolve ?h (ioCwd ?o) (ioConfigPath ?o) = ''/.env''"
    by (simp add: sample_install_host_def sample_install_def)
  have "\<forall>l \<in> set (tl (default_config ?h ?o ''/.env'')). plain_line l" by code_simp
  moreover have "is_absolute ''/.env''" by code_simp
  moreover have "ioYes ?o" "\<not> ioProduction ?o" "isFiles fresh_machine ''/.env'' = None"
    "ihEnv ?h ''DRY_RUN'' = None" "reads_lines (ihDotenv ?h)"
    by (simp_all add: sample_install_host_def sample_install_def fresh_machine_def plain_reader_reads)
  ultimately show ?thesis using unattended_install_is_dry [OF _ _ x p [symmetric]] x by blast
qed

end
