(* ===== verification/CliProgram.thy ===== *)
theory CliProgram
  imports AppContext InstallCommand CheckCommand UpdateCommand Daemon
begin

text \<open>
  The program around the commands, \<open>src/src/cli/index.ts\<close>: the configuration a command runs with, the
  context it opens and closes, what it prints, the exit status, and what becomes of an error
  (\<open>main\<close>).  The commands themselves are in the theories Cli, Daemon, CheckCommand, UpdateCommand and
  InstallCommand.  What the process prints and its exit status stand beside the world a command works on.
\<close>

section \<open>Output and exit status\<close>

record login_view =
  lvAuth :: string
  lvConnectionState :: string
  lvOwnJid :: "string option"
  lvLastConnectionAt :: "string option"

datatype print_item =
    PrintText string
  | PrintReport check_report
  | PrintAnswer cli_output
  | PrintLogin login_view

record shell =
  shJson :: bool
  shPrinted :: "print_item list"
  shErrors :: "string list"
  shExit :: int

type_synonym ('s, 'a) program_io = "('s \<times> shell, error, 'a) io"

definition emit :: "print_item \<Rightarrow> ('s, unit) program_io" where
  "emit p = on_snd (writeE (\<lambda>sh. sh\<lparr>shPrinted := shPrinted sh @ [p]\<rparr>))"

definition exit_with :: "int \<Rightarrow> ('s, unit) program_io" where
  "exit_with n = on_snd (writeE (\<lambda>sh. sh\<lparr>shExit := n\<rparr>))"

text \<open>The handler of a rejected \<open>main\<close>.\<close>

definition report_failure :: "(error \<Rightarrow> string) \<Rightarrow> error \<Rightarrow> ('s, unit) program_io" where
  "report_failure message e =
     on_snd (writeE (\<lambda>sh. sh\<lparr>shErrors := shErrors sh @ [''Error: '' @ message e], shExit := 1\<rparr>))"

definition main :: "(error \<Rightarrow> string) \<Rightarrow> ('s, unit) program_io \<Rightarrow> 's \<times> shell \<Rightarrow> 's \<times> shell" where
  "main message action = after (catchE action (report_failure message))"

section \<open>The configuration of a command\<close>

record global_options =
  goConfig :: "string option"
  goDryRun :: bool
  goCwd :: string

text \<open>\<open>--dry-run\<close> counts when it is given on the command line.\<close>

definition cli_overrides :: "global_options \<Rightarrow> config_overrides" where
  "cli_overrides g = no_overrides\<lparr>ovDryRun := (if goDryRun g then Some True else None)\<rparr>"

definition getConfig :: "install_host \<Rightarrow> global_options \<Rightarrow> (string \<rightharpoonup> string) \<Rightarrow> error + app_config" where
  "getConfig h g files =
     loadConfig (ihNumber h) (ihResolve h) (ihZone h) (ihReport h)
       (dotenv_config (ihDotenv h) files (env_path (ihResolve h) (goConfig g) (goCwd g)) (ihEnv h))
       (cli_overrides g) (goCwd g)"

section \<open>Commands on the database\<close>

definition on_data :: "('d, error, 'a) io \<Rightarrow> ('d, 'a) handle_io" where
  "on_data m =
     bindE requireConnection (\<lambda>_ h.
       case m (scData (hdSchema h)) of
         (r, d) \<Rightarrow> (r, h\<lparr>hdSchema := (hdSchema h)\<lparr>scData := d\<rparr>\<rparr>))"

record 'd command_host =
  chConfig :: "error + app_config"
  chDirectories :: "app_config \<Rightarrow> error option"
  chOpen :: "app_config \<Rightarrow> 'd open_env"

definition in_context :: "'d command_host \<Rightarrow> (app_config \<Rightarrow> ('d, error, 'a) io) \<Rightarrow> ('d, 'a) handle_io" where
  "in_context host operation =
     withContext (chConfig host) (chDirectories host) (chOpen host) (\<lambda>cfg. on_data (operation cfg))"

definition command_action ::
    "world command_host \<Rightarrow> (app_config \<Rightarrow> cli_env) \<Rightarrow> cli_command \<Rightarrow> (world handle, unit) program_io" where
  "command_action host ce cmd =
     bindE (on_fst (in_context host (\<lambda>cfg. cli_run (ce cfg) cmd))) (\<lambda>answer. emit (PrintAnswer answer))"

definition health_action ::
    "world command_host \<Rightarrow> (app_config \<Rightarrow> cli_env) \<Rightarrow> (world handle, unit) program_io" where
  "health_action host ce =
     bindE (on_fst (in_context host (\<lambda>cfg. on_fst (readE (health_of (clJson (ce cfg)) (clJournal (ce cfg)) cfg)))))
       (\<lambda>report.
         bindE (emit (PrintAnswer (OutHealth report))) (\<lambda>_.
         if hrHealthy report then ret () else exit_with 1))"

definition login_view_of :: "(string \<Rightarrow> json option) \<Rightarrow> database \<Rightarrow> login_view" where
  "login_view_of json s =
     \<lparr>lvAuth = (if hasCredentials json s then ''AVAILABLE'' else ''REQUIRED''),
      lvConnectionState = or_else (state_get ''connectivity'' s) ''DISCONNECTED'',
      lvOwnJid = state_get ''own_jid'' s,
      lvLastConnectionAt = state_get ''last_connection_at'' s\<rparr>"

definition auth_status_action ::
    "world command_host \<Rightarrow> (string \<Rightarrow> json option) \<Rightarrow> (world handle, unit) program_io" where
  "auth_status_action host json =
     bindE (on_fst (in_context host (\<lambda>cfg. on_fst (readE (login_view_of json)))))
       (\<lambda>view. emit (PrintLogin view))"

section \<open>Checks, installation, update and start\<close>

definition show_report :: "check_report \<Rightarrow> ('s, unit) program_io" where
  "show_report report =
     bindE (readE (\<lambda>x. shJson (snd x))) (\<lambda>json.
     bindE (emit (if json then PrintReport report else PrintText (formatCheckReport report))) (\<lambda>_.
     if crHealthy report then ret () else exit_with 1))"

definition check_of :: "install_host \<Rightarrow> global_options \<Rightarrow> check_env \<Rightarrow> (string \<rightharpoonup> string) \<Rightarrow> check_report" where
  "check_of h g ce files =
     (case getConfig h g files of
        Inl e \<Rightarrow> failedCheckReport ce e
      | Inr cfg \<Rightarrow> runSystemCheck ce cfg)"

definition check_action ::
    "install_host \<Rightarrow> global_options \<Rightarrow> check_env \<Rightarrow> (install_state, unit) program_io" where
  "check_action h g ce =
     bindE (readE (\<lambda>x. check_of h g ce (isFiles (fst x)))) show_report"

text \<open>The check after the installation sees the machine the installation has left.\<close>

definition install_action ::
    "install_host \<Rightarrow> install_options \<Rightarrow> (install_state \<Rightarrow> check_env) \<Rightarrow> (install_state, unit) program_io" where
  "install_action h opts ce =
     bindE (on_fst (runInstallWizard h opts)) (\<lambda>result.
     bindE (readE fst) (\<lambda>machine. show_report (runSystemCheck (ce machine) (irConfig result))))"

definition update_action :: "update_host \<Rightarrow> string option \<Rightarrow> bool \<Rightarrow> (update_state, unit) program_io" where
  "update_action h source skipPull =
     bindE (on_fst (runUpdate h
       \<lparr>uoSourceDir = (if truthy source then source else None), uoSkipPull = skipPull,
        uoSourceRecord = None\<rparr>)) (\<lambda>_. ret ())"

definition start_action ::
    "(error + app_config) \<Rightarrow> (app_config \<Rightarrow> error option) \<Rightarrow> (app_config \<Rightarrow> daemon_env) \<Rightarrow>
     (process, unit) program_io" where
  "start_action config directories environment =
     (case config of
        Inl e \<Rightarrow> throw e
      | Inr cfg \<Rightarrow>
          bindE (on_fst (bindE (may_fail (directories cfg)) (\<lambda>_. runDaemon (environment cfg)))) (\<lambda>result.
            if result = AuthRequiredExit
            then emit (PrintText ''Authentication required. Run: wts auth login'') else ret ()))"

text \<open>\<open>time\<close>: a stored time in the configured zone.\<close>

definition time_action ::
    "install_host \<Rightarrow> global_options \<Rightarrow> (string \<Rightarrow> (int \<Rightarrow> string) option) \<Rightarrow> (string \<Rightarrow> int option) \<Rightarrow> string \<Rightarrow>
     (install_state, unit) program_io" where
  "time_action h g intl date_parse timestamp =
     bindE (readE (\<lambda>x. getConfig h g (isFiles (fst x)))) (\<lambda>config.
     bindE (from_sum config) (\<lambda>cfg.
     bindE (from_sum (formatInTimezone intl date_parse timestamp (cfgTimezone cfg))) (\<lambda>shown.
     emit (PrintText shown))))"

text \<open>What the bulk commands print.\<close>

definition bulkOutput :: "(string \<times> json) list \<Rightarrow> bulk_result \<Rightarrow> json" where
  "bulkOutput details r =
     JObj (details @
       [(''targets'', JNum (int (brTargets r))),
        (''queued'', JNum (int (brQueued r))),
        (''duplicates'', JNum (int (brDuplicateJobs r + brDuplicateTargets r))),
        (''failed'', JNum (int (brFailed r))),
        (''batchId'', JStr (brBatchId r))])"

section \<open>What the exit status says\<close>

lemma run_main:
  "main message action x =
     (case action x of
        (Inl e, (s, sh)) \<Rightarrow> (s, sh\<lparr>shErrors := shErrors sh @ [''Error: '' @ message e], shExit := 1\<rparr>)
      | (Inr u, y) \<Rightarrow> y)"
  by (auto simp: main_def after_def run_catch report_failure_def on_snd_def split: sum.split prod.split)

lemma run_emit: "emit p (s, sh) = (Inr (), (s, sh\<lparr>shPrinted := shPrinted sh @ [p]\<rparr>))"
  by (simp add: emit_def on_snd_def)

lemma run_exit_with: "exit_with n (s, sh) = (Inr (), (s, sh\<lparr>shExit := n\<rparr>))"
  by (simp add: exit_with_def on_snd_def)

lemma context_left_closed:
  "\<not> hdOpen h \<Longrightarrow> \<not> hdOpen (after (in_context host operation) h)"
  unfolding in_context_def by (rule context_closes)

lemma in_context_Inr:
  assumes "\<not> hdOpen h" and "in_context host operation h = (Inr x, h')"
  shows "\<exists>cfg s d. chConfig host = Inr cfg \<and>
    migrate (oeExec (chOpen host cfg)) (oeSha (chOpen host cfg)) (oeNow (chOpen host cfg))
      (oeMigrations (chOpen host cfg)) (hdSchema h) = (Inr (), s) \<and>
    operation cfg (scData s) = (Inr x, d) \<and> scData (hdSchema h') = d"
proof -
  obtain cfg where cfg: "chConfig host = Inr cfg"
    using assms(2) by (cases "chConfig host") (auto simp: in_context_def withContext_def)
  obtain r h1 where c: "createAppContext (chOpen host cfg) h = (r, h1)"
    by (cases "createAppContext (chOpen host cfg) h")
  have run: "finallyE (on_data (operation cfg)) db_close h1 = (Inr x, h')" "r = Inr ()"
    using assms(2) c cfg
    by (auto simp: in_context_def withContext_def run_bind run_may_fail split: option.splits sum.splits)
  from createAppContext_open_or_closed [OF assms(1) c] run(2)
  have open1: "hdOpen h1" "migrate (oeExec (chOpen host cfg)) (oeSha (chOpen host cfg)) (oeNow (chOpen host cfg))
      (oeMigrations (chOpen host cfg)) (hdSchema h) = (Inr (), hdSchema h1)" by auto
  obtain q d where q: "operation cfg (scData (hdSchema h1)) = (q, d)"
    by (cases "operation cfg (scData (hdSchema h1))")
  with run(1) open1(1) have "q = Inr x" "scData (hdSchema h') = d"
    by (auto simp: run_finally on_data_def requireConnection_def run_bind after_def db_close_def)
  with cfg open1(2) q show ?thesis by blast
qed

text \<open>What a command may do to the shell: print one answer, or report one error and exit with 1.\<close>

definition answered :: "shell \<Rightarrow> cli_output \<Rightarrow> shell \<Rightarrow> bool" where
  "answered sh out sh' \<longleftrightarrow> sh' = sh\<lparr>shPrinted := shPrinted sh @ [PrintAnswer out]\<rparr>"

definition failed :: "shell \<Rightarrow> string \<Rightarrow> shell \<Rightarrow> bool" where
  "failed sh m sh' \<longleftrightarrow> sh' = sh\<lparr>shErrors := shErrors sh @ [''Error: '' @ m], shExit := 1\<rparr>"

text \<open>
  C25.  A command answers or fails.  Whatever the configuration, the directories, the opening of the
  database, its migration and the command do, the connection is closed when the command ends, and
  either exactly the command's answer is printed, or nothing is and its error is reported with exit
  status 1; the answer is the one the command gives on the migrated data.
\<close>

theorem command_answers_or_fails:
  assumes "\<not> hdOpen h" and "main message (command_action host ce cmd) (h, sh) = (h', sh')"
  shows "\<not> hdOpen h' \<and>
    ((\<exists>out. answered sh out sh' \<and>
        (\<exists>cfg s d d'. chConfig host = Inr cfg \<and>
           migrate (oeExec (chOpen host cfg)) (oeSha (chOpen host cfg)) (oeNow (chOpen host cfg))
             (oeMigrations (chOpen host cfg)) (hdSchema h) = (Inr (), s) \<and>
           cli_run (ce cfg) cmd (scData s) = (Inr out, d') \<and> scData (hdSchema h') = d')) \<or>
     (\<exists>e. failed sh (message e) sh' \<and> fst (in_context host (\<lambda>cfg. cli_run (ce cfg) cmd) h) = Inl e))"
proof -
  let ?m = "in_context host (\<lambda>cfg. cli_run (ce cfg) cmd)"
  obtain r h1 where m: "?m h = (r, h1)" by (cases "?m h")
  have closed: "\<not> hdOpen h1" using context_left_closed [OF assms(1)] m by (metis after_def snd_conv)
  have x: "(h', sh') = (case r of
      Inl e \<Rightarrow> (h1, sh\<lparr>shErrors := shErrors sh @ [''Error: '' @ message e], shExit := 1\<rparr>)
    | Inr out \<Rightarrow> (h1, sh\<lparr>shPrinted := shPrinted sh @ [PrintAnswer out]\<rparr>))"
    using assms(2) m by (auto simp: command_action_def run_main run_bind run_on_fst run_emit after_def split: sum.split)
  show ?thesis
  proof (cases r)
    case (Inl e)
    with x m closed show ?thesis by (auto simp: failed_def)
  next
    case (Inr out)
    with x have "h' = h1" "answered sh out sh'" by (simp_all add: answered_def)
    with in_context_Inr [OF assms(1), of host "\<lambda>cfg. cli_run (ce cfg) cmd" out h1] m Inr closed
    show ?thesis by blast
  qed
qed

text \<open>The diagnostics exit with 0 exactly when the configuration loads and no check has failed.\<close>

lemma unhealthy_iff: "crHealthy (buildReport items now) \<longleftrightarrow> (\<forall>i \<in> set items. ciSeverity i \<noteq> CheckFail)"
  by (auto simp: buildReport_def Let_def severity_count_def filter_empty_conv)

lemma reported: "crChecks (buildReport items now) = items"
  by (simp add: buildReport_def Let_def)

lemma check_exit_status:
  assumes "shExit sh = 0" and "main message (check_action h g ce) (machine, sh) = (machine', sh')"
  shows "machine' = machine \<and> shErrors sh' = shErrors sh \<and> length (shPrinted sh') = Suc (length (shPrinted sh)) \<and>
    (shExit sh' = 0 \<longleftrightarrow> (\<exists>cfg. getConfig h g (isFiles machine) = Inr cfg \<and>
       (\<forall>i \<in> set (crChecks (runSystemCheck ce cfg)). ciSeverity i \<noteq> CheckFail)))"
proof -
  have "main message (check_action h g ce) (machine, sh) =
      (machine, (let sh1 = sh\<lparr>shPrinted := shPrinted sh @
          [if shJson sh then PrintReport (check_of h g ce (isFiles machine))
           else PrintText (formatCheckReport (check_of h g ce (isFiles machine)))]\<rparr>
        in if crHealthy (check_of h g ce (isFiles machine)) then sh1 else sh1\<lparr>shExit := 1\<rparr>))"
    by (simp add: run_main check_action_def show_report_def run_bind run_emit run_exit_with Let_def)
  moreover have "crHealthy (check_of h g ce files) \<longleftrightarrow> (\<exists>cfg. getConfig h g files = Inr cfg \<and>
       (\<forall>i \<in> set (crChecks (runSystemCheck ce cfg)). ciSeverity i \<noteq> CheckFail))" for files
    by (cases "getConfig h g files")
      (simp_all only: check_of_def sum.case failedCheckReport_def runSystemCheck_def unhealthy_iff reported,
       auto simp: item_def)
  ultimately show ?thesis using assms by (auto simp: Let_def split: if_splits)
qed

section \<open>A command on the sample database\<close>

definition sample_open :: "world open_env" where
  "sample_open = \<lparr>oePath = '':memory:'', oeMkdir = None, oeOpen = None, oeExec = (\<lambda>_ d. Inr d),
     oeSha = id, oeNow = ''2026'', oeMigrations = []\<rparr>"

definition sample_command_host :: "world command_host" where
  "sample_command_host =
     \<lparr>chConfig = Inr sample_config, chDirectories = (\<lambda>_. None), chOpen = (\<lambda>_. sample_open)\<rparr>"

definition closed_handle :: "world handle" where
  "closed_handle = \<lparr>hdOpen = False, hdPragmas = [],
     hdSchema = \<lparr>scRows = [], scData = (sample_db, sample_files)\<rparr>\<rparr>"

definition fresh_shell :: shell where
  "fresh_shell = \<lparr>shJson = False, shPrinted = [], shErrors = [], shExit = 0\<rparr>"

theorem command_answers_or_fails_witness:
  "shExit (snd (main (\<lambda>_. ''no such job'') (command_action sample_command_host (\<lambda>_. sample_cli) (CliCancel ''x''))
     (closed_handle, fresh_shell))) = 1"
proof -
  let ?x = "main (\<lambda>_. ''no such job'') (command_action sample_command_host (\<lambda>_. sample_cli) (CliCancel ''x''))
     (closed_handle, fresh_shell)"
  have h: "\<not> hdOpen closed_handle" by (simp add: closed_handle_def)
  have "shPrinted (snd ?x) = []" by code_simp
  then have "\<not> answered fresh_shell out (snd ?x)" for out by (auto simp: answered_def fresh_shell_def)
  with command_answers_or_fails [OF h, of "\<lambda>_. ''no such job''" sample_command_host "\<lambda>_. sample_cli"
      "CliCancel ''x''" fresh_shell "fst ?x" "snd ?x"]
  show ?thesis by (auto simp: failed_def)
qed

end
