(* ===== verification/SmokeScripts.thy ===== *)
theory SmokeScripts
  imports CliFacts
begin

text \<open>
  The smoke scripts of \<open>src/scripts\<close> as programs over the model: \<open>smoke-dry-run.ts\<close> sends through the
  command line with a dry-run configuration, \<open>smoke-recovery.ts\<close> interrupts a delivery, and
  \<open>smoke-retry.ts\<close> lets deliveries fail.  An assertion of a script throws.  Each script passes on a
  fresh database, whatever the digest, the identifiers, the clocks and the other files are.  The
  context a script closes and opens again has no state of its own.
\<close>

definition claim_that :: "bool \<Rightarrow> string \<Rightarrow> ('s, error, unit) io" where
  "claim_that condition message = (if condition then ret () else throw (PlainError message))"

definition group_jid :: string where
  "group_jid = ''120363000000000000@g.us''"

definition found_group :: "string \<Rightarrow> discovered_destination" where
  "found_group subject = \<lparr>ddJid = group_jid, ddSubject = subject, ddDescription = None, ddOwnerJid = None,
     ddParticipantCount = None, ddAddressingMode = None, ddCanSend = None\<rparr>"

definition smoke_config :: app_config where
  "smoke_config =
     \<lparr>cfgDatabasePath = ''/root/app.db'', cfgStateDir = ''/root'', cfgMediaDir = ''/root/media'',
      cfgLockPath = ''/root/lock'', cfgLogLevel = ''silent'', cfgTimezone = ''UTC'', cfgDryRun = False,
      cfgWorkerPollMs = 50, cfgSendIntervalMs = 0, cfgMaxAttempts = 3, cfgRetryBaseMs = 100,
      cfgRetryMaxMs = 1000, cfgMaxMediaBytes = 1000000, cfgSelfControllerEnabled = False,
      cfgPairingPhone = None\<rparr>"

section \<open>Dry run\<close>

definition dry_smoke_config :: app_config where
  "dry_smoke_config =
     \<lparr>cfgDatabasePath = ''/root/app.db'', cfgStateDir = ''/root'', cfgMediaDir = ''/root/media'',
      cfgLockPath = ''/root/daemon.lock'', cfgLogLevel = ''silent'', cfgTimezone = ''Asia/Tehran'',
      cfgDryRun = True, cfgWorkerPollMs = 50, cfgSendIntervalMs = 0, cfgMaxAttempts = 3,
      cfgRetryBaseMs = 100, cfgRetryMaxMs = 1000, cfgMaxMediaBytes = 10000000,
      cfgSelfControllerEnabled = False, cfgPairingPhone = None\<rparr>"

record dry_smoke =
  dsCli :: "nat \<Rightarrow> cli_env"
  dsNow :: string
  dsImage :: string

definition smoke_send :: "string option \<Rightarrow> string option \<Rightarrow> string option \<Rightarrow> bool \<Rightarrow> send_options" where
  "smoke_send t file caption force =
     \<lparr>soDestination = ''dry-run-test'', soText = t, soFile = file, soCaption = caption,
      soFilename = None, soAt = None, soForce = force\<rparr>"

text \<open>The output names the state of the job.\<close>

definition simulated :: "cli_output \<Rightarrow> bool" where
  "simulated out =
     (case out of OutSimulated p (Some j) n \<Rightarrow> pjStatus j = DRY_RUN | _ \<Rightarrow> False)"

definition suppressed :: "cli_output \<Rightarrow> bool" where
  "suppressed out = (case out of OutDuplicate j \<Rightarrow> True | _ \<Rightarrow> False)"

definition dry_smoke_checks :: "dry_smoke \<Rightarrow> unit db_io" where
  "dry_smoke_checks e =
     bindE (readE (list_jobs [] 20)) (\<lambda>jobs.
     bindE (claim_that (length jobs = 3) ''expected 3 intentional jobs'') (\<lambda>_.
     bindE (claim_that (list_all (\<lambda>j. jStatus j = DRY_RUN) jobs) ''not all jobs are DRY_RUN'') (\<lambda>_.
     bindE (claim_that (list_all (\<lambda>j. case jRemoteMessageId j of None \<Rightarrow> False
         | Some m \<Rightarrow> take 7 m = ''dryrun:'') jobs) ''fake IDs are not explicit'') (\<lambda>_.
     bindE (claim_that (case find_first (\<lambda>j. jPayloadType j = PT_image) jobs of None \<Rightarrow> False
         | Some j \<Rightarrow> truthy (jMediaHash j) \<and> truthy (jMediaPath j)) ''media was not hashed and staged'') (\<lambda>_.
     bindE (readE (audit_list 100)) (\<lambda>events.
     bindE (claim_that (length (filter (\<lambda>a. aEventType a = ''dry_run_executed'') events) = 3)
         ''dry-run audit events missing'') (\<lambda>_.
     bindE (readE (hasCredentials (clJson (dsCli e 0)))) (\<lambda>available.
     claim_that (\<not> available) ''offline dry-run unexpectedly created auth state''))))))))"

definition smoke_dry_run :: "dry_smoke \<Rightarrow> unit world_io" where
  "smoke_dry_run e =
     (let t = Some ''SajadBot WhatsApp dry-run test'' in
      bindE (on_fst (synchronize [found_group ''Offline Dry Run''] ''smoke'' (dsNow e))) (\<lambda>_.
      bindE (on_fst (setAlias group_jid (Some ''dry-run-test'') ''smoke'' (dsNow e))) (\<lambda>_.
      bindE (on_fst (setEnabled ''dry-run-test'' True ''smoke'' (dsNow e))) (\<lambda>_.
      bindE (cli_run (dsCli e 0) (CliSend (smoke_send t None None False))) (\<lambda>first_out.
      bindE (cli_run (dsCli e 1) (CliSend (smoke_send t None None False))) (\<lambda>duplicate.
      bindE (cli_run (dsCli e 2) (CliSend (smoke_send t None None True))) (\<lambda>forced.
      bindE (cli_run (dsCli e 3) (CliSend (smoke_send None (Some (dsImage e)) (Some ''media dry-run'') False))) (\<lambda>media.
      bindE (claim_that (simulated first_out) ''text job did not reach DRY_RUN'') (\<lambda>_.
      bindE (claim_that (suppressed duplicate) ''duplicate was not suppressed'') (\<lambda>_.
      bindE (claim_that (simulated forced) ''--force did not create a simulated job'') (\<lambda>_.
      bindE (claim_that (simulated media) ''media job did not reach DRY_RUN'') (\<lambda>_.
      on_fst (dry_smoke_checks e)))))))))))))"

section \<open>Recovery\<close>

record worker_smoke =
  wsMessages :: message_env
  wsCall :: "nat \<Rightarrow> call_env"
  wsStamp :: string
  wsRound :: "int \<Rightarrow> worker_env"

text \<open>A worker of its own beside the database, and the fake transport at one of its answers.\<close>

definition fake_transport :: "fake_outcome list \<Rightarrow> transport" where
  "fake_transport outcomes = \<lparr>trName = ''fake'', trSend = (\<lambda>j s. fst (fake_send j outcomes))\<rparr>"

definition smoke_round :: "worker_smoke \<Rightarrow> int \<Rightarrow> fake_outcome list \<Rightarrow> bool option worker_io" where
  "smoke_round e now outcomes =
     processOnce ((wsRound e now)\<lparr>weTransport := fake_transport outcomes, weConfig := smoke_config\<rparr>) None"

definition open_group :: "worker_smoke \<Rightarrow> string \<Rightarrow> unit db_io" where
  "open_group e subject =
     bindE (synchronize [found_group subject] ''daemon'' (wsStamp e)) (\<lambda>_.
     bindE (setEnabled group_jid True ''cli'' (wsStamp e)) (\<lambda>_. ret ()))"

text \<open>A message without a file does not touch the files.\<close>

definition enqueue_text :: "worker_smoke \<Rightarrow> nat \<Rightarrow> string \<Rightarrow> queue_result db_io" where
  "enqueue_text e n t =
     (\<lambda>s. case enqueue (wsMessages e) (wsCall e n)
         \<lparr>rqDestination = group_jid, rqText = Some t, rqMediaPath = None, rqFilename = None,
          rqScheduledAt = None, rqForce = False, rqActor = None, rqOptions = [], rqBatchId = None,
          rqDryRun = None\<rparr> (s, Map.empty) of
        (r, (u, fs)) \<Rightarrow> (r, u))"

definition smoke_recovery :: "worker_smoke \<Rightarrow> int \<Rightarrow> unit worker_io" where
  "smoke_recovery e now =
     bindE (on_fst (open_group e ''Recovery'')) (\<lambda>_.
     bindE (on_fst (enqueue_text e 0 ''uncertain delivery'')) (\<lambda>created.
     bindE (on_fst (claimNext (wsStamp e) False)) (\<lambda>_.
     bindE (on_fst (recoverStaleProcessing (wsStamp e))) (\<lambda>recovered.
     bindE (smoke_round e now []) (\<lambda>processed.
     bindE (claim_that (recovered = 1) ''expected one recovered job'') (\<lambda>_.
     bindE (on_fst (job_get (jUuid (qrJob created)))) (\<lambda>job.
     bindE (claim_that (map_option jStatus job = Some REVIEW_REQUIRED) ''job was not quarantined'') (\<lambda>_.
     bindE (readE (\<lambda>(s, w). wkSent w)) (\<lambda>calls.
     bindE (claim_that (processed = Some False \<and> calls = []) ''recovered job was automatically resent'') (\<lambda>_.
     bindE (on_fst (markSent (jUuid (qrJob created)) ''smoke'' (wsStamp e))) (\<lambda>resolved.
     claim_that (jStatus resolved = SENT) ''manual resolution failed'')))))))))))"

section \<open>Retries\<close>

definition read_time :: "worker_smoke \<Rightarrow> string option \<Rightarrow> int" where
  "read_time e t = or_else (weParse (wsRound e 0) (or_else t [])) 0"

definition smoke_retry :: "worker_smoke \<Rightarrow> int \<Rightarrow> unit worker_io" where
  "smoke_retry e now =
     bindE (on_fst (open_group e ''Retry'')) (\<lambda>_.
     bindE (on_fst (enqueue_text e 0 ''retry smoke'')) (\<lambda>created.
     bindE (smoke_round e now [FakeError (fresh_error TEMPORARY_NETWORK ''simulated network error''),
         FakeResult \<lparr>srRemoteMessageId = Some ''fake:success'', srDryRun = False\<rparr>]) (\<lambda>_.
     bindE (on_fst (job_get (jUuid (qrJob created)))) (\<lambda>retry.
     bindE (claim_that (case retry of None \<Rightarrow> False | Some j \<Rightarrow> jStatus j = RETRY \<and> truthy (jNextAttemptAt j))
         ''attempt 1 did not persist RETRY'') (\<lambda>_.
     bindE (ret (read_time e (case retry of None \<Rightarrow> None | Some j \<Rightarrow> jNextAttemptAt j) + 1)) (\<lambda>next.
     bindE (smoke_round e next [FakeResult \<lparr>srRemoteMessageId = Some ''fake:success'', srDryRun = False\<rparr>]) (\<lambda>_.
     bindE (on_fst (job_get (jUuid (qrJob created)))) (\<lambda>sent.
     bindE (claim_that (case sent of None \<Rightarrow> False | Some j \<Rightarrow> jStatus j = SENT \<and> jAttemptCount j = 2)
         ''attempt 2 did not succeed'') (\<lambda>_.
     bindE (on_fst (enqueue_text e 1 ''auth pause smoke'')) (\<lambda>authJob.
     bindE (on_snd (writeE (\<lambda>_. idle_worker))) (\<lambda>_.
     bindE (smoke_round e next [FakeError (fresh_error AUTH_REQUIRED ''simulated auth error'')]) (\<lambda>_.
     bindE (on_fst (job_get (jUuid (qrJob authJob)))) (\<lambda>authState.
     bindE (claim_that (map_option jStatus authState = Some RETRY) ''auth job was not safely preserved'') (\<lambda>_.
     bindE (on_fst (readE (state_get pause_reason))) (\<lambda>reason.
     claim_that (reason = Some ''AUTH_REQUIRED'') ''worker did not pause for auth'')))))))))))))))"

section \<open>Running a script\<close>

text \<open>The definitions a script runs through; a computation is simplified before what follows it.\<close>

lemmas statement_defs = active_keys_def after_def alias_keys_def asSendableJob_def
  assertJobTransition_def atomically_def can_transition_def catchE_def finallyE_def
  immediateTransaction_def insertAudit_def insert_job_def is_active_def is_digit_def
  is_lower_letter_def is_unsent_def is_upper_letter_def js_space_def js_trim_def nocase_def
  nocase_char_def on_fst_def on_snd_def or_else_def readE_def references_ok_def ret_def throw_def
  unsent_statuses_def update_jobs_def update_where_def writeE_def

lemmas repository_defs = alias_head_def alias_row_def alias_tail_def audit_add_def blocked_def
  cancelDisabled_def cancelled_row_def claim_def claimJob_def claimNext_def claim_candidate_def
  claim_order_def claimable_def claimed_row_def create_def destination_of_def discovered_row_def
  due_def findByIdempotencyKey_def from_to_def getByReference_def job_get_def json_opt_def
  markSent_def matches_reference_def media_get_def media_upsert_def moved_row_def named_def
  new_row_def no_options_def normalize_alias_def promoteDueScheduled_def
  recoverStaleProcessing_def refreshed_row_def removeIfUnreferenced_def resolve_def review_row_def
  sendable_def setAlias_def setCanSend_def setEnabled_def state_get_def state_remove_def
  state_set_def synchronize_def transition_def transition_audit_def unsendable_def
  update_destinations_def upsertDestination_def upsert_media_def upsert_rows_def

lemmas service_defs = after_pace_def as_delivery_error_def attempt_def chosen_transport_def
  claim_stage_def content_ok_def create_or_reuse_def decideRetry_def decision_for_def demand_def
  discard_staged_def dry_run_send_def dry_run_transport_def enqueue_def exponential_def
  fail_job_def failure_options_def fake_send_def fresh_error_def handleError_def in_future_def
  initial_status_def isGloballyPaused_def js_round_def later_than_def message_input_def
  message_job_def next_time_def now_at_def pace_def pause_for_auth_def pause_reason_def
  pause_until_def processOnce_def queue_staged_def refusal_def remove_file_def requestStop_def
  retryDelayMs_def save_staged_def schedule_identity_def scheduled_text_def send_stage_def
  sent_options_def settle_def shutdown_options_def stage_request_def stopped_def text_limit_def
  transient_classes_def truthy_def wait_for_retry_def wait_ms_def

lemmas script_defs = statement_defs repository_defs service_defs

lemma first_step: "m = n \<Longrightarrow> bindE m f = bindE n f"
  by simp

lemma run_step: "bindE m f s = (case m s of (Inl e, t) \<Rightarrow> (Inl e, t) | (Inr x, t) \<Rightarrow> f x t)"
  by (simp add: bindE_def)

lemma script_texts:
  "normalizeMessage (Some ''uncertain delivery'') = ''uncertain delivery''"
  "normalizeMessage (Some ''retry smoke'') = ''retry smoke''"
  "normalizeMessage (Some ''auth pause smoke'') = ''auth pause smoke''"
  by code_simp+

text \<open>
  What the scripts leave open: the identifiers are UUIDs and differ, the digest has no collision on these
  texts, and the worker's clock stands still during a round in which nobody else writes.
\<close>

definition script_env :: "worker_smoke \<Rightarrow> bool" where
  "script_env e \<longleftrightarrow>
     meConfig (wsMessages e) = smoke_config \<and> inj (meSha256 (wsMessages e)) \<and>
     (\<forall>n. dashed (ceUuid (wsCall e n))) \<and> inj (\<lambda>n. ceUuid (wsCall e n)) \<and>
     (\<forall>now. (\<forall>r. weClock (wsRound e now) r = now) \<and> reads_iso (weParse (wsRound e now)) \<and>
        weRandom (wsRound e now) = 1 / 2 \<and> weDuringPace (wsRound e now) = id \<and>
        weDuringSend (wsRound e now) = id)"

lemma script_envD:
  assumes "script_env e"
  shows "meConfig (wsMessages e) = smoke_config" "inj (meSha256 (wsMessages e))"
    "dashed (ceUuid (wsCall e n))" "ceUuid (wsCall e m) = ceUuid (wsCall e n) \<longleftrightarrow> m = n"
    "weClock (wsRound e now) r = now" "reads_iso (weParse (wsRound e now))"
    "weRandom (wsRound e now) = 1 / 2" "weDuringPace (wsRound e now) = id" "weDuringSend (wsRound e now) = id"
  using assms by (auto simp: script_env_def inj_def)

section \<open>The recovery script\<close>

text \<open>
  An interrupted delivery is set aside and not sent again, and the operator can settle it by hand: no
  assertion of the script fails.
\<close>

lemma smoke_recovery_passes:
  assumes "script_env e"
  shows "fst (smoke_recovery e now (empty_db, idle_worker)) = Inr ()"
  by (simp cong: first_step add: smoke_recovery_def open_group_def found_group_def group_jid_def
      smoke_config_def claim_that_def enqueue_text_def smoke_round_def fake_transport_def empty_db_def
      idle_worker_def script_envD [OF assms] script_texts script_defs run_step Let_def)

section \<open>The retry script\<close>

definition one_group :: "database \<Rightarrow> bool" where
  "one_group s \<longleftrightarrow> (\<exists>d. dbDestinations s = [d] \<and> dJid d = group_jid \<and> dEnabled d \<and> dCanSend d)"

definition not_paused :: "database \<Rightarrow> bool" where
  "not_paused s \<longleftrightarrow> dbAppState s pause_reason = None \<and> dbAppState s pause_until = None"

definition script_job :: "queue_job \<Rightarrow> bool" where
  "script_job j \<longleftrightarrow> jDestinationJid j = group_jid \<and> jPayloadType j = PT_text \<and> jText j \<noteq> None \<and>
     jForwardSourceKey j = None \<and> \<not> jDryRun j \<and> jMediaPath j = None \<and> dashed (jUuid j) \<and> jMaxAttempts j = 3"

definition script_key :: "worker_smoke \<Rightarrow> string \<Rightarrow> string" where
  "script_key e t = buildIdempotencyKey (meSha256 (wsMessages e)) (meSortOptions (wsMessages e))
     \<lparr>iiDestinationJid = group_jid, iiPayloadType = PT_text, iiText = t, iiMediaHash = None,
      iiScheduleIdentity = ''IMMEDIATE'', iiFilename = None, iiOptions = [], iiForceNonce = None,
      iiDryRun = False\<rparr>"

lemma script_key_eq: "script_env e \<Longrightarrow> script_key e x = script_key e y \<longleftrightarrow> x = y"
  by (simp add: script_key_def buildIdempotencyKey_def inj_eq script_envD(2) quote_inj stringify_inj canonical_def)

lemma one_groupD: "one_group s \<Longrightarrow> \<exists>d. dbDestinations s = [d] \<and> dJid d = ''120363000000000000@g.us'' \<and> dEnabled d \<and> dCanSend d"
  by (simp add: one_group_def group_jid_def)

lemma group_opened:
  "\<exists>s. open_group e subject empty_db = (Inr (), s) \<and> one_group s \<and> not_paused s \<and>
    dbJobs s = [] \<and> dbJobSeq s = 0"
  by (simp cong: first_step add: open_group_def found_group_def group_jid_def empty_db_def one_group_def
      not_paused_def script_defs run_step)

lemma enqueued:
  assumes e: "script_env e" and g: "one_group s" and t: "normalizeMessage (Some t) = t" "t \<noteq> []" "length t \<le> 100"
    and js: "dbJobs s = [] \<or> dbJobs s = [i] \<and> script_job i \<and> ceUuid (wsCall e n) \<noteq> jUuid i \<and>
      script_key e t \<noteq> jIdempotencyKey i"
  shows "\<exists>u j. enqueue_text e n t s = (Inr \<lparr>qrJob = j, qrDuplicate = False\<rparr>, u) \<and> dbJobs u = dbJobs s @ [j] \<and>
    script_job j \<and> jStatus j = PENDING \<and> jAttemptCount j = 0 \<and> jUuid j = ceUuid (wsCall e n) \<and>
    jId j = Suc (dbJobSeq s) \<and> dbJobSeq u = Suc (dbJobSeq s) \<and> jIdempotencyKey j = script_key e t \<and>
    dbDestinations u = dbDestinations s \<and> dbAppState u = dbAppState s"
proof -
  obtain d where d: "dbDestinations s = [d]" "dJid d = ''120363000000000000@g.us''" "dEnabled d" "dCanSend d"
    using one_groupD [OF g] by blast
  show ?thesis
    using js t
    by (elim disjE) (clarsimp cong: first_step simp: d enqueue_text_def group_jid_def script_job_def script_key_def
      smoke_config_def script_envD [OF e] script_defs run_step Let_def dashed_not_number dashed_not_number [symmetric])+
qed

lemma fails_once:
  assumes e: "script_env e" and g: "one_group s" "not_paused s" and j: "dbJobs s = [j]" "script_job j"
    "jStatus j = PENDING" "jAttemptCount j = 0"
  shows "\<exists>t w j'. smoke_round e now [FakeError (fresh_error TEMPORARY_NETWORK m), r] (s, idle_worker) =
      (Inr (Some True), (t, w)) \<and> dbJobs t = [j'] \<and> script_job j' \<and> jStatus j' = RETRY \<and> jAttemptCount j' = 1 \<and>
    jUuid j' = jUuid j \<and> jId j' = jId j \<and> dbJobSeq t = dbJobSeq s \<and>
    jIdempotencyKey j' = jIdempotencyKey j \<and>
    jNextAttemptAt j' = Some (toISOString (now + 100)) \<and> one_group t \<and> not_paused t \<and> \<not> wkStopping w"
proof -
  obtain d where d: "dbDestinations s = [d]" "dJid d = ''120363000000000000@g.us''" "dEnabled d" "dCanSend d"
    using one_groupD [OF g(1)] by blast
  show ?thesis
    using g(2) j(2)
    by (clarsimp cong: first_step simp: script_job_def group_jid_def one_group_def not_paused_def d j smoke_round_def
      fake_transport_def idle_worker_def smoke_config_def script_envD [OF e] script_defs run_step Let_def)
qed

lemma sent_then:
  assumes e: "script_env e" and g: "one_group s" "not_paused s" and j: "dbJobs s = [j]" "script_job j"
    "jStatus j = RETRY" "jAttemptCount j = 1" "jNextAttemptAt j = Some next" "next \<le> toISOString now"
    and w: "\<not> wkStopping w"
  shows "\<exists>t w' j'. smoke_round e now [FakeResult \<lparr>srRemoteMessageId = Some m, srDryRun = False\<rparr>] (s, w) =
      (Inr (Some True), (t, w')) \<and> dbJobs t = [j'] \<and> script_job j' \<and> jStatus j' = SENT \<and> jAttemptCount j' = 2 \<and>
    jUuid j' = jUuid j \<and> jId j' = jId j \<and> dbJobSeq t = dbJobSeq s \<and>
    jIdempotencyKey j' = jIdempotencyKey j \<and> one_group t \<and> not_paused t"
proof -
  obtain d where d: "dbDestinations s = [d]" "dJid d = ''120363000000000000@g.us''" "dEnabled d" "dCanSend d"
    using one_groupD [OF g(1)] by blast
  show ?thesis
    using g(2) j(2)
    by (clarsimp cong: first_step simp: script_job_def group_jid_def one_group_def not_paused_def d j w smoke_round_def
      fake_transport_def smoke_config_def script_envD [OF e] script_defs run_step Let_def)
qed

lemma pauses_then:
  assumes e: "script_env e" and g: "one_group s" "not_paused s" and j: "dbJobs s = [i, j]" "script_job j"
    "jStatus j = PENDING" "jAttemptCount j = 0" and i: "jStatus i = SENT" "script_job i" "jUuid i \<noteq> jUuid j" "jId i \<noteq> jId j"
      "jIdempotencyKey i \<noteq> jIdempotencyKey j"
  shows "\<exists>t w' j'. smoke_round e now [FakeError (fresh_error AUTH_REQUIRED m)] (s, idle_worker) =
      (Inr (Some True), (t, w')) \<and> dbJobs t = [i, j'] \<and> jStatus j' = RETRY \<and> jUuid j' = jUuid j \<and>
    state_get pause_reason t = Some ''AUTH_REQUIRED''"
proof -
  obtain d where d: "dbDestinations s = [d]" "dJid d = ''120363000000000000@g.us''" "dEnabled d" "dCanSend d"
    using one_groupD [OF g(1)] by blast
  show ?thesis
    using g(2) j(2) i(2)
    by (clarsimp cong: first_step simp: script_job_def group_jid_def one_group_def not_paused_def d j i i(3-5) [symmetric] idle_worker_def smoke_round_def
      fake_transport_def smoke_config_def script_envD [OF e] script_defs run_step Let_def dashed_not_number dashed_not_number [symmetric])
qed

text \<open>
  The retry script passes, whatever the identifiers, the digest and the clock of the commands: a temporary
  failure leaves the job waiting, the next attempt sends it, and a lost authorisation keeps the job and
  pauses the worker.
\<close>

lemma own_job: "dbJobs s = [j] \<Longrightarrow> job_get (jUuid j) s = (Inr (Some j), s)"
  by (simp add: job_get_def getByReference_def readE_def)

lemma second_job:
  "dbJobs s = [i, j] \<Longrightarrow> dashed (jUuid j) \<Longrightarrow> jUuid i \<noteq> jUuid j \<Longrightarrow> job_get (jUuid j) s = (Inr (Some j), s)"
  by (simp add: job_get_def getByReference_def readE_def dashed_not_number)

definition network_failure :: fake_outcome where
  "network_failure = FakeError (fresh_error TEMPORARY_NETWORK ''simulated network error'')"

definition success :: fake_outcome where
  "success = FakeResult \<lparr>srRemoteMessageId = Some ''fake:success'', srDryRun = False\<rparr>"

lemma second_attempt_sends:
  assumes e: "script_env e" and now: "four_digit_time (now + 100)" "four_digit_time (now + 101)"
  shows "\<exists>s0 s1 s2 s3 w w3 j j2 j3. open_group e ''Retry'' empty_db = (Inr (), s0) \<and>
    enqueue_text e 0 ''retry smoke'' s0 = (Inr \<lparr>qrJob = j, qrDuplicate = False\<rparr>, s1) \<and>
    smoke_round e now [network_failure, success] (s1, idle_worker) = (Inr (Some True), (s2, w)) \<and>
    job_get (jUuid j) s2 = (Inr (Some j2), s2) \<and> jStatus j2 = RETRY \<and>
    jNextAttemptAt j2 = Some (toISOString (now + 100)) \<and>
    smoke_round e (now + 101) [success] (s2, w) = (Inr (Some True), (s3, w3)) \<and>
    job_get (jUuid j) s3 = (Inr (Some j3), s3) \<and> jStatus j3 = SENT \<and> jAttemptCount j3 = 2 \<and>
    dbJobs s3 = [j3] \<and> script_job j3 \<and> jUuid j3 = ceUuid (wsCall e 0) \<and> jId j3 = 1 \<and> dbJobSeq s3 = 1 \<and>
    jIdempotencyKey j3 = script_key e ''retry smoke'' \<and> one_group s3 \<and> not_paused s3"
proof -
  obtain s0 where s0: "open_group e ''Retry'' empty_db = (Inr (), s0)" "one_group s0" "not_paused s0"
    "dbJobs s0 = []" "dbJobSeq s0 = 0"
    using group_opened by blast
  obtain s1 j where s1: "enqueue_text e 0 ''retry smoke'' s0 = (Inr \<lparr>qrJob = j, qrDuplicate = False\<rparr>, s1)"
    "dbJobs s1 = [j]" "script_job j" "jStatus j = PENDING" "jAttemptCount j = 0" "jUuid j = ceUuid (wsCall e 0)"
    "jId j = 1" "dbJobSeq s1 = 1" "jIdempotencyKey j = script_key e ''retry smoke''" "one_group s1" "not_paused s1"
    using enqueued [OF e s0(2), of "''retry smoke''" undefined 0] s0(2-5) script_texts(2)
    by (auto simp: one_group_def not_paused_def)
  obtain s2 w j2 where s2: "smoke_round e now [network_failure, success] (s1, idle_worker) = (Inr (Some True), (s2, w))"
    "dbJobs s2 = [j2]" "script_job j2" "jStatus j2 = RETRY" "jAttemptCount j2 = 1" "jUuid j2 = jUuid j" "jId j2 = jId j"
    "dbJobSeq s2 = dbJobSeq s1" "jIdempotencyKey j2 = jIdempotencyKey j"
    "jNextAttemptAt j2 = Some (toISOString (now + 100))" "one_group s2" "not_paused s2" "\<not> wkStopping w"
    using fails_once [OF e s1(10,11,2-5)] unfolding network_failure_def success_def by blast
  have later: "toISOString (now + 100) \<le> toISOString (now + 101)"
    using toISOString_less [OF now] by simp
  obtain s3 w3 j3 where s3: "smoke_round e (now + 101) [success] (s2, w) = (Inr (Some True), (s3, w3))"
    "dbJobs s3 = [j3]" "script_job j3" "jStatus j3 = SENT" "jAttemptCount j3 = 2" "jUuid j3 = jUuid j2" "jId j3 = jId j2"
    "dbJobSeq s3 = dbJobSeq s2" "jIdempotencyKey j3 = jIdempotencyKey j2" "one_group s3" "not_paused s3"
    using sent_then [OF e s2(11,12,2-5,10) later s2(13)] unfolding success_def by blast
  have "job_get (jUuid j) s2 = (Inr (Some j2), s2)" "job_get (jUuid j) s3 = (Inr (Some j3), s3)"
    using own_job [OF s2(2)] own_job [OF s3(2)] s2(6) s3(6) by simp_all
  with s0(1) s1(1,6-9) s2(1,4,6-10) s3 show ?thesis by metis
qed

lemma lost_authorisation_pauses:
  assumes e: "script_env e" and g: "one_group s" "not_paused s"
    and i: "dbJobs s = [i]" "script_job i" "jStatus i = SENT" "jUuid i = ceUuid (wsCall e 0)" "jId i = 1"
      "dbJobSeq s = 1" "jIdempotencyKey i = script_key e ''retry smoke''"
  shows "\<exists>s4 s5 w5 k k5. enqueue_text e 1 ''auth pause smoke'' s = (Inr \<lparr>qrJob = k, qrDuplicate = False\<rparr>, s4) \<and>
    smoke_round e now [FakeError (fresh_error AUTH_REQUIRED ''simulated auth error'')] (s4, idle_worker) =
      (Inr (Some True), (s5, w5)) \<and>
    job_get (jUuid k) s5 = (Inr (Some k5), s5) \<and> jStatus k5 = RETRY \<and>
    state_get pause_reason s5 = Some ''AUTH_REQUIRED''"
proof -
  have fresh: "ceUuid (wsCall e 1) \<noteq> jUuid i" "script_key e ''auth pause smoke'' \<noteq> jIdempotencyKey i"
    using i(4,7) script_envD(4) [OF e] by (simp_all add: script_key_eq [OF e])
  obtain s4 k where s4: "enqueue_text e 1 ''auth pause smoke'' s = (Inr \<lparr>qrJob = k, qrDuplicate = False\<rparr>, s4)"
    "dbJobs s4 = [i, k]" "script_job k" "jStatus k = PENDING" "jAttemptCount k = 0" "jUuid k = ceUuid (wsCall e 1)"
    "jId k = 2" "jIdempotencyKey k = script_key e ''auth pause smoke''" "one_group s4" "not_paused s4"
    using enqueued [OF e g(1), of "''auth pause smoke''" i 1] g i script_texts(3) fresh
    by (auto simp: one_group_def not_paused_def)
  have apart: "jUuid i \<noteq> jUuid k" "jId i \<noteq> jId k" "jIdempotencyKey i \<noteq> jIdempotencyKey k"
    using fresh s4(6-8) i(5) by auto
  obtain s5 w5 k5 where s5: "smoke_round e now [FakeError (fresh_error AUTH_REQUIRED ''simulated auth error'')]
      (s4, idle_worker) = (Inr (Some True), (s5, w5))" "dbJobs s5 = [i, k5]" "jStatus k5 = RETRY"
    "jUuid k5 = jUuid k" "state_get pause_reason s5 = Some ''AUTH_REQUIRED''"
    using pauses_then [OF e s4(9,10,2-5) i(3,2) apart] by blast
  have "job_get (jUuid k) s5 = (Inr (Some k5), s5)"
    using second_job [OF s5(2)] s5(4) s4(3) apart(1) by (simp add: script_job_def)
  with s4(1) s5(1,3,5) show ?thesis by blast
qed

lemma smoke_retry_passes:
  assumes e: "script_env e" and now: "four_digit_time (now + 100)" "four_digit_time (now + 101)"
  shows "fst (smoke_retry e now (empty_db, idle_worker)) = Inr ()"
proof -
  obtain s0 s1 s2 s3 w w3 j j2 j3 where a: "open_group e ''Retry'' empty_db = (Inr (), s0)"
    "enqueue_text e 0 ''retry smoke'' s0 = (Inr \<lparr>qrJob = j, qrDuplicate = False\<rparr>, s1)"
    "smoke_round e now [network_failure, success] (s1, idle_worker) = (Inr (Some True), (s2, w))"
    "job_get (jUuid j) s2 = (Inr (Some j2), s2)" "jStatus j2 = RETRY"
    "jNextAttemptAt j2 = Some (toISOString (now + 100))"
    "smoke_round e (now + 101) [success] (s2, w) = (Inr (Some True), (s3, w3))"
    "job_get (jUuid j) s3 = (Inr (Some j3), s3)" "jStatus j3 = SENT" "jAttemptCount j3 = 2"
    and b: "dbJobs s3 = [j3]" "script_job j3" "jUuid j3 = ceUuid (wsCall e 0)" "jId j3 = 1" "dbJobSeq s3 = 1"
    "jIdempotencyKey j3 = script_key e ''retry smoke''" "one_group s3" "not_paused s3"
    using second_attempt_sends [OF e now] by blast
  obtain s4 s5 w5 k k5 where c: "enqueue_text e 1 ''auth pause smoke'' s3 = (Inr \<lparr>qrJob = k, qrDuplicate = False\<rparr>, s4)"
    "smoke_round e (now + 101) [FakeError (fresh_error AUTH_REQUIRED ''simulated auth error'')] (s4, idle_worker) =
      (Inr (Some True), (s5, w5))"
    "job_get (jUuid k) s5 = (Inr (Some k5), s5)" "jStatus k5 = RETRY" "state_get pause_reason s5 = Some ''AUTH_REQUIRED''"
    using lost_authorisation_pauses [OF e b(7,8,1,2) a(9) b(3-6)] by blast
  have "toISOString (now + 100) \<noteq> []" "weParse (wsRound e 0) (toISOString (now + 100)) = Some (now + 100)"
    using script_envD(6) [OF e] now(1) by (auto simp: reads_iso_def toISOString_def Let_def)
  then show ?thesis
    by (simp cong: first_step add: smoke_retry_def run_step on_fst_def on_snd_def readE_def writeE_def ret_def
        add.commute [of 101 now] a c [simplified] claim_that_def truthy_def read_time_def or_else_def network_failure_def [symmetric]
        success_def [symmetric])
qed

section \<open>The dry-run script\<close>

text \<open>
  Every command runs with the configuration of the environment file, on the same machine; its image is a
  file within the limit.
\<close>

definition dry_env :: "message_env \<Rightarrow> dry_smoke \<Rightarrow> bool" where
  "dry_env me e \<longleftrightarrow>
     cfgDryRun (meConfig me) \<and> cfgSendIntervalMs (meConfig me) = 0 \<and> 0 < cfgMaxAttempts (meConfig me) \<and>
     inj (meSha256 me) \<and>
     (\<forall>n. dashed (ceUuid (clCall (dsCli e n))) \<and> ceCopy (clCall (dsCli e n)) = Copied \<and>
        cmMessages (clCommand (dsCli e n)) = me \<and> (\<forall>p. weFileExists (clWorker (dsCli e n)) p) \<and>
        weDuringPace (clWorker (dsCli e n)) = id \<and> weDuringSend (clWorker (dsCli e n)) = id) \<and>
     inj (\<lambda>n. ceUuid (clCall (dsCli e n)))"

lemma dashed_nonempty: "dashed u \<Longrightarrow> u \<noteq> []"
  by (auto simp: dashed_def)

lemma dry_envD:
  assumes "dry_env me e"
  shows "cfgDryRun (meConfig me)" "cfgSendIntervalMs (meConfig me) = 0" "0 < cfgMaxAttempts (meConfig me)"
    "inj (meSha256 me)" "dashed (ceUuid (clCall (dsCli e n)))" "ceUuid (clCall (dsCli e n)) \<noteq> []"
    "ceCopy (clCall (dsCli e n)) = Copied" "cmMessages (clCommand (dsCli e n)) = me"
    "weFileExists (clWorker (dsCli e n)) p" "weDuringPace (clWorker (dsCli e n)) = id"
    "weDuringSend (clWorker (dsCli e n)) = id" "ceUuid (clCall (dsCli e m)) = ceUuid (clCall (dsCli e n)) \<longleftrightarrow> m = n"
  using assms dashed_nonempty by (auto simp: dry_env_def inj_def)

definition dry_group :: "database \<Rightarrow> bool" where
  "dry_group s \<longleftrightarrow> (\<exists>d. dbDestinations s = [d] \<and> dJid d = group_jid \<and> dEnabled d \<and> dCanSend d \<and>
     dAlias d = Some ''dry-run-test'')"

lemma dry_groupD:
  "dry_group s \<Longrightarrow> \<exists>d. dbDestinations s = [d] \<and> dJid d = ''120363000000000000@g.us'' \<and> dEnabled d \<and> dCanSend d \<and>
     dAlias d = Some ''dry-run-test''"
  by (simp add: dry_group_def group_jid_def)

definition simulations :: "database \<Rightarrow> nat" where
  "simulations s = length (filter (\<lambda>a. aEventType a = ''dry_run_executed'') (dbAudit s))"

text \<open>What a step leaves as it was, and how much it adds to the audit log.\<close>

definition same_tables :: "nat \<Rightarrow> database \<Rightarrow> database \<Rightarrow> bool" where
  "same_tables k s t \<longleftrightarrow> dbDestinations t = dbDestinations s \<and> dbAuthCreds t = dbAuthCreds s \<and>
     length (dbAudit t) = length (dbAudit s) + k"

text \<open>The job of a dry-run command before and after its round, and a job of an earlier command.\<close>

definition new_sim :: "string \<Rightarrow> string \<Rightarrow> nat \<Rightarrow> queue_job \<Rightarrow> bool" where
  "new_sim u key i j \<longleftrightarrow> jStatus j = PENDING \<and> jDryRun j \<and> jDestinationJid j = group_jid \<and> jAttemptCount j = 0 \<and>
     jForwardSourceKey j = None \<and> jUuid j = u \<and> jId j = i \<and> jIdempotencyKey j = key \<and> dashed u"

definition done_sim :: "queue_job \<Rightarrow> queue_job \<Rightarrow> bool" where
  "done_sim j j' \<longleftrightarrow> jStatus j' = DRY_RUN \<and> jUuid j' = jUuid j \<and> jId j' = jId j \<and>
     jIdempotencyKey j' = jIdempotencyKey j \<and> jRemoteMessageId j' = Some (''dryrun:'' @ jUuid j) \<and>
     jPayloadType j' = jPayloadType j \<and> jMediaHash j' = jMediaHash j \<and> jMediaPath j' = jMediaPath j"

definition earlier_sim :: "string \<Rightarrow> string \<Rightarrow> nat \<Rightarrow> queue_job \<Rightarrow> bool" where
  "earlier_sim u key n i \<longleftrightarrow> jStatus i = DRY_RUN \<and> dashed (jUuid i) \<and>
     u \<noteq> jUuid i \<and> jUuid i \<noteq> u \<and> n \<noteq> jId i \<and> jId i \<noteq> n \<and> key \<noteq> jIdempotencyKey i"

lemma dry_round_simulates:
  assumes e: "dry_env me e" and g: "dry_group s" and j: "new_sim u key m j"
    and js: "dbJobs s = [j] \<or> dbJobs s = [i, j] \<and> earlier_sim u key m i \<or>
      dbJobs s = [i, k, j] \<and> earlier_sim u key m i \<and> earlier_sim u key m k \<and> jIdempotencyKey i \<noteq> jIdempotencyKey k"
  shows "\<exists>t j'. dry_round (dsCli e n) u s = (Inr (True, 1), t) \<and> dbJobs t = butlast (dbJobs s) @ [j'] \<and>
    done_sim j j' \<and> simulations t = Suc (simulations s) \<and> same_tables 1 s t \<and> dbJobSeq t = dbJobSeq s \<and>
    dbMedia t = dbMedia s"
proof -
  obtain d where d: "dbDestinations s = [d]" "dJid d = ''120363000000000000@g.us''" "dEnabled d" "dCanSend d"
    using dry_groupD [OF g] by blast
  have f: "jStatus j = PENDING" "jDryRun j" "jDestinationJid j = ''120363000000000000@g.us''" "jAttemptCount j = 0"
    "jForwardSourceKey j = None" "jUuid j = u" "jId j = m" "jIdempotencyKey j = key" "dashed u" "u \<noteq> []"
    using j dashed_nonempty by (auto simp: new_sim_def group_jid_def)
  show ?thesis
    using js
    by (elim disjE) (clarsimp cong: first_step simp: f coalesce_def earlier_sim_def done_sim_def
        same_tables_def group_jid_def idle_worker_def simulations_def dry_round_def dry_worker_def d dry_envD [OF e]
        script_defs run_step Let_def dashed_not_number dashed_not_number [symmetric])+
qed

section \<open>Its commands\<close>

definition dry_text :: string where
  "dry_text = ''SajadBot WhatsApp dry-run test''"

definition text_key :: "message_env \<Rightarrow> string option \<Rightarrow> string" where
  "text_key me nonce = buildIdempotencyKey (meSha256 me) (meSortOptions me)
     \<lparr>iiDestinationJid = group_jid, iiPayloadType = PT_text, iiText = dry_text, iiMediaHash = None,
      iiScheduleIdentity = ''IMMEDIATE'', iiFilename = None, iiOptions = [], iiForceNonce = nonce,
      iiDryRun = True\<rparr>"

definition media_key :: "message_env \<Rightarrow> string \<Rightarrow> string" where
  "media_key me h = buildIdempotencyKey (meSha256 me) (meSortOptions me)
     \<lparr>iiDestinationJid = group_jid, iiPayloadType = PT_image, iiText = ''media dry-run'',
      iiMediaHash = Some h, iiScheduleIdentity = ''IMMEDIATE'', iiFilename = None, iiOptions = [],
      iiForceNonce = None, iiDryRun = True\<rparr>"

lemma dry_keys_differ:
  assumes "dry_env me e"
  shows "text_key me (Some u) \<noteq> text_key me None" "text_key me None \<noteq> text_key me (Some u)"
    "media_key me h \<noteq> text_key me nonce"
  by (simp_all only: text_key_def media_key_def buildIdempotencyKey_def inj_eq [OF dry_envD(4) [OF assms]]
      stringify_inj) (simp_all add: canonical_def json_text_def)

abbreviation dry_uuid :: "dry_smoke \<Rightarrow> nat \<Rightarrow> string" where
  "dry_uuid e n \<equiv> ceUuid (clCall (dsCli e n))"

abbreviation text_send :: "bool \<Rightarrow> send_options" where
  "text_send force \<equiv> smoke_send (Some dry_text) None None force"

lemma dry_texts:
  "normalizeMessage (Some ''SajadBot WhatsApp dry-run test'') = ''SajadBot WhatsApp dry-run test''"
  "normalizeMessage (Some ''media dry-run'') = ''media dry-run''"
  by code_simp+

lemma dry_enqueue:
  assumes e: "dry_env me e" and g: "dry_group s"
    and js: "dbJobs s = [] \<or>
      dbJobs s = [i] \<and> earlier_sim (dry_uuid e n) (text_key me (if b then Some (dry_uuid e n) else None)) (Suc (dbJobSeq s)) i"
  shows "\<exists>j t. enqueue me (clCall (dsCli e n)) (send_request (text_send b) None) (s, fs) =
      (Inr \<lparr>qrJob = j, qrDuplicate = False\<rparr>, (t, fs)) \<and> dbJobs t = dbJobs s @ [j] \<and>
    new_sim (dry_uuid e n) (text_key me (if b then Some (dry_uuid e n) else None)) (Suc (dbJobSeq s)) j \<and>
    jPayloadType j = PT_text \<and> simulations t = simulations s \<and> same_tables 1 s t \<and>
    dbJobSeq t = Suc (dbJobSeq s) \<and> dbMedia t = dbMedia s"
proof -
  obtain d where d: "dbDestinations s = [d]" "dJid d = ''120363000000000000@g.us''" "dEnabled d" "dCanSend d"
    "dAlias d = Some ''dry-run-test''"
    using dry_groupD [OF g] by blast
  show ?thesis
    using js
    by (elim disjE; cases b) (clarsimp cong: first_step simp: smoke_send_def send_request_def given_def text_key_def
        dry_text_def group_jid_def simulations_def new_sim_def earlier_sim_def same_tables_def d dry_envD [OF e]
        dry_texts script_defs run_step Let_def dashed_not_number dashed_not_number [symmetric])+
qed

lemma dry_duplicate:
  assumes e: "dry_env me e" and g: "dry_group s"
    and i: "dbJobs s = [i]" "jStatus i = DRY_RUN" "jIdempotencyKey i = text_key me None" "dashed (jUuid i)"
      "jUuid i \<noteq> dry_uuid e n"
  shows "enqueue me (clCall (dsCli e n)) (send_request (text_send False) None) (s, fs) =
    (Inr \<lparr>qrJob = i, qrDuplicate = True\<rparr>, (s, fs))"
proof -
  obtain d where d: "dbDestinations s = [d]" "dJid d = ''120363000000000000@g.us''" "dEnabled d" "dCanSend d"
    "dAlias d = Some ''dry-run-test''"
    using dry_groupD [OF g] by blast
  show ?thesis
    using i(5)
    by (clarsimp cong: first_step simp: smoke_send_def send_request_def given_def text_key_def dry_text_def
        group_jid_def i(1-4) d dry_envD [OF e] dry_texts script_defs run_step Let_def)
qed

text \<open>The image: a file with a name that needs no cleaning.\<close>

definition image_ok :: "message_env \<Rightarrow> string \<Rightarrow> string \<Rightarrow> files \<Rightarrow> bool" where
  "image_ok me f h fs \<longleftrightarrow> f \<noteq> [] \<and> sgResolve (meStager me) f = f \<and> basename f = ''image.jpg'' \<and>
     sgNfkc (meStager me) ''image.jpg'' = ''image.jpg'' \<and> h \<noteq> [] \<and>
     (case fs f of
        Some (RegularFile c) \<Rightarrow> int (length c) \<le> sgMaxBytes (meStager me) \<and> sgDigest (meStager me) c = h
      | _ \<Rightarrow> False)"

lemma image_name:
  "basename ''image.jpg'' = ''image.jpg''" "replace_runs False ''image.jpg'' = ''image.jpg''"
  "js_lower (extname ''image.jpg'') = ''.jpg''" "detect ''.jpg'' = (''image/jpeg'', PT_image)"
  by code_simp+

lemma image_staged:
  assumes "image_ok me f h fs"
  shows "\<exists>m fs'. stage (meStager me) Copied f None fs = (Inr m, fs') \<and> smHash m = h \<and> smPath m \<noteq> [] \<and>
    smPayloadType m = PT_image"
proof -
  obtain c where c: "fs f = Some (RegularFile c)" "\<not> sgMaxBytes (meStager me) < int (length c)"
    "sgDigest (meStager me) c = h" "sgResolve (meStager me) f = f" "basename f = ''image.jpg''"
    "sgNfkc (meStager me) ''image.jpg'' = ''image.jpg''"
    using assms by (auto simp: image_ok_def split: option.splits fs_node.splits)
  have "sanitizeFilename (sgNfkc (meStager me)) ''image.jpg'' = ''image.jpg''"
    by (simp add: sanitizeFilename_def c(6) image_name del: replace_runs.simps)
  then show ?thesis
    using c by (auto simp: stage_def run_step readE_def writeE_def ret_def Let_def image_name staged_path_def
        split: option.split)
qed

lemma dry_media:
  assumes e: "dry_env me e" and g: "dry_group s" "dbMedia s = []" and f: "image_ok me f h fs"
    and js: "dbJobs s = [i, k]" "earlier_sim (dry_uuid e n) (media_key me h) (Suc (dbJobSeq s)) i"
      "earlier_sim (dry_uuid e n) (media_key me h) (Suc (dbJobSeq s)) k" "jIdempotencyKey i \<noteq> jIdempotencyKey k"
  shows "\<exists>j t fs'. enqueue me (clCall (dsCli e n))
      (send_request (smoke_send None (Some f) (Some ''media dry-run'') False) None) (s, fs) =
      (Inr \<lparr>qrJob = j, qrDuplicate = False\<rparr>, (t, fs')) \<and> dbJobs t = dbJobs s @ [j] \<and>
    new_sim (dry_uuid e n) (media_key me h) (Suc (dbJobSeq s)) j \<and> jPayloadType j = PT_image \<and>
    truthy (jMediaHash j) \<and> truthy (jMediaPath j) \<and> simulations t = simulations s \<and> same_tables 1 s t"
proof -
  obtain d where d: "dbDestinations s = [d]" "dJid d = ''120363000000000000@g.us''" "dEnabled d" "dCanSend d"
    "dAlias d = Some ''dry-run-test''"
    using dry_groupD [OF g(1)] by blast
  obtain m fs' where m: "stage (meStager me) Copied f None fs = (Inr m, fs')" "smHash m = h" "smPath m \<noteq> []"
    "smPayloadType m = PT_image" "f \<noteq> []" "h \<noteq> []"
    using image_staged [OF f] f by (auto simp: image_ok_def)
  show ?thesis
    using js(2,3)
    by (clarsimp cong: first_step simp: smoke_send_def send_request_def given_def media_key_def group_jid_def
        simulations_def new_sim_def earlier_sim_def same_tables_def m js(1,4) g(2) d dry_envD [OF e] dry_texts
        script_defs run_step Let_def dashed_not_number dashed_not_number [symmetric])
qed

text \<open>A command that has queued its job runs the one round of it, and prints its result.\<close>

lemma command_simulates:
  assumes e: "dry_env me e" and g: "dry_group t" and o: "soAt opts = None"
    and q: "enqueue me (clCall (dsCli e n)) (send_request opts None) (s, fs) = (Inr \<lparr>qrJob = j, qrDuplicate = False\<rparr>, (t, fs'))"
    and j: "new_sim (dry_uuid e n) key m j" "dbJobs t = js @ [j]"
    and js: "js = [] \<or> js = [i] \<and> earlier_sim (dry_uuid e n) key m i \<or>
      js = [i, k] \<and> earlier_sim (dry_uuid e n) key m i \<and> earlier_sim (dry_uuid e n) key m k \<and>
      jIdempotencyKey i \<noteq> jIdempotencyKey k"
  shows "\<exists>out t' j'. cli_run (dsCli e n) (CliSend opts) (s, fs) = (Inr out, (t', fs')) \<and> simulated out \<and>
    dbJobs t' = js @ [j'] \<and> done_sim j j' \<and> simulations t' = Suc (simulations t) \<and> same_tables 1 t t' \<and>
    dbJobSeq t' = dbJobSeq t \<and> dbMedia t' = dbMedia t"
proof -
  have f: "jStatus j = PENDING" "jUuid j = dry_uuid e n" using j(1) by (simp_all add: new_sim_def)
  obtain t' j' where t': "dry_round (dsCli e n) (dry_uuid e n) t = (Inr (True, 1), t')"
    "dbJobs t' = butlast (dbJobs t) @ [j']" "done_sim j j'" "simulations t' = Suc (simulations t)" "same_tables 1 t t'"
    "dbJobSeq t' = dbJobSeq t" "dbMedia t' = dbMedia t"
    using dry_round_simulates [OF e g j(1), of i k n] js j(2) by auto
  have js': "dbJobs t' = js @ [j']" using t'(2) j(2) by simp
  have "job_get (dry_uuid e n) t' = (Inr (Some j'), t')"
    using js t'(3) f(2) js'
    by (auto simp: job_get_def getByReference_def readE_def done_sim_def earlier_sim_def
        dashed_not_number [OF dry_envD(5) [OF e]])
  moreover have "jStatus j' = DRY_RUN" using t'(3) by (simp add: done_sim_def)
  ultimately have "cli_run (dsCli e n) (CliSend opts) (s, fs) = (Inr (OutSimulated True (Some (publicJob False j')) 1), (t', fs'))"
    by (simp cong: first_step add: cli_run_def enqueueAndMaybeDryRun_def schedule_at_def o run_step ret_def
        dry_envD [OF e] q f on_fst_def t'(1))
  then show ?thesis
    using js' t'(3-7) \<open>jStatus j' = DRY_RUN\<close> by (simp add: simulated_def publicJob_def)
qed

lemma dry_set_up:
  "\<exists>a b c s1 s2 s. synchronize [found_group ''Offline Dry Run''] ''smoke'' now empty_db = (Inr a, s1) \<and>
     setAlias group_jid (Some ''dry-run-test'') ''smoke'' now s1 = (Inr b, s2) \<and>
     setEnabled ''dry-run-test'' True ''smoke'' now s2 = (Inr c, s) \<and>
     dry_group s \<and> dbJobs s = [] \<and> dbJobSeq s = 0 \<and> dbMedia s = [] \<and> simulations s = 0 \<and>
     length (dbAudit s) = 3 \<and> dbAuthCreds s = None"
  by (simp cong: first_step add: found_group_def group_jid_def empty_db_def dry_group_def simulations_def
      alias_row_def script_defs run_step Let_def)

text \<open>What the commands of the script have left.\<close>

definition smoke_left :: "database \<Rightarrow> bool" where
  "smoke_left s \<longleftrightarrow> length (dbJobs s) = 3 \<and> (\<forall>j \<in> set (dbJobs s). jStatus j = DRY_RUN \<and>
       (\<exists>x. jRemoteMessageId j = Some (''dryrun:'' @ x)) \<and>
       (jPayloadType j = PT_image \<longrightarrow> truthy (jMediaHash j) \<and> truthy (jMediaPath j))) \<and>
     (\<exists>j \<in> set (dbJobs s). jPayloadType j = PT_image) \<and>
     simulations s = 3 \<and> length (dbAudit s) \<le> 100 \<and> dbAuthCreds s = None"

lemma dry_checks_pass:
  assumes "smoke_left s"
  shows "dry_smoke_checks e s = (Inr (), s)"
proof -
  have jobs: "list_jobs [] 20 s = rev (dbJobs s)" using assms by (simp add: list_jobs_def sql_limit_def smoke_left_def)
  have audits: "length (filter (\<lambda>a. aEventType a = ''dry_run_executed'') (audit_list 100 s)) = 3"
    using assms by (simp add: audit_list_def sql_limit_def smoke_left_def simulations_def rev_filter [symmetric])
  obtain j where j: "find_first (\<lambda>j. jPayloadType j = PT_image) (rev (dbJobs s)) = Some j"
    using assms by (cases "find_first (\<lambda>j. jPayloadType j = PT_image) (rev (dbJobs s))")
      (auto simp: smoke_left_def find_first_None_iff)
  then have "truthy (jMediaHash j)" "truthy (jMediaPath j)"
    using assms find_first_SomeD [OF j] by (auto simp: smoke_left_def)
  moreover have "list_all (\<lambda>j. jStatus j = DRY_RUN) (rev (dbJobs s))"
    "list_all (\<lambda>j. case jRemoteMessageId j of None \<Rightarrow> False | Some m \<Rightarrow> take 7 m = ''dryrun:'') (rev (dbJobs s))"
    using assms by (auto simp: smoke_left_def list_all_iff)
  moreover have "\<not> hasCredentials json s" for json
    using assms by (simp add: hasCredentials_def auth_getCredentials_def smoke_left_def)
  ultimately show ?thesis
    using assms by (simp cong: first_step add: dry_smoke_checks_def run_step readE_def claim_that_def ret_def jobs audits j
        smoke_left_def)
qed

definition kept_sim :: "string \<Rightarrow> string \<Rightarrow> nat \<Rightarrow> payload_type \<Rightarrow> queue_job \<Rightarrow> bool" where
  "kept_sim u key m p j \<longleftrightarrow> jStatus j = DRY_RUN \<and> jUuid j = u \<and> dashed u \<and> jId j = m \<and> jIdempotencyKey j = key \<and>
     jRemoteMessageId j = Some (''dryrun:'' @ u) \<and> jPayloadType j = p"

lemma kept_simI:
  "new_sim u key m j \<Longrightarrow> done_sim j j' \<Longrightarrow> jPayloadType j = p \<Longrightarrow> kept_sim u key m p j'"
  by (simp add: new_sim_def done_sim_def kept_sim_def)

lemma kept_earlier:
  "kept_sim v key' m' p i \<Longrightarrow> v \<noteq> u \<Longrightarrow> m' \<noteq> m \<Longrightarrow> key' \<noteq> key \<Longrightarrow> earlier_sim u key m i"
  by (auto simp: kept_sim_def earlier_sim_def)

lemma dry_group_cong: "same_tables k s t \<Longrightarrow> dry_group t = dry_group s"
  by (simp add: same_tables_def dry_group_def)

lemma same_tables_twice: "same_tables 1 s t \<Longrightarrow> same_tables 1 t u \<Longrightarrow> same_tables 2 s u"
  by (simp add: same_tables_def)

lemma send_simulates:
  assumes e: "dry_env me e" and g: "dry_group s"
    and js: "dbJobs s = [] \<or>
      dbJobs s = [i] \<and> earlier_sim (dry_uuid e n) (text_key me (if b then Some (dry_uuid e n) else None)) (Suc (dbJobSeq s)) i"
  shows "\<exists>out t j. cli_run (dsCli e n) (CliSend (text_send b)) (s, fs) = (Inr out, (t, fs)) \<and> simulated out \<and>
    dbJobs t = dbJobs s @ [j] \<and>
    kept_sim (dry_uuid e n) (text_key me (if b then Some (dry_uuid e n) else None)) (Suc (dbJobSeq s)) PT_text j \<and>
    simulations t = Suc (simulations s) \<and> same_tables 2 s t \<and> dbJobSeq t = Suc (dbJobSeq s) \<and>
    dbMedia t = dbMedia s"
proof -
  let ?key = "text_key me (if b then Some (dry_uuid e n) else None)" and ?m = "Suc (dbJobSeq s)"
  obtain j t where t: "enqueue me (clCall (dsCli e n)) (send_request (text_send b) None) (s, fs) =
      (Inr \<lparr>qrJob = j, qrDuplicate = False\<rparr>, (t, fs))" "dbJobs t = dbJobs s @ [j]" "new_sim (dry_uuid e n) ?key ?m j"
    "jPayloadType j = PT_text" "simulations t = simulations s" "same_tables 1 s t" "dbJobSeq t = ?m" "dbMedia t = dbMedia s"
    using dry_enqueue [OF e g js] by blast
  have o: "soAt (text_send b) = None" by (simp add: smoke_send_def)
  obtain out t' j' where t': "cli_run (dsCli e n) (CliSend (text_send b)) (s, fs) = (Inr out, (t', fs))" "simulated out"
    "dbJobs t' = dbJobs s @ [j']" "done_sim j j'" "simulations t' = Suc (simulations t)" "same_tables 1 t t'"
    "dbJobSeq t' = dbJobSeq t" "dbMedia t' = dbMedia t"
    using command_simulates [OF e _ o t(1,3,2)] js g dry_group_cong [OF t(6)] by blast
  show ?thesis
    using t' kept_simI [OF t(3) t'(4) t(4)] same_tables_twice [OF t(6) t'(6)] t(5,7,8) by auto
qed

lemma duplicate_suppressed:
  assumes e: "dry_env me e" and g: "dry_group s" and i: "dbJobs s = [i]" "kept_sim u (text_key me None) m PT_text i"
    "u \<noteq> dry_uuid e n"
  shows "\<exists>out. cli_run (dsCli e n) (CliSend (text_send False)) (s, fs) = (Inr out, (s, fs)) \<and> suppressed out"
proof -
  have "enqueue me (clCall (dsCli e n)) (send_request (text_send False) None) (s, fs) =
      (Inr \<lparr>qrJob = i, qrDuplicate = True\<rparr>, (s, fs))"
    using i by (intro dry_duplicate [OF e g i(1)]) (auto simp: kept_sim_def)
  then show ?thesis
    by (simp cong: first_step add: cli_run_def enqueueAndMaybeDryRun_def schedule_at_def smoke_send_def run_step ret_def
        dry_envD [OF e] suppressed_def)
qed

lemma media_simulates:
  assumes e: "dry_env me e" and g: "dry_group s" "dbMedia s = []" and f: "image_ok me f h fs"
    and js: "dbJobs s = [i, k]" "earlier_sim (dry_uuid e n) (media_key me h) (Suc (dbJobSeq s)) i"
      "earlier_sim (dry_uuid e n) (media_key me h) (Suc (dbJobSeq s)) k" "jIdempotencyKey i \<noteq> jIdempotencyKey k"
  shows "\<exists>out t j fs'. cli_run (dsCli e n) (CliSend (smoke_send None (Some f) (Some ''media dry-run'') False)) (s, fs) =
      (Inr out, (t, fs')) \<and> simulated out \<and> dbJobs t = [i, k, j] \<and>
    kept_sim (dry_uuid e n) (media_key me h) (Suc (dbJobSeq s)) PT_image j \<and> truthy (jMediaHash j) \<and>
    truthy (jMediaPath j) \<and> simulations t = Suc (simulations s) \<and> same_tables 2 s t"
proof -
  let ?opts = "smoke_send None (Some f) (Some ''media dry-run'') False"
  obtain j t fs' where t: "enqueue me (clCall (dsCli e n)) (send_request ?opts None) (s, fs) =
      (Inr \<lparr>qrJob = j, qrDuplicate = False\<rparr>, (t, fs'))" "dbJobs t = dbJobs s @ [j]"
    "new_sim (dry_uuid e n) (media_key me h) (Suc (dbJobSeq s)) j" "jPayloadType j = PT_image"
    "truthy (jMediaHash j)" "truthy (jMediaPath j)" "simulations t = simulations s" "same_tables 1 s t"
    using dry_media [OF e g f js] by blast
  have o: "soAt ?opts = None" by (simp add: smoke_send_def)
  obtain out t' j' where t': "cli_run (dsCli e n) (CliSend ?opts) (s, fs) = (Inr out, (t', fs'))" "simulated out"
    "dbJobs t' = dbJobs s @ [j']" "done_sim j j'" "simulations t' = Suc (simulations t)" "same_tables 1 t t'"
    using command_simulates [OF e _ o t(1,3,2), of i k] js g(1) dry_group_cong [OF t(8)] by blast
  show ?thesis
    using t' kept_simI [OF t(3) t'(4) t(4)] same_tables_twice [OF t(8) t'(6)] t(5-7) js(1)
    by (auto simp: done_sim_def)
qed

text \<open>The three messages: sent, suppressed and forced.\<close>

lemma dry_texts_simulated:
  assumes e: "dry_env me e" and g: "dry_group s" "dbJobs s = []" "dbJobSeq s = 0" "dbMedia s = []"
  shows "\<exists>s1 s2 a b out1 out2 out3. cli_run (dsCli e 0) (CliSend (text_send False)) (s, fs) = (Inr out1, (s1, fs)) \<and>
    cli_run (dsCli e 1) (CliSend (text_send False)) (s1, fs) = (Inr out2, (s1, fs)) \<and>
    cli_run (dsCli e 2) (CliSend (text_send True)) (s1, fs) = (Inr out3, (s2, fs)) \<and>
    simulated out1 \<and> suppressed out2 \<and> simulated out3 \<and> dbJobs s2 = [a, b] \<and>
    kept_sim (dry_uuid e 0) (text_key me None) 1 PT_text a \<and>
    kept_sim (dry_uuid e 2) (text_key me (Some (dry_uuid e 2))) 2 PT_text b \<and>
    simulations s2 = simulations s + 2 \<and> length (dbAudit s2) = length (dbAudit s) + 4 \<and>
    dbAuthCreds s2 = dbAuthCreds s \<and> dbJobSeq s2 = 2 \<and> dbMedia s2 = [] \<and> dry_group s2"
proof -
  note apart = dry_envD(12) [OF e]
  obtain out1 s1 a where a: "cli_run (dsCli e 0) (CliSend (text_send False)) (s, fs) = (Inr out1, (s1, fs))" "simulated out1"
    "dbJobs s1 = [a]" "kept_sim (dry_uuid e 0) (text_key me None) 1 PT_text a" "simulations s1 = Suc (simulations s)"
    "same_tables 2 s s1" "dbJobSeq s1 = 1" "dbMedia s1 = []"
    using send_simulates [OF e g(1), of undefined 0 False fs] g by auto
  have g1: "dry_group s1" using g(1) dry_group_cong [OF a(6)] by simp
  obtain out2 where b: "cli_run (dsCli e 1) (CliSend (text_send False)) (s1, fs) = (Inr out2, (s1, fs))" "suppressed out2"
    using duplicate_suppressed [OF e g1 a(3,4), of 1 fs] apart [of 0 1] by auto
  have "earlier_sim (dry_uuid e 2) (text_key me (Some (dry_uuid e 2))) (Suc (dbJobSeq s1)) a"
    using a(7) apart dry_keys_differ [OF e] by (intro kept_earlier [OF a(4)]) auto
  then obtain out3 s2 b' where c: "cli_run (dsCli e 2) (CliSend (text_send True)) (s1, fs) = (Inr out3, (s2, fs))" "simulated out3"
    "dbJobs s2 = [a, b']" "kept_sim (dry_uuid e 2) (text_key me (Some (dry_uuid e 2))) 2 PT_text b'"
    "simulations s2 = Suc (simulations s1)" "same_tables 2 s1 s2" "dbJobSeq s2 = 2" "dbMedia s2 = []"
    using send_simulates [OF e g1, of a 2 True fs] a(3,7,8) by (auto simp: numeral_2_eq_2)
  have "dry_group s2" using g1 dry_group_cong [OF c(6)] by simp
  moreover have "length (dbAudit s2) = length (dbAudit s) + 4" "dbAuthCreds s2 = dbAuthCreds s"
    using a(6) c(6) by (simp_all add: same_tables_def)
  moreover have "simulations s2 = simulations s + 2" using a(5) c(5) by simp
  ultimately show ?thesis using a b c by blast
qed

text \<open>
  The dry-run script passes, whatever the digest, the identifiers and the clocks: the message is
  simulated once, its repetition suppressed, the forced one and the image simulated, and nothing has
  touched the authentication.
\<close>

lemma smoke_dry_run_passes:
  assumes e: "dry_env me e" and f: "image_ok me (dsImage e) h fs"
  shows "fst (smoke_dry_run e (empty_db, fs)) = Inr ()"
proof -
  obtain x y z r1 r2 s where s: "synchronize [found_group ''Offline Dry Run''] ''smoke'' (dsNow e) empty_db = (Inr x, r1)"
    "setAlias group_jid (Some ''dry-run-test'') ''smoke'' (dsNow e) r1 = (Inr y, r2)"
    "setEnabled ''dry-run-test'' True ''smoke'' (dsNow e) r2 = (Inr z, s)"
    "dry_group s" "dbJobs s = []" "dbJobSeq s = 0" "dbMedia s = []" "simulations s = 0" "length (dbAudit s) = 3"
    "dbAuthCreds s = None"
    using dry_set_up by blast
  obtain s1 s2 a b out1 out2 out3 where t: "cli_run (dsCli e 0) (CliSend (text_send False)) (s, fs) = (Inr out1, (s1, fs))"
    "cli_run (dsCli e 1) (CliSend (text_send False)) (s1, fs) = (Inr out2, (s1, fs))"
    "cli_run (dsCli e 2) (CliSend (text_send True)) (s1, fs) = (Inr out3, (s2, fs))"
    "simulated out1" "suppressed out2" "simulated out3" "dbJobs s2 = [a, b]"
    and k: "kept_sim (dry_uuid e 0) (text_key me None) 1 PT_text a"
    "kept_sim (dry_uuid e 2) (text_key me (Some (dry_uuid e 2))) 2 PT_text b"
    "simulations s2 = simulations s + 2" "length (dbAudit s2) = length (dbAudit s) + 4" "dbAuthCreds s2 = dbAuthCreds s"
    "dbJobSeq s2 = 2" "dbMedia s2 = []" "dry_group s2"
    using dry_texts_simulated [OF e s(4-7)] by blast
  note apart = dry_envD(12) [OF e] and keys = dry_keys_differ [OF e]
  have "jIdempotencyKey a \<noteq> jIdempotencyKey b" using k(1,2) keys(2) by (simp add: kept_sim_def)
  moreover have "earlier_sim (dry_uuid e 3) (media_key me h) (Suc (dbJobSeq s2)) a"
    using k(6) apart [of 0 3] not_sym [OF keys(3)] by (intro kept_earlier [OF k(1)]) simp_all
  moreover have "earlier_sim (dry_uuid e 3) (media_key me h) (Suc (dbJobSeq s2)) b"
    using k(6) apart [of 2 3] not_sym [OF keys(3)] by (intro kept_earlier [OF k(2)]) simp_all
  ultimately obtain out4 s3 c fs' where m: "cli_run (dsCli e 3) (CliSend (smoke_send None (Some (dsImage e)) (Some ''media dry-run'') False))
      (s2, fs) = (Inr out4, (s3, fs'))" "simulated out4" "dbJobs s3 = [a, b, c]"
    "kept_sim (dry_uuid e 3) (media_key me h) (Suc (dbJobSeq s2)) PT_image c" "truthy (jMediaHash c)" "truthy (jMediaPath c)"
    "simulations s3 = Suc (simulations s2)" "same_tables 2 s2 s3"
    using media_simulates [OF e k(8,7) f t(7)] by blast
  have "smoke_left s3"
    using k(1-5) m(3-8) s(8-10) by (simp add: smoke_left_def kept_sim_def same_tables_def)
  then show ?thesis
    by (simp cong: first_step add: smoke_dry_run_def dry_text_def [symmetric] run_step on_fst_def s t m(1,2)
        t(2) [simplified] dry_checks_pass claim_that_def ret_def Let_def)
qed

section \<open>All three\<close>

text \<open>
  C26.  The smoke scripts pass.  From an empty database none of their assertions fails: a dry run
  simulates each message once, suppresses its repetition and leaves no login behind; an interrupted
  delivery is set aside, not resent, and settled by hand; a delivery that fails for the network is
  retried and sent, and one that fails for the login is kept and pauses the worker.
\<close>

theorem smoke_scripts_pass:
  assumes "script_env e" and "four_digit_time (now + 100)" and "four_digit_time (now + 101)"
    and "dry_env me d" and "image_ok me (dsImage d) h fs"
  shows "fst (smoke_dry_run d (empty_db, fs)) = Inr () \<and>
    fst (smoke_recovery e now (empty_db, idle_worker)) = Inr () \<and>
    fst (smoke_retry e now (empty_db, idle_worker)) = Inr ()"
  using smoke_dry_run_passes [OF assms(4,5)] smoke_recovery_passes [OF assms(1)]
    smoke_retry_passes [OF assms(1-3)] by blast

text \<open>A machine to run them on.\<close>

definition sample_round :: "int \<Rightarrow> worker_env" where
  "sample_round now = (sample_worker_env sample_answer)\<lparr>weClock := (\<lambda>_. now)\<rparr>"

definition numbered_call :: "nat \<Rightarrow> call_env" where
  "numbered_call n = sample_call\<lparr>ceUuid := CHR ''-'' # show_nat n\<rparr>"

definition sample_worker_smoke :: worker_smoke where
  "sample_worker_smoke = \<lparr>wsMessages = sample_env\<lparr>meConfig := smoke_config, meSha256 := id\<rparr>,
     wsCall = numbered_call, wsStamp = ''2026-02-02T02:40:00.000Z'', wsRound = sample_round\<rparr>"

definition dry_messages :: message_env where
  "dry_messages = sample_env\<lparr>meConfig := dry_smoke_config, meSha256 := id\<rparr>"

definition sample_dry_smoke :: dry_smoke where
  "sample_dry_smoke = \<lparr>dsCli = (\<lambda>n. sample_cli\<lparr>clCommand := sample_command_env\<lparr>cmMessages := dry_messages\<rparr>,
       clCall := numbered_call n, clWorker := sample_round 1770000000000\<rparr>),
     dsNow = ''2026-02-02T02:40:00.000Z'', dsImage = ''/tests/image.jpg''\<rparr>"

definition image_files :: files where
  "image_files = [''/tests/image.jpg'' \<mapsto> RegularFile ''JPEG'']"

lemma numbered_calls:
  "dashed (ceUuid (numbered_call n))" "inj (\<lambda>n. ceUuid (numbered_call n))" "ceCopy (numbered_call n) = Copied"
  by (simp_all add: numbered_call_def dashed_def inj_def show_nat_inj sample_call_def)

lemma sample_script_env: "script_env sample_worker_smoke"
  using numbered_calls
  by (simp add: script_env_def sample_worker_smoke_def sample_round_def sample_worker_env_def parse_iso_reads)

lemma sample_dry_env: "dry_env dry_messages sample_dry_smoke"
  using numbered_calls
  by (simp add: dry_env_def sample_dry_smoke_def dry_messages_def dry_smoke_config_def sample_round_def
      sample_worker_env_def)

lemma sample_image: "image_ok dry_messages (dsImage sample_dry_smoke) ''abJPEG'' image_files"
  by code_simp

theorem smoke_scripts_pass_witness:
  "fst (smoke_dry_run sample_dry_smoke (empty_db, image_files)) = Inr () \<and>
   fst (smoke_recovery sample_worker_smoke 1767225600000 (empty_db, idle_worker)) = Inr () \<and>
   fst (smoke_retry sample_worker_smoke 1767225600000 (empty_db, idle_worker)) = Inr ()"
  by (rule smoke_scripts_pass [OF sample_script_env _ _ sample_dry_env sample_image])
    (simp_all add: four_digit_time_def)

end
