(* ===== verification/Spec2Isabelle.thy ===== *)
theory Spec2Isabelle
  imports Migrations DestinationRepo GroupSetRepo SmallRepos Config Scheduler Health QueueWorker
    BulkCommands GroupSetCommands ControllerCommands SelfController System WorkerLoop QueueDrain
    Schema Rows AppContext CheckCommand UpdateCommand InstallCommand CliProgram
    SmokeScripts
begin

text \<open>
  A model of the WhatsApp bot of this repository: a command line and a daemon that queue messages
  in an SQLite database and deliver them to WhatsApp groups the operator has allowed.  File names
  below are relative to \<open>src/src\<close>.

  \<^bold>\<open>Parts and theories.\<close>

  \<^item> \<open>Prelude\<close>: computations that may throw (\<open>io\<close>, a state and either an error or a value),
    \<open>keeps\<close> (an operation stays within a relation on states, with a locale that closes it under the
    combinators), operations on one part of a state, and the JavaScript string functions.  \<open>Json\<close>:
    JSON values and \<open>JSON.stringify\<close>, with the lemma that the text determines the value.
  \<^item> \<open>Domain\<close> (\<open>domain/*.ts\<close>): statuses and their transitions, the records, the errors.
  \<^item> \<open>Database\<close> (\<open>db/database.ts\<close>, \<open>db/repositories/helpers.ts\<close>): one record with a component per
    table; constraints as guards of the statements and as the invariant \<open>db_ok\<close>; \<open>sound\<close>, what every
    operation keeps: the constraints, the identity and the legal moves of every job, and the log of
    processed commands.  \<open>Migrations\<close> is the migration runner, \<open>Schema\<close> the five scripts of
    \<open>db/migrations/index.ts\<close> as statements over a catalog of tables and indexes, \<open>Rows\<close> the rows of the
    tables and the functions that read them (\<open>toJob\<close> and its like), \<open>AppContext\<close> the opening and closing
    of the connection and of the application context (\<open>app-context.ts\<close>).
  \<^item> \<open>JobRepo\<close>, \<open>DestinationRepo\<close>, \<open>GroupSetRepo\<close>, \<open>SmallRepos\<close> (\<open>db/repositories/*.ts\<close>): every method
    of the repositories; \<open>Stores\<close> states the contract of the key-value tables as locales, which
    \<open>SmallRepos\<close> interprets.
  \<^item> \<open>Clock\<close>: \<open>Date.prototype.toISOString\<close> on the proleptic Gregorian calendar and the order of its texts;
    \<open>RetryPolicy\<close>, \<open>Idempotency\<close>, \<open>Scheduler\<close>, \<open>MediaStaging\<close>, \<open>MessageService\<close>,
    \<open>BulkMessageService\<close>, \<open>Transports\<close>, \<open>QueueWorker\<close> (\<open>messaging/*.ts\<close>, \<open>whatsapp/transport.ts\<close>,
    \<open>whatsapp/error-classifier.ts\<close>): queueing and delivery.  \<open>WorkerLoop\<close> and \<open>QueueDrain\<close> hold the
    facts on many rounds: the loop ends, the queue empties.
  \<^item> \<open>Config\<close> (\<open>config/*.ts\<close>), \<open>Health\<close> (\<open>health/health-service.ts\<close>, \<open>hasCredentials\<close>).
  \<^item> \<open>ConnectionManager\<close>, \<open>AuthState\<close> (\<open>whatsapp/connection-manager.ts\<close>, \<open>whatsapp/auth-state.ts\<close>): one
    operation per handler, and an event relation whose guards are the timers and promises pending.
  \<^item> \<open>ProcessLock\<close> (\<open>lock/process-lock.ts\<close>): both methods, one system call at a time.
  \<^item> \<open>Targets\<close> (\<open>whatsapp/jid.ts\<close>, \<open>target-resolver.ts\<close>, \<open>group-service.ts\<close>), \<open>ChatText\<close> (the parsers of
    the chat commands), \<open>GroupSetCommands\<close>, \<open>BulkCommands\<close>, \<open>ControllerCommands\<close>, \<open>SelfController\<close>
    (\<open>whatsapp/*-commands.ts\<close>, \<open>whatsapp/self-controller.ts\<close>): the commands of the self chat.
  \<^item> \<open>Cli\<close> with its lemmas in \<open>CliFacts\<close> (\<open>cli/index.ts\<close>): the commands of the operator; \<open>CheckCommand\<close>,
    \<open>UpdateCommand\<close>, \<open>InstallCommand\<close> (\<open>cli/*-command.ts\<close>); \<open>CliProgram\<close>: the program around the commands,
    from the configuration to the exit status.
  \<^item> \<open>Daemon\<close> (\<open>daemon.ts\<close>, \<open>withConnectedManager\<close>): a process with its lock, its connection and its
    worker; \<open>System\<close>: everything that happens to the one database, in any order.
  \<^item> \<open>Samples\<close>: the concrete database of the witnesses; \<open>SmokeScripts\<close>: the scripts of \<open>src/scripts\<close> that
    exercise the whole, as programs over the model.

  \<^bold>\<open>How the parts interact.\<close>  Commands call the target resolver, the message services and the
  repositories; the message service stages media and creates jobs; the worker claims a job, waits,
  checks again and hands it to a transport, and the answer moves the job on.  The connection manager
  and the worker meet in the pause reason they keep in the database.  All share the
  database.  What other processes do to it while an operation waits is a parameter of the
  operation: a function on the database, of which the theorems assume at most what every
  operation of the program keeps.

  \<^bold>\<open>What the theorems show.\<close>

  \<^item> The whole program.  \<open>System\<close> puts the commands, the chat, the rounds of the worker, the events of the
    connection and the runs of the daemon into one step relation and refines it to a ledger: rows are
    only added, statuses only move along the table.  From that: the schema always holds, and what was
    sent, simulated or cancelled is settled for good.
  \<^item> Delivery.  What is handed to a transport is claimed, allowed at that moment and not held back; a round
    leaves its job settled; every due job is delivered in the end when the transport answers; a dry run
    reaches no other transport than the simulated one.
  \<^item> One process.  The lock refines a mutex over every life of the processes, as long as calls do not
    overlap and the file can be read; without that it does not, see \<open>overlapping_calls_share_the_lock\<close>.
    The daemon frees the lock on every way out and sets interrupted deliveries aside.
  \<^item> The connection.  A lost authorisation pauses the sending, and no attempt to connect opens more than
    three sockets.
  \<^item> Commands and queueing.  The outcome of each on every branch, errors included; a chat command is
    executed once; bulk commands account for every target; what fails half-way changes nothing.
  \<^item> The smoke scripts.  None of their assertions fails, for any digest, identifiers and clocks.
  \<^item> Storage.  Every older schema is brought to the present one, the constraints list exactly the values of
    the types, rows and session keys are read back as they were stored.

  \<^bold>\<open>Conventions.\<close>  Exceptions are values of \<open>error\<close>; a transaction that throws leaves the state as it
  was.  Texts are lists of 8-bit characters.  Times are milliseconds as integers; the clock is read
  where the code reads it, and each reading is an argument.  Loops of the code are structural
  recursions over their input, or over the readings of the clock, where \<open>None\<close> says that the readings
  ended before the loop did; the theorems say which readings suffice.  The worker's endless loop runs
  over the list of its rounds, and a daemon whose rounds or events are used up before it left is
  \<open>StillRunning\<close>; a round in which a stop is requested ends it, and as many rounds as there are unsent
  jobs empty the queue.

  \<^bold>\<open>Parameters.\<close>  SHA-256, \<open>localeCompare\<close>, Unicode normalisation, \<open>path.resolve\<close>, \<open>Number\<close>, \<open>Date\<close> parsing,
  \<open>Intl\<close>, \<open>JSON.parse\<close>, the SQL interpreter, dotenv, the process table, the commands an update runs, the JID
  codec, the protobuf codec and the socket of the WhatsApp library are arguments; named predicates
  (\<open>reads_iso\<close>, \<open>codec_ok\<close>, \<open>sorts_options\<close>, \<open>reads_scripts\<close>) say what the code relies on, and each is
  instantiated in a witness.

  \<^bold>\<open>Not modelled.\<close>  The declaration of commands and options with commander and the layout of what is
  printed; the logger; the wording of help texts and replies, which are constructors with the numbers
  and names they show.  A process signal is the stop request between two rounds.  The login an
  installation offers is a parameter of the wizard, and the pairing code only passes from the
  library to the screen.
\<close>

end
